(* ===== verification/Prelude.thy ===== *)
theory Prelude
  imports Main "HOL-Library.Word" "HOL-Library.AList" "HOL-Library.Monad_Syntax"
    "HOL-Library.Char_ord" "HOL-Library.List_Lexorder"
begin

text \<open>
  What the other theories share: the collections of simplification facts, Go's int64 as a
  64-bit word, results with an error, and the functions of Go's packages strings, bytes and
  strconv that the gateway calls. A Go string is its list of bytes, so \<open>length\<close> counts bytes
  as \<open>len\<close> does. The functions on letters and blanks (\<open>to_lower\<close>, \<open>trim_space\<close>) are those
  of ASCII text: every string the gateway applies them to is a header name, a URL path, a
  configured name or a frame of a protocol.
\<close>

section \<open>Collections\<close>

named_theorems go_defs \<open>definitions of the small helpers, unfolded together\<close>
named_theorems json_dec \<open>decoding of JSON objects into structs\<close>

section \<open>Integers\<close>

type_synonym i64 = "64 word"

definition i64_of :: "int \<Rightarrow> i64" where
  "i64_of n = word_of_int n"

definition neg64 :: "i64 \<Rightarrow> bool" where
  "neg64 w \<longleftrightarrow> sint w < 0"

definition in_i64 :: "int \<Rightarrow> bool" where
  "in_i64 n \<longleftrightarrow> - (2 ^ 63) \<le> n \<and> n < 2 ^ 63"

lemma in_i64_sint [simp]: "in_i64 (sint (w :: i64))"
  using sint_range_size [of w] by (simp add: in_i64_def word_size)

lemma i64_of_sint [simp]: "i64_of (sint w) = w"
  by (simp add: i64_of_def)

lemma sint_i64_of [simp]: "in_i64 n \<Longrightarrow> sint (i64_of n) = n"
  by (simp add: i64_of_def in_i64_def sint_sbintrunc' signed_take_bit_int_eq_self)

lemma sint_add64: "in_i64 (sint a + sint b) \<Longrightarrow> sint (a + b :: i64) = sint a + sint b"
  by (simp add: in_i64_def sint_word_ariths signed_take_bit_int_eq_self)

lemma sint_sub64: "in_i64 (sint a - sint b) \<Longrightarrow> sint (a - b :: i64) = sint a - sint b"
  by (simp add: in_i64_def sint_word_ariths signed_take_bit_int_eq_self)

text \<open>What an operation on Go's int, which has 64 bits, leaves of an exact result.\<close>

definition wrap64 :: "int \<Rightarrow> int" where
  "wrap64 n = sint (i64_of n)"

lemma wrap64_id [simp]: "in_i64 n \<Longrightarrow> wrap64 n = n"
  by (simp add: wrap64_def)

section \<open>Results\<close>

text \<open>
  A function returning \<open>(T, error)\<close> is a function into \<open>err + T\<close>. An error is its text, as
  \<open>Error()\<close> gives it; the text of an error made inside encoding/json is \<open>json_err\<close>.
\<close>

type_synonym err = string
type_synonym 'a result = "err + 'a"

definition json_err :: err where
  "json_err = ''invalid JSON''"

definition rbind :: "'e + 'a \<Rightarrow> ('a \<Rightarrow> 'e + 'b) \<Rightarrow> 'e + 'b" where
  "rbind m f = (case m of Inl e \<Rightarrow> Inl e | Inr x \<Rightarrow> f x)"

definition wrap_err :: "string \<Rightarrow> err + 'a \<Rightarrow> err + 'a" where
  "wrap_err p m = (case m of Inl e \<Rightarrow> Inl (p @ e) | Inr x \<Rightarrow> Inr x)"

definition of_option :: "'e \<Rightarrow> 'a option \<Rightarrow> 'e + 'a" where
  "of_option e m = (case m of None \<Rightarrow> Inl e | Some x \<Rightarrow> Inr x)"

lemma rbind_simps [simp]: "rbind (Inl e) f = Inl e" "rbind (Inr x) f = f x"
  by (simp_all add: rbind_def)

lemma rbind_Inr_iff: "rbind m f = Inr y \<longleftrightarrow> (\<exists>x. m = Inr x \<and> f x = Inr y)"
  by (cases m) auto

lemma wrap_err_simps [simp]: "wrap_err p (Inl e) = Inl (p @ e)" "wrap_err p (Inr x) = Inr x"
  by (simp_all add: wrap_err_def)

lemma wrap_err_Inr_iff [simp]: "wrap_err p m = Inr x \<longleftrightarrow> m = Inr x"
  by (cases m) auto

lemma of_option_simps [simp]: "of_option e None = Inl e" "of_option e (Some x) = Inr x"
  by (simp_all add: of_option_def)

lemma of_option_Inr_iff [simp]: "of_option e m = Inr x \<longleftrightarrow> m = Some x"
  by (cases m) auto

text \<open>A loop that may return an error: the first error stops it.\<close>

fun traverse_from :: "nat \<Rightarrow> (nat \<Rightarrow> 'a \<Rightarrow> 'e + 'b) \<Rightarrow> 'a list \<Rightarrow> 'e + 'b list" where
  "traverse_from i f [] = Inr []"
| "traverse_from i f (x # xs) =
     rbind (f i x) (\<lambda>y. rbind (traverse_from (Suc i) f xs) (\<lambda>ys. Inr (y # ys)))"

abbreviation traverse :: "(nat \<Rightarrow> 'a \<Rightarrow> 'e + 'b) \<Rightarrow> 'a list \<Rightarrow> 'e + 'b list" where
  "traverse \<equiv> traverse_from 0"

lemma traverse_length: "traverse_from i f xs = Inr ys \<Longrightarrow> length ys = length xs"
  by (induction xs arbitrary: i ys) (auto simp: rbind_Inr_iff)

lemma traverse_all_ok:
  "(\<And>i x. x \<in> set xs \<Longrightarrow> f i x = Inr (g x)) \<Longrightarrow> traverse_from j f xs = Inr (map g xs)"
  by (induction xs arbitrary: j) auto

lemma traverse_from_all:
  "traverse_from i f xs = Inr ys \<Longrightarrow> (\<And>j x y. f j x = Inr y \<Longrightarrow> P y) \<Longrightarrow> \<forall>y \<in> set ys. P y"
  by (induction xs arbitrary: i ys) (auto simp: rbind_Inr_iff)

lemma those_map_Some [simp]:
  "(\<And>x. x \<in> set xs \<Longrightarrow> f x = Some (g x)) \<Longrightarrow> those (map f xs) = Some (map g xs)"
  by (induction xs) auto

section \<open>Strings\<close>

definition has_prefix :: "string \<Rightarrow> string \<Rightarrow> bool" where
  "has_prefix p s \<longleftrightarrow> take (length p) s = p"

definition has_suffix :: "string \<Rightarrow> string \<Rightarrow> bool" where
  "has_suffix p s \<longleftrightarrow> has_prefix (rev p) (rev s)"

definition trim_prefix :: "string \<Rightarrow> string \<Rightarrow> string" where
  "trim_prefix p s = (if has_prefix p s then drop (length p) s else s)"

definition trim_suffix :: "string \<Rightarrow> string \<Rightarrow> string" where
  "trim_suffix p s = (if has_suffix p s then take (length s - length p) s else s)"

lemma has_prefix_append [simp]: "has_prefix p (p @ s)"
  by (simp add: has_prefix_def)

lemma has_prefixE: "has_prefix p s \<Longrightarrow> (\<And>r. s = p @ r \<Longrightarrow> P) \<Longrightarrow> P"
  by (metis append_take_drop_id has_prefix_def)

lemma has_prefix_iff: "has_prefix p s \<longleftrightarrow> (\<exists>r. s = p @ r)"
  by (auto elim: has_prefixE)

lemma has_prefix_Nil [simp]: "has_prefix [] s"
  by (simp add: has_prefix_def)

lemma has_prefix_Cons [simp]:
  "has_prefix (c # p) [] = False" "has_prefix (c # p) (d # s) = (c = d \<and> has_prefix p s)"
  by (auto simp: has_prefix_def)

lemma has_suffix_append [simp]: "has_suffix p (s @ p)"
  by (simp add: has_suffix_def)

lemma has_suffix_iff: "has_suffix p s \<longleftrightarrow> (\<exists>r. s = r @ p)"
  unfolding has_suffix_def has_prefix_iff by (metis rev_append rev_rev_ident)

lemma trim_prefix_append [simp]: "trim_prefix p (p @ s) = s"
  by (simp add: trim_prefix_def)

lemma trim_suffix_append [simp]: "trim_suffix p (s @ p) = s"
  by (simp add: trim_suffix_def)

text \<open>\<open>strings.Index\<close>: the text before the first occurrence and the text after it.\<close>

fun cut_at :: "string \<Rightarrow> string \<Rightarrow> (string \<times> string) option" where
  "cut_at sep [] = (if sep = [] then Some ([], []) else None)"
| "cut_at sep (c # s) =
     (if has_prefix sep (c # s) then Some ([], drop (length sep) (c # s))
      else map_option (\<lambda>(a, b). (c # a, b)) (cut_at sep s))"

lemma cut_at_sound: "cut_at sep s = Some (a, b) \<Longrightarrow> s = a @ sep @ b"
  by (induction sep s arbitrary: a rule: cut_at.induct)
    (auto split: if_splits elim: has_prefixE)

text \<open>\<open>strings.Split\<close> on one character.\<close>

fun split_on :: "char \<Rightarrow> string \<Rightarrow> string list" where
  "split_on d [] = [[]]"
| "split_on d (c # s) =
     (if c = d then [] # split_on d s
      else (case split_on d s of [] \<Rightarrow> [[c]] | w # ws \<Rightarrow> (c # w) # ws))"

fun join :: "string \<Rightarrow> string list \<Rightarrow> string" where
  "join sep [] = []"
| "join sep [x] = x"
| "join sep (x # y # zs) = x @ sep @ join sep (y # zs)"

abbreviation ord :: "char \<Rightarrow> nat" where
  "ord \<equiv> of_char"

definition is_blank :: "char \<Rightarrow> bool" where
  "is_blank c \<longleftrightarrow> c = CHR '' '' \<or> (9 \<le> ord c \<and> ord c \<le> 13)"

definition trim_space :: "string \<Rightarrow> string" where
  "trim_space s = rev (dropWhile is_blank (rev (dropWhile is_blank s)))"

definition lower_char :: "char \<Rightarrow> char" where
  "lower_char c = (if 65 \<le> ord c \<and> ord c \<le> 90 then char_of (ord c + 32) else c)"

text \<open>Lower case on the bits of a letter.\<close>

lemma lower_char_bits [simp]:
  "lower_char (Char b0 b1 b2 b3 b4 b5 b6 b7) =
     Char b0 b1 b2 b3 b4
       (b5 \<or> (b6 \<and> \<not> b7 \<and> (b0 \<or> b1 \<or> b2 \<or> b3 \<or> b4) \<and> \<not> (b4 \<and> b3 \<and> (b2 \<or> (b1 \<and> b0))))) b6 b7"
  by (cases b0; cases b1; cases b2; cases b3; cases b4; cases b5; cases b6; cases b7)
    (simp_all add: lower_char_def char_of_eq_iff)

definition to_lower :: "string \<Rightarrow> string" where
  "to_lower = map lower_char"

definition trim_right_slash :: "string \<Rightarrow> string" where
  "trim_right_slash s = rev (dropWhile (\<lambda>c. c = CHR ''/'') (rev s))"

subsection \<open>Decimal numerals\<close>

definition is_digit :: "char \<Rightarrow> bool" where
  "is_digit c \<longleftrightarrow> 48 \<le> ord c \<and> ord c \<le> 57"

definition digit_char :: "nat \<Rightarrow> char" where
  "digit_char n = char_of (48 + n)"

definition digit_val :: "char \<Rightarrow> nat" where
  "digit_val c = ord c - 48"

fun nat_text :: "nat \<Rightarrow> string" where
  "nat_text n = (if n < 10 then [digit_char n] else nat_text (n div 10) @ [digit_char (n mod 10)])"

declare nat_text.simps [simp del]

definition int_text :: "int \<Rightarrow> string" where
  "int_text n = (if n < 0 then CHR ''-'' # nat_text (nat (- n)) else nat_text (nat n))"

definition parse_nat :: "string \<Rightarrow> nat" where
  "parse_nat s = foldl (\<lambda>n c. 10 * n + digit_val c) 0 s"

lemma ord_digit_char [simp]: "n < 10 \<Longrightarrow> ord (digit_char n) = 48 + n"
  by (simp add: digit_char_def)

lemma is_digit_char [simp]: "n < 10 \<Longrightarrow> is_digit (digit_char n)"
  by (simp add: is_digit_def)

lemma digit_val_char [simp]: "n < 10 \<Longrightarrow> digit_val (digit_char n) = n"
  by (simp add: digit_val_def)

lemma nat_text_digits: "\<forall>c \<in> set (nat_text n). is_digit c"
proof (induction n rule: nat_text.induct)
  case (1 n)
  then show ?case by (subst nat_text.simps) auto
qed

lemma nat_text_nonempty [simp]: "nat_text n \<noteq> []"
  by (subst nat_text.simps) simp

lemma parse_nat_text [simp]: "parse_nat (nat_text n) = n"
proof (induction n rule: nat_text.induct)
  case (1 n)
  show ?case
  proof (cases "n < 10")
    case True
    then show ?thesis by (subst nat_text.simps) (simp add: parse_nat_def)
  next
    case False
    with 1 show ?thesis by (subst nat_text.simps) (simp add: parse_nat_def)
  qed
qed

lemma nat_text_hd: "hd (nat_text n) = CHR ''0'' \<longleftrightarrow> n = 0"
proof (induction n rule: nat_text.induct)
  case (1 n)
  show ?case
  proof (cases "n < 10")
    case True
    have "digit_char n = CHR ''0'' \<longleftrightarrow> ord (digit_char n) = (ord CHR ''0'' :: nat)"
      by (rule of_char_eq_iff [symmetric])
    with True show ?thesis by (subst nat_text.simps) simp
  next
    case False
    then show ?thesis using 1 by (subst nat_text.simps) (simp add: hd_append)
  qed
qed

lemma nat_text_zero [simp]: "nat_text 0 = ''0''"
  by (subst nat_text.simps) (simp add: digit_char_def char_of_eq_iff)

text \<open>\<open>strconv.ParseInt(s, 10, 64)\<close>, on the number literals of JSON.\<close>

definition parse_int64 :: "string \<Rightarrow> i64 option" where
  "parse_int64 s =
     (let (neg, ds) = (case s of c # r \<Rightarrow> if c = CHR ''-'' then (True, r) else (False, s) | [] \<Rightarrow> (False, s));
          n = (if neg then - int (parse_nat ds) else int (parse_nat ds))
      in if ds \<noteq> [] \<and> list_all is_digit ds \<and> in_i64 n then Some (i64_of n) else None)"

lemma is_digit_neq_minus: "is_digit c \<Longrightarrow> c \<noteq> CHR ''-''"
  by (auto simp: is_digit_def)

lemma parse_int64_text [simp]: "in_i64 n \<Longrightarrow> parse_int64 (int_text n) = Some (i64_of n)"
proof (cases "n < 0")
  case True
  assume "in_i64 n"
  with True show ?thesis
    using nat_text_digits [of "nat (- n)"]
    by (simp add: parse_int64_def int_text_def list_all_iff)
next
  case False
  assume "in_i64 n"
  obtain c r where *: "nat_text (nat n) = c # r" by (cases "nat_text (nat n)") auto
  then have "c \<noteq> CHR ''-''"
    using nat_text_digits [of "nat n"] is_digit_neq_minus by auto
  moreover have "parse_nat (c # r) = nat n" using parse_nat_text [of "nat n"] * by simp
  ultimately show ?thesis using False \<open>in_i64 n\<close> nat_text_digits [of "nat n"] *
    by (simp add: parse_int64_def int_text_def list_all_iff)
qed

definition i64_text :: "i64 \<Rightarrow> string" where
  "i64_text w = int_text (sint w)"

lemma parse_int64_i64_text [simp]: "parse_int64 (i64_text w) = Some w"
  by (simp add: i64_text_def)

text \<open>\<open>fmt\<close>'s \<open>%q\<close> on text without characters to escape.\<close>

definition quoted :: "string \<Rightarrow> string" where
  "quoted s = [CHR 34] @ s @ [CHR 34]"

lemmas [go_defs] = i64_text_def int_text_def quoted_def

end
