(* ===== verification/Json.thy ===== *)
theory Json
  imports Prelude
begin

text \<open>
  What the gateway uses of Go's encoding/json: the values, \<open>json.Marshal\<close> as the printer
  \<open>json_text\<close>, \<open>json.Unmarshal\<close>'s parser as \<open>json_parse\<close>, and the decoding of objects into
  struct fields. An object is the list of its members in document order.

  A \<open>json.RawMessage\<close> is represented by the value its bytes denote, \<open>None\<close> when the field is
  absent (length 0) and \<open>Some JNull\<close> when it is the literal null: what is forgotten is white
  space and the spelling of string escapes. Number literals are kept as they are written, so a
  float is its literal. Invalid UTF-8 is passed through where Go writes U+FFFD.
\<close>

section \<open>Values\<close>

datatype json =
    JNull
  | JBool bool
  | JNum string
  | JStr string
  | JArr "json list"
  | JObj "(string \<times> json) list"

section \<open>String literals\<close>

definition hex_digit :: "nat \<Rightarrow> char" where
  "hex_digit n = (if n < 10 then char_of (48 + n) else char_of (87 + n))"

definition hex_val :: "char \<Rightarrow> nat option" where
  "hex_val c =
     (if 48 \<le> ord c \<and> ord c \<le> 57 then Some (ord c - 48)
      else if 97 \<le> ord c \<and> ord c \<le> 102 then Some (ord c - 87)
      else if 65 \<le> ord c \<and> ord c \<le> 70 then Some (ord c - 55)
      else None)"

lemma hex_val_digit [simp]: "n < 16 \<Longrightarrow> hex_val (hex_digit n) = Some n"
  by (auto simp: hex_val_def hex_digit_def)

fun take_hex4 :: "string \<Rightarrow> (nat \<times> string) option" where
  "take_hex4 (a # b # c # d # s) =
     (case (hex_val a, hex_val b, hex_val c, hex_val d) of
        (Some w, Some x, Some y, Some z) \<Rightarrow> Some (((w * 16 + x) * 16 + y) * 16 + z, s)
      | _ \<Rightarrow> None)"
| "take_hex4 _ = None"

lemma take_hex4_length: "take_hex4 s = Some (n, r) \<Longrightarrow> length r < length s"
  by (induction s rule: take_hex4.induct) (auto split: option.splits)

definition utf8 :: "nat \<Rightarrow> string" where
  "utf8 n =
     (if n < 128 then [char_of n]
      else if n < 2048 then [char_of (192 + n div 64), char_of (128 + n mod 64)]
      else if n < 65536 then
        [char_of (224 + n div 4096), char_of (128 + n div 64 mod 64), char_of (128 + n mod 64)]
      else
        [char_of (240 + n div 262144), char_of (128 + n div 4096 mod 64),
         char_of (128 + n div 64 mod 64), char_of (128 + n mod 64)])"

text \<open>The escapes of \<open>json.Marshal\<close>: HTML's three characters are escaped too.\<close>

definition esc_char :: "char \<Rightarrow> string" where
  "esc_char c =
     (if c = CHR 0x22 \<or> c = CHR 0x5C then [CHR 0x5C, c]
      else if ord c = 8 then [CHR 0x5C, CHR ''b'']
      else if ord c = 9 then [CHR 0x5C, CHR ''t'']
      else if ord c = 10 then [CHR 0x5C, CHR ''n'']
      else if ord c = 12 then [CHR 0x5C, CHR ''f'']
      else if ord c = 13 then [CHR 0x5C, CHR ''r'']
      else if ord c < 32 \<or> c = CHR ''<'' \<or> c = CHR ''>'' \<or> c = CHR ''&'' then
        [CHR 0x5C, CHR ''u'', CHR ''0'', CHR ''0'', hex_digit (ord c div 16), hex_digit (ord c mod 16)]
      else [c])"

definition str_text :: "string \<Rightarrow> string" where
  "str_text s = CHR 0x22 # concat (map esc_char s) @ [CHR 0x22]"

definition unescape :: "char \<Rightarrow> char option" where
  "unescape e =
     (if e = CHR 0x22 \<or> e = CHR 0x5C \<or> e = CHR ''/'' then Some e
      else if e = CHR ''b'' then Some (char_of (8 :: nat))
      else if e = CHR ''t'' then Some (char_of (9 :: nat))
      else if e = CHR ''n'' then Some (char_of (10 :: nat))
      else if e = CHR ''f'' then Some (char_of (12 :: nat))
      else if e = CHR ''r'' then Some (char_of (13 :: nat))
      else None)"

text \<open>A code unit read from \<open>\u\<close>: a surrogate pair takes the next escape with it.\<close>

definition low_surrogate :: "string \<Rightarrow> (nat \<times> string) option" where
  "low_surrogate s =
     (if has_prefix [CHR 0x5C, CHR ''u''] s then
        (case take_hex4 (drop 2 s) of
           Some (m, r) \<Rightarrow> if 56320 \<le> m \<and> m < 57344 then Some (m, r) else None
         | None \<Rightarrow> None)
      else None)"

definition rune_at :: "nat \<Rightarrow> string \<Rightarrow> string \<times> string" where
  "rune_at n s =
     (if 55296 \<le> n \<and> n < 56320 then
        (case low_surrogate s of
           Some (m, r) \<Rightarrow> (utf8 (65536 + (n - 55296) * 1024 + (m - 56320)), r)
         | None \<Rightarrow> (utf8 65533, s))
      else if 56320 \<le> n \<and> n < 57344 then (utf8 65533, s)
      else (utf8 n, s))"

lemma rune_at_length: "length (snd (rune_at n s)) \<le> length s"
  by (auto simp: rune_at_def low_surrogate_def split: option.splits dest!: take_hex4_length)

function lex_str :: "string \<Rightarrow> (string \<times> string) option" where
  "lex_str [] = None"
| "lex_str (c # s) =
     (if c = CHR 0x22 then Some ([], s)
      else if ord c < (32 :: nat) then None
      else if c \<noteq> CHR 0x5C then map_option (apfst (Cons c)) (lex_str s)
      else (case s of
              [] \<Rightarrow> None
            | e # t \<Rightarrow>
                if e \<noteq> CHR ''u'' then
                  (case unescape e of
                     None \<Rightarrow> None
                   | Some d \<Rightarrow> map_option (apfst (Cons d)) (lex_str t))
                else (case take_hex4 t of
                        None \<Rightarrow> None
                      | Some (n, u) \<Rightarrow>
                          map_option (apfst (append (fst (rune_at n u)))) (lex_str (snd (rune_at n u))))))"
  by pat_completeness auto
termination
proof (relation "measure length", goal_cases)
  case (4 c s e t p n u)
  then have "length u < length t" by (metis take_hex4_length)
  then show ?case using 4 rune_at_length [of n u] by simp
qed auto

lemma lex_str_length: "lex_str s = Some (a, r) \<Longrightarrow> length r < length s"
proof (induction s arbitrary: a r rule: lex_str.induct)
  case (2 c s)
  show ?case
  proof (cases "c = CHR 0x22 \<or> ord c < (32 :: nat) \<or> c \<noteq> CHR 0x5C \<or> s = []")
    case True
    with 2 show ?thesis by (fastforce split: if_splits)
  next
    case False
    then obtain e t where s: "s = e # t" by (cases s) auto
    show ?thesis
    proof (cases "e = CHR ''u''")
      case False': False
      then show ?thesis using 2 False s by (fastforce split: option.splits)
    next
      case True
      then obtain n u where u: "take_hex4 t = Some (n, u)" using 2 False s
        by (cases "take_hex4 t") auto
      then have "length u < length t" by (rule take_hex4_length)
      moreover obtain b where "lex_str (snd (rune_at n u)) = Some (b, r)"
        using 2(4) False s True u by auto
      then have "length r < length (snd (rune_at n u))"
        using 2(3) False s True u by auto
      ultimately show ?thesis using rune_at_length [of n u] s by simp
    qed
  qed
qed simp

lemma lex_str_esc: "lex_str (esc_char c @ s) = map_option (apfst (Cons c)) (lex_str s)"
proof -
  have small: "utf8 n = [char_of n]" "rune_at n t = (utf8 n, t)" if "n < 128" for n t
    using that by (simp_all add: utf8_def rune_at_def)
  have hex: "take_hex4 (CHR ''0'' # CHR ''0'' # hex_digit (k div 16) # hex_digit (k mod 16) # s)
      = Some (k, s)" if "k < 128" for k
  proof -
    have "hex_val CHR ''0'' = Some 0" by (simp add: hex_val_def)
    moreover have "k div 16 < 16" using that by simp
    ultimately show ?thesis by simp
  qed
  have c: "char_of k = c" if "ord c = k" for k :: nat
    using that by auto
  show ?thesis
  proof (cases "c = CHR 0x22 \<or> c = CHR 0x5C \<or> ord c \<in> {8, 9, 10, 12, 13 :: nat}")
    case True
    then show ?thesis by (auto simp: esc_char_def unescape_def c)
  next
    case False
    show ?thesis
    proof (cases "ord c < (32 :: nat) \<or> c = CHR ''<'' \<or> c = CHR ''>'' \<or> c = CHR ''&''")
      case True
      then have lt: "ord c < (128 :: nat)" by auto
      show ?thesis using False True hex [OF lt] small [OF lt]
        by (simp add: esc_char_def apfst_def map_prod_def)
    next
      case False': False
      then show ?thesis using False by (simp add: esc_char_def)
    qed
  qed
qed

lemma lex_str_text: "lex_str (concat (map esc_char s) @ CHR 0x22 # r) = Some (s, r)"
  by (induction s) (simp_all add: lex_str_esc)

section \<open>Number literals\<close>

definition lex_frac :: "string \<Rightarrow> (string \<times> string) option" where
  "lex_frac s =
     (case s of
        c # r \<Rightarrow>
          if c = CHR ''.'' then
            (if takeWhile is_digit r = [] then None
             else Some (c # takeWhile is_digit r, dropWhile is_digit r))
          else Some ([], s)
      | [] \<Rightarrow> Some ([], s))"

definition lex_exp :: "string \<Rightarrow> (string \<times> string) option" where
  "lex_exp s =
     (case s of
        c # r \<Rightarrow>
          if c = CHR ''e'' \<or> c = CHR ''E'' then
            (let (sg, d) = (case r of x # y \<Rightarrow> if x = CHR ''+'' \<or> x = CHR ''-'' then ([x], y) else ([], r)
                                    | [] \<Rightarrow> ([], r))
             in if takeWhile is_digit d = [] then None
                else Some (c # sg @ takeWhile is_digit d, dropWhile is_digit d))
          else Some ([], s)
      | [] \<Rightarrow> Some ([], s))"

definition lex_int :: "string \<Rightarrow> (string \<times> string) option" where
  "lex_int s =
     (case s of
        c # r \<Rightarrow>
          if c = CHR ''0'' then Some ([c], r)
          else if is_digit c then Some (takeWhile is_digit s, dropWhile is_digit s)
          else None
      | [] \<Rightarrow> None)"

definition lex_num :: "string \<Rightarrow> (string \<times> string) option" where
  "lex_num s =
     (let (sg, t) = (case s of c # r \<Rightarrow> if c = CHR ''-'' then ([c], r) else ([], s) | [] \<Rightarrow> ([], s))
      in do { (i, u) \<leftarrow> lex_int t; (f, v) \<leftarrow> lex_frac u; (e, w) \<leftarrow> lex_exp v;
              Some (sg @ i @ f @ e, w) })"

lemma dropWhile_le: "length (dropWhile P xs) \<le> length xs"
  by (simp add: length_dropWhile_le)

lemma lex_frac_length: "lex_frac s = Some (a, r) \<Longrightarrow> length r \<le> length s"
  by (auto simp: lex_frac_def split: list.splits if_splits intro: le_SucI dropWhile_le)

lemma lex_exp_length: "lex_exp s = Some (a, r) \<Longrightarrow> length r \<le> length s"
  by (auto simp: lex_exp_def Let_def split: list.splits if_splits
      intro: le_SucI dropWhile_le)

lemma lex_int_length: "lex_int s = Some (a, r) \<Longrightarrow> length r < length s"
  by (auto simp: lex_int_def less_Suc_eq_le split: list.splits if_splits intro: dropWhile_le)

lemma lex_num_length: "lex_num s = Some (a, r) \<Longrightarrow> length r < length s"
  by (auto simp: lex_num_def Let_def split: list.splits if_splits Option.bind_splits
      dest!: lex_frac_length lex_exp_length lex_int_length)

text \<open>A literal is read back whole in front of anything that cannot continue it.\<close>

definition num_ok :: "string \<Rightarrow> bool" where
  "num_ok l \<longleftrightarrow> lex_num l = Some (l, [])"

definition delim :: "string \<Rightarrow> bool" where
  "delim s \<longleftrightarrow> (case s of [] \<Rightarrow> True | c # _ \<Rightarrow> c = CHR '','' \<or> c = CHR '']'' \<or> c = CHR ''}'' \<or> c = CHR 10)"

lemma delim_simps [simp]:
  "delim []" "delim (CHR 10 # s)" "delim (CHR '','' # s)" "delim (CHR '']'' # s)" "delim (CHR ''}'' # s)"
  by (simp_all add: delim_def)

lemma delim_stop: "delim (c # s) \<Longrightarrow> \<not> is_digit c \<and> c \<notin> {CHR ''.'', CHR ''e'', CHR ''E'', CHR ''+'', CHR ''-''}"
  by (auto simp: delim_def is_digit_def)

lemma takeWhile_delim [simp]: "delim s \<Longrightarrow> takeWhile is_digit s = [] \<and> dropWhile is_digit s = s"
  by (cases s) (auto dest: delim_stop)

lemma span_append:
  assumes "delim s"
  shows "takeWhile is_digit (xs @ s) = takeWhile is_digit xs \<and>
    dropWhile is_digit (xs @ s) = dropWhile is_digit xs @ s"
  using assms by (induction xs) auto

lemma lex_frac_append: "delim s \<Longrightarrow> lex_frac u = Some (f, v) \<Longrightarrow> lex_frac (u @ s) = Some (f, v @ s)"
  by (cases u; cases s)
    (auto simp: lex_frac_def span_append dest: delim_stop split: if_splits)

lemma lex_exp_append: "delim s \<Longrightarrow> lex_exp u = Some (f, v) \<Longrightarrow> lex_exp (u @ s) = Some (f, v @ s)"
proof (cases u)
  case (Cons c r)
  assume *: "delim s" "lex_exp u = Some (f, v)"
  show ?thesis
  proof (cases r)
    case Nil
    with * Cons show ?thesis by (auto simp: lex_exp_def split: if_splits)
  next
    case (Cons x y)
    with * \<open>u = c # r\<close> show ?thesis
      by (auto simp: lex_exp_def span_append [of s y] span_append [of s "x # y"] split: if_splits)
  qed
qed (cases s, auto simp: lex_exp_def dest: delim_stop)

lemma lex_int_append: "delim s \<Longrightarrow> lex_int u = Some (f, v) \<Longrightarrow> lex_int (u @ s) = Some (f, v @ s)"
  by (cases u) (auto simp: lex_int_def span_append split: if_splits)

lemma lex_num_append:
  assumes "delim s" and "lex_num u = Some (l, v)"
  shows "lex_num (u @ s) = Some (l, v @ s)"
proof -
  define sg t where "sg = (if has_prefix ''-'' u then ''-'' else [])" and "t = trim_prefix ''-'' u"
  have num: "lex_num x = do { (i, p) \<leftarrow> lex_int y; (f, q) \<leftarrow> lex_frac p; (e, w) \<leftarrow> lex_exp q;
      Some (g @ i @ f @ e, w) }"
    if "g = (if has_prefix ''-'' x then ''-'' else [])" "y = trim_prefix ''-'' x" for g x y
    using that by (cases x) (auto simp: lex_num_def trim_prefix_def)
  obtain i p f q e where *: "lex_int t = Some (i, p)" "lex_frac p = Some (f, q)"
      "lex_exp q = Some (e, v)" "l = sg @ i @ f @ e"
    using assms(2) num [OF sg_def t_def]
    by (auto simp: Option.bind_eq_Some_conv)
  have "u \<noteq> []" using *(1) by (auto simp: t_def trim_prefix_def lex_int_def)
  then have "sg = (if has_prefix ''-'' (u @ s) then ''-'' else [])" "t @ s = trim_prefix ''-'' (u @ s)"
    by (cases u; simp add: sg_def t_def trim_prefix_def)+
  from num [OF this] show ?thesis
    using * lex_int_append [OF assms(1)] lex_frac_append [OF assms(1)] lex_exp_append [OF assms(1)]
    by simp
qed

lemma num_ok_append: "num_ok l \<Longrightarrow> delim s \<Longrightarrow> lex_num (l @ s) = Some (l, s)"
  unfolding num_ok_def by (drule lex_num_append [rotated]) auto

lemma num_ok_hd: "num_ok l \<Longrightarrow> \<exists>c r. l = c # r \<and> (c = CHR ''-'' \<or> is_digit c)"
  by (cases l) (auto simp: num_ok_def lex_num_def lex_int_def Let_def is_digit_def
      split: if_splits list.splits)

lemma lex_int_nat: "lex_int (nat_text n) = Some (nat_text n, [])"
proof -
  obtain c r where *: "nat_text n = c # r" by (cases "nat_text n") auto
  have d: "\<forall>x \<in> set (c # r). is_digit x" using nat_text_digits [of n] * by simp
  show ?thesis
  proof (cases "n = 0")
    case True
    then show ?thesis by (simp add: lex_int_def)
  next
    case False
    then have "c \<noteq> CHR ''0''" using nat_text_hd [of n] * by simp
    then show ?thesis using * d
      by (simp add: lex_int_def takeWhile_eq_all_conv [THEN iffD2] dropWhile_eq_Nil_conv [THEN iffD2])
  qed
qed

lemma num_ok_int_text [simp]: "num_ok (int_text n)"
proof -
  obtain c r where *: "nat_text (nat n) = c # r" by (cases "nat_text (nat n)") auto
  have "c \<noteq> CHR ''-''" using nat_text_digits [of "nat n"] * is_digit_neq_minus by auto
  then show ?thesis using * lex_int_nat [of "nat n"] lex_int_nat [of "nat (- n)"]
    by (auto simp: num_ok_def lex_num_def int_text_def lex_frac_def lex_exp_def)
qed

lemma num_ok_i64_text [simp]: "num_ok (i64_text w)"
  by (simp add: i64_text_def)

section \<open>Printing\<close>

fun json_text :: "json \<Rightarrow> string" where
  "json_text JNull = ''null''"
| "json_text (JBool b) = (if b then ''true'' else ''false'')"
| "json_text (JNum l) = l"
| "json_text (JStr s) = str_text s"
| "json_text (JArr xs) = CHR ''['' # join '','' (map json_text xs) @ '']''"
| "json_text (JObj fs) =
     CHR ''{'' # join '','' (map (\<lambda>(k, v). str_text k @ CHR '':'' # json_text v) fs) @ ''}''"

text \<open>The values a parser returns: their number literals are literals of JSON.\<close>

fun json_ok :: "json \<Rightarrow> bool" where
  "json_ok (JNum l) \<longleftrightarrow> num_ok l"
| "json_ok (JArr xs) \<longleftrightarrow> (\<forall>x \<in> set xs. json_ok x)"
| "json_ok (JObj fs) \<longleftrightarrow> (\<forall>p \<in> set fs. json_ok (snd p))"
| "json_ok _ \<longleftrightarrow> True"

section \<open>Parsing\<close>

definition is_ws :: "char \<Rightarrow> bool" where
  "is_ws c \<longleftrightarrow> c = CHR '' '' \<or> ord c = (9 :: nat) \<or> ord c = (10 :: nat) \<or> ord c = (13 :: nat)"

definition skip_ws :: "string \<Rightarrow> string" where
  "skip_ws = dropWhile is_ws"

fun json_value :: "nat \<Rightarrow> string \<Rightarrow> (json \<times> string) option"
  and json_elems :: "nat \<Rightarrow> string \<Rightarrow> (json list \<times> string) option"
  and json_members :: "nat \<Rightarrow> string \<Rightarrow> ((string \<times> json) list \<times> string) option" where
  "json_value 0 s = None"
| "json_value (Suc f) s =
     (case skip_ws s of
        [] \<Rightarrow> None
      | c # r \<Rightarrow>
          if c = CHR 0x22 then map_option (apfst JStr) (lex_str r)
          else if c = CHR ''['' then
            (if has_prefix '']'' (skip_ws r) then Some (JArr [], drop 1 (skip_ws r))
             else map_option (apfst JArr) (json_elems f r))
          else if c = CHR ''{'' then
            (if has_prefix ''}'' (skip_ws r) then Some (JObj [], drop 1 (skip_ws r))
             else map_option (apfst JObj) (json_members f r))
          else if has_prefix ''null'' (c # r) then Some (JNull, drop 3 r)
          else if has_prefix ''true'' (c # r) then Some (JBool True, drop 3 r)
          else if has_prefix ''false'' (c # r) then Some (JBool False, drop 4 r)
          else map_option (apfst JNum) (lex_num (c # r)))"
| "json_elems 0 s = None"
| "json_elems (Suc f) s =
     (case json_value f s of
        None \<Rightarrow> None
      | Some (j, r) \<Rightarrow>
          (case skip_ws r of
             [] \<Rightarrow> None
           | c # r' \<Rightarrow>
               if c = CHR '','' then map_option (apfst (Cons j)) (json_elems f r')
               else if c = CHR '']'' then Some ([j], r')
               else None))"
| "json_members 0 s = None"
| "json_members (Suc f) s =
     (case skip_ws s of
        [] \<Rightarrow> None
      | q # t \<Rightarrow>
          if q \<noteq> CHR 0x22 then None
          else (case lex_str t of
             None \<Rightarrow> None
           | Some (k, u) \<Rightarrow>
               if \<not> has_prefix '':'' (skip_ws u) then None
               else (case json_value f (drop 1 (skip_ws u)) of
                  None \<Rightarrow> None
                | Some (j, r) \<Rightarrow>
                    (case skip_ws r of
                       [] \<Rightarrow> None
                     | c # r' \<Rightarrow>
                         if c = CHR '','' then map_option (apfst (Cons (k, j))) (json_members f r')
                         else if c = CHR ''}'' then Some ([(k, j)], r')
                         else None))))"

definition json_parse :: "string \<Rightarrow> json option" where
  "json_parse s =
     (case json_value (2 * length s + 2) s of
        None \<Rightarrow> None
      | Some (j, r) \<Rightarrow> if skip_ws r = [] then Some j else None)"

subsection \<open>The parser never runs out of fuel\<close>

lemma skip_ws_le: "length (skip_ws s) \<le> length s"
  by (simp add: skip_ws_def length_dropWhile_le)

lemma skip_ws_Cons_length: "skip_ws s = c # r \<Longrightarrow> length r < length s"
  using skip_ws_le [of s] by simp

lemma has_prefix_drop_length: "has_prefix p (skip_ws s) \<Longrightarrow> p \<noteq> [] \<Longrightarrow> length (drop 1 (skip_ws s)) < length s"
  using skip_ws_le [of s] by (cases "skip_ws s"; cases p) auto

lemma json_length:
  "json_value f s = Some (j, r) \<Longrightarrow> length r < length s"
  "json_elems f s = Some (js, r) \<Longrightarrow> length r < length s"
  "json_members f s = Some (ms, r) \<Longrightarrow> length r < length s"
proof (induction f s and f s and f s arbitrary: j r and js r and ms r
    rule: json_value_json_elems_json_members.induct)
  case (2 f s)
  show ?case
  proof (cases "skip_ws s")
    case Nil
    with 2 show ?thesis by simp
  next
    case (Cons c t)
    then have lt: "length t < length s" by (rule skip_ws_Cons_length)
    have el: "length r' < length t"
      if "json_elems f t = Some (xs, r')" "c = CHR ''[''" "\<not> has_prefix '']'' (skip_ws t)" for xs r'
      using 2(1) [OF Cons] that by simp
    have mem: "length r' < length t"
      if "json_members f t = Some (xs, r')" "c = CHR ''{''" "\<not> has_prefix ''}'' (skip_ws t)" for xs r'
      using 2(2) [OF Cons] that by simp
    have less: "length r < length s" if "length r < length t" for r :: string using that lt by simp
    have str: "length r' < length t" if "lex_str t = Some (a, r')" for a r'
      using that by (rule lex_str_length)
    have num: "length r' < length s" if "lex_num (c # t) = Some (a, r')" for a r'
      using lex_num_length [OF that] lt by simp
    have brk: "length (drop 1 (skip_ws t)) < length s" using skip_ws_le [of t] lt by simp
    have lit: "length (drop k t) < length s" for k using lt by simp
    show ?thesis
      using 2(3) Cons brk lit
      by (auto split: if_splits dest: el mem str num intro: less simp del: has_prefix_Cons)
  qed
next
  case (4 f s)
  then show ?case
    by (fastforce split: list.splits if_splits option.splits dest: skip_ws_Cons_length)
next
  case (6 f s)
  then show ?case
    by (fastforce split: list.splits if_splits option.splits
        dest: skip_ws_Cons_length lex_str_length has_prefix_drop_length)
qed auto

lemma json_fuel:
  "2 * length s + 1 \<le> f \<Longrightarrow> json_value (Suc f) s = json_value f s"
  "2 * length s + 2 \<le> f \<Longrightarrow> json_elems (Suc f) s = json_elems f s"
  "2 * length s + 2 \<le> f \<Longrightarrow> json_members (Suc f) s = json_members f s"
proof (induction f s and f s and f s rule: json_value_json_elems_json_members.induct)
  case (2 f s)
  have "2 * length r + 2 \<le> f" if "skip_ws s = c # r" for c r
    using 2(3) skip_ws_Cons_length [OF that] by simp
  with 2 show ?case
    by (simp del: json_elems.simps json_members.simps split: list.split)
next
  case (4 f s)
  have v: "json_value (Suc f) s = json_value f s" using 4 by simp
  have "2 * length t + 2 \<le> f" if "json_value f s = Some (j, r)" "skip_ws r = c # t" for j r c t
    using 4(3) json_length(1) [OF that(1)] skip_ws_Cons_length [OF that(2)] by simp
  then have "json_elems (Suc f) t = json_elems f t"
    if "json_value f s = Some (j, r)" "skip_ws r = CHR '','' # t" for j r t
    using 4(2) that by simp
  with v show ?case
    unfolding json_elems.simps(2) [of "Suc f" s] json_elems.simps(2) [of f s]
    by (auto simp del: json_elems.simps json_value.simps split: option.split list.split)
next
  case (6 f s)
  have v: "json_value (Suc f) (drop 1 (skip_ws u)) = json_value f (drop 1 (skip_ws u))"
    if "skip_ws s = CHR 0x22 # t" "lex_str t = Some (k, u)" "has_prefix '':'' (skip_ws u)" for t k u
    using that 6(1) 6(3) skip_ws_Cons_length [OF that(1)] lex_str_length [OF that(2)]
      has_prefix_drop_length [OF that(3)] by simp
  have m: "json_members (Suc f) r' = json_members f r'"
    if "skip_ws s = CHR 0x22 # t" "lex_str t = Some (k, u)" "has_prefix '':'' (skip_ws u)"
      "json_value f (drop 1 (skip_ws u)) = Some (j, r)" "skip_ws r = CHR '','' # r'" for t k u j r r'
    using that 6(2) 6(3) skip_ws_Cons_length [OF that(1)] lex_str_length [OF that(2)]
      has_prefix_drop_length [OF that(3)] json_length(1) [OF that(4)] skip_ws_Cons_length [OF that(5)]
    by simp
  show ?case
    using v m
    unfolding json_members.simps(2) [of "Suc f" s] json_members.simps(2) [of f s]
    by (auto simp del: json_members.simps json_value.simps split: option.split list.split)
qed simp_all

lemma json_value_fuel_add:
  "2 * length s + 1 \<le> f \<Longrightarrow> json_value (f + k) s = json_value f s"
  by (induction k) (simp_all del: json_value.simps add: json_fuel(1))

lemma json_value_fuel:
  assumes "2 * length s + 1 \<le> f" and "2 * length s + 1 \<le> g"
  shows "json_value f s = json_value g s"
  using json_value_fuel_add [OF assms(1), of g] json_value_fuel_add [OF assms(2), of f]
  by (simp only: add.commute [of f g])

subsection \<open>Reading back what was printed\<close>

lemma is_ws_chars [simp]:
  "\<not> is_ws CHR 0x22" "\<not> is_ws CHR ''[''" "\<not> is_ws CHR ''{''" "\<not> is_ws CHR '','' " "\<not> is_ws CHR '']''"
  "\<not> is_ws CHR ''}''" "\<not> is_ws CHR '':''" "\<not> is_ws CHR ''n''" "\<not> is_ws CHR ''t''" "\<not> is_ws CHR ''f''"
  "\<not> is_ws CHR ''-''"
  by (simp_all add: is_ws_def)

lemma is_ws_digit [simp]: "is_digit c \<Longrightarrow> \<not> is_ws c"
  by (auto simp: is_ws_def is_digit_def)

lemma skip_ws_stop [simp]: "\<not> is_ws c \<Longrightarrow> skip_ws (c # s) = c # s"
  by (simp add: skip_ws_def)

text \<open>The first character of a printed value: never white space, never a closing bracket.\<close>

lemma json_text_hd:
  "json_ok j \<Longrightarrow> \<exists>c r. json_text j = c # r \<and> \<not> is_ws c \<and> c \<noteq> CHR '']'' \<and> c \<noteq> CHR ''}''"
proof (cases j)
  case (JNum l)
  assume "json_ok j"
  with JNum obtain c r where "l = c # r" "c = CHR ''-'' \<or> is_digit c" using num_ok_hd [of l] by auto
  with JNum show ?thesis by (auto simp: is_digit_def is_ws_def)
qed (auto simp: str_text_def)

lemma join_Cons: "xs \<noteq> [] \<Longrightarrow> join sep (x # xs) = x @ sep @ join sep xs"
  by (cases xs) auto

lemma elems_text:
  assumes "\<And>x f r. x \<in> set xs \<Longrightarrow> delim r \<Longrightarrow> 2 * length (json_text x) \<le> f \<Longrightarrow>
      json_value (Suc f) (json_text x @ r) = Some (x, r)"
    and "xs \<noteq> []" and "2 * length (join '','' (map json_text xs)) + 1 \<le> f"
  shows "json_elems (Suc f) (join '','' (map json_text xs) @ CHR '']'' # s) = Some (xs, s)"
  using assms
proof (induction xs arbitrary: f)
  case (Cons x xs)
  obtain g where g: "f = Suc g" using Cons.prems(3) by (cases f) auto
  show ?case
  proof (cases "xs = []")
    case True
    then have "json_value f (json_text x @ CHR '']'' # s) = Some (x, CHR '']'' # s)"
      using Cons.prems g by simp
    with True show ?thesis by simp
  next
    case False
    let ?t = "join '','' (map json_text xs)"
    have j: "join '','' (map json_text (x # xs)) = json_text x @ CHR '','' # ?t"
      using False by (simp add: join_Cons)
    have "json_value f (json_text x @ CHR '','' # ?t @ CHR '']'' # s)
        = Some (x, CHR '','' # ?t @ CHR '']'' # s)"
      using Cons.prems(1) [of x "CHR '','' # ?t @ CHR '']'' # s" g] Cons.prems(3) j g by simp
    moreover have "json_elems f (?t @ CHR '']'' # s) = Some (xs, s)"
      using Cons.IH [of g] Cons.prems False j g by simp
    ultimately show ?thesis using j by simp
  qed
qed simp

abbreviation member_text :: "string \<times> json \<Rightarrow> string" where
  "member_text \<equiv> (\<lambda>(k, v). str_text k @ CHR '':'' # json_text v)"

lemma members_text:
  assumes "\<And>p f r. p \<in> set fs \<Longrightarrow> delim r \<Longrightarrow> 2 * length (json_text (snd p)) \<le> f \<Longrightarrow>
      json_value (Suc f) (json_text (snd p) @ r) = Some (snd p, r)"
    and "\<And>p. p \<in> set fs \<Longrightarrow> json_ok (snd p)"
    and "fs \<noteq> []" and "2 * length (join '','' (map member_text fs)) + 1 \<le> f"
  shows "json_members (Suc f) (join '','' (map member_text fs) @ CHR ''}'' # s) = Some (fs, s)"
  using assms
proof (induction fs arbitrary: f)
  case (Cons p fs)
  obtain k v where p: "p = (k, v)" by (cases p)
  obtain g where g: "f = Suc g" using Cons.prems(4) by (cases f) auto
  obtain c z where c: "json_text v = c # z" "\<not> is_ws c"
    using json_text_hd [of v] Cons.prems(2) [of p] p by auto
  have key: "lex_str (concat (map esc_char k) @ CHR 0x22 # r) = Some (k, r)" for r
    by (rule lex_str_text)
  show ?case
  proof (cases "fs = []")
    case True
    then have "json_value f (json_text v @ CHR ''}'' # s) = Some (v, CHR ''}'' # s)"
      using Cons.prems(1) [of p "CHR ''}'' # s" g] Cons.prems(4) p g by (simp add: str_text_def)
    with True p c show ?thesis by (simp add: str_text_def key)
  next
    case False
    let ?t = "join '','' (map member_text fs)"
    have j: "join '','' (map member_text (p # fs)) = str_text k @ CHR '':'' # json_text v @ CHR '','' # ?t"
      using False p by (simp add: join_Cons)
    have "json_value f (json_text v @ CHR '','' # ?t @ CHR ''}'' # s)
        = Some (v, CHR '','' # ?t @ CHR ''}'' # s)"
      using Cons.prems(1) [of p "CHR '','' # ?t @ CHR ''}'' # s" g] Cons.prems(4) j g p
      by (simp add: str_text_def)
    moreover have "json_members f (?t @ CHR ''}'' # s) = Some (fs, s)"
      using Cons.IH [of g] Cons.prems False j g by simp
    ultimately show ?thesis using j p c by (simp add: str_text_def key)
  qed
qed simp

lemma json_value_text:
  assumes "json_ok j" and "delim r" and "2 * length (json_text j) \<le> f"
  shows "json_value (Suc f) (json_text j @ r) = Some (j, r)"
  using assms
proof (induction j arbitrary: f r)
  case (JNum l)
  then obtain c z where l: "l = c # z" "c = CHR ''-'' \<or> is_digit c" using num_ok_hd [of l] by auto
  then have "c \<notin> {CHR 0x22, CHR ''['', CHR ''{'', CHR ''n'', CHR ''t'', CHR ''f''} \<and> \<not> is_ws c"
    by (auto simp: is_digit_def)
  with JNum l num_ok_append [of l r] show ?case by auto
next
  case (JStr s)
  then show ?case by (simp add: str_text_def lex_str_text)
next
  case (JArr xs)
  obtain g where g: "f = Suc g" using JArr.prems by (cases f) auto
  show ?case
  proof (cases xs)
    case Nil
    then show ?thesis by simp
  next
    case (Cons x ys)
    obtain c z where "json_text x = c # z" "\<not> is_ws c" "c \<noteq> CHR '']''"
      using json_text_hd [of x] JArr.prems Cons by auto
    then have n: "\<not> has_prefix '']'' (skip_ws (join '','' (map json_text xs) @ CHR '']'' # r))"
      using Cons by (cases ys) auto
    have "json_elems f (join '','' (map json_text xs) @ CHR '']'' # r) = Some (xs, r)"
      unfolding g using JArr Cons g by (intro elems_text) auto
    with n show ?thesis by simp
  qed
next
  case (JObj fs)
  obtain g where g: "f = Suc g" using JObj.prems by (cases f) auto
  show ?case
  proof (cases fs)
    case Nil
    then show ?thesis by simp
  next
    case (Cons x ys)
    have n: "\<not> has_prefix ''}'' (skip_ws (join '','' (map member_text fs) @ CHR ''}'' # r))"
      using Cons by (cases ys; cases x) (auto simp: str_text_def)
    have "json_members f (join '','' (map member_text fs) @ CHR ''}'' # r) = Some (fs, r)"
      unfolding g
    proof (rule members_text)
      fix p f r
      assume "p \<in> set fs" "delim r" "2 * length (json_text (snd p)) \<le> f"
      moreover have "snd p \<in> Basic_BNFs.snds p" by (cases p) simp
      ultimately show "json_value (Suc f) (json_text (snd p) @ r) = Some (snd p, r)"
        using JObj.IH [of p "snd p" r f] JObj.prems(1)
        by (simp del: json_value.simps)
    qed (use JObj.prems Cons g in auto)
    with n show ?thesis by simp
  qed
qed auto

theorem json_parse_text: "json_ok j \<Longrightarrow> json_parse (json_text j) = Some j"
  using json_value_text [of j "[]" "2 * length (json_text j) + 1"]
  by (simp add: json_parse_def skip_ws_def)

declare json_text.simps [simp del] json_value.simps [simp del] json_elems.simps [simp del]
  json_members.simps [simp del]

lemma json_parse_text_newline [simp]: "json_ok j \<Longrightarrow> json_parse (json_text j @ [CHR 10]) = Some j"
  using json_value_text [of j "[CHR 10]" "2 * length (json_text j) + 3"]
  by (simp add: json_parse_def skip_ws_def is_ws_def eval_nat_numeral)

section \<open>What a parse yields\<close>

lemma takeWhile_digits [simp]:
  "takeWhile is_digit (takeWhile is_digit xs) = takeWhile is_digit xs"
  "dropWhile is_digit (takeWhile is_digit xs) = []"
  by (induction xs) auto

lemma lex_frac_self: "lex_frac s = Some (a, r) \<Longrightarrow> lex_frac a = Some (a, [])"
  by (auto simp: lex_frac_def split: list.splits if_splits dest: set_takeWhileD)

lemma lex_exp_self: "lex_exp s = Some (a, r) \<Longrightarrow> lex_exp a = Some (a, [])"
proof (cases s)
  case (Cons c t)
  assume *: "lex_exp s = Some (a, r)"
  show ?thesis
  proof (cases t)
    case Nil
    with * Cons show ?thesis by (auto simp: lex_exp_def split: if_splits)
  next
    case (Cons x y)
    have "x \<noteq> CHR ''+'' \<and> x \<noteq> CHR ''-''" if "is_digit x" using that by (auto simp: is_digit_def)
    with * \<open>s = c # t\<close> Cons show ?thesis by (auto simp: lex_exp_def split: if_splits)
  qed
qed (auto simp: lex_exp_def)

lemma lex_int_self: "lex_int s = Some (a, r) \<Longrightarrow> lex_int a = Some (a, [])"
  by (auto simp: lex_int_def split: list.splits if_splits dest: set_takeWhileD)

text \<open>A fraction or an exponent does not begin with what would continue the part before it.\<close>

definition tail_ok :: "string \<Rightarrow> bool" where
  "tail_ok s \<longleftrightarrow> (case s of [] \<Rightarrow> True | c # _ \<Rightarrow> c = CHR ''.'' \<or> c = CHR ''e'' \<or> c = CHR ''E'')"

lemma lex_frac_hd: "lex_frac s = Some (a, r) \<Longrightarrow> a = [] \<or> (\<exists>t. a = CHR ''.'' # t)"
  by (auto simp: lex_frac_def split: list.splits if_splits)

lemma lex_exp_hd: "lex_exp s = Some (a, r) \<Longrightarrow> a = [] \<or> (\<exists>c t. a = c # t \<and> (c = CHR ''e'' \<or> c = CHR ''E''))"
  by (auto simp: lex_exp_def Let_def split: list.splits if_splits prod.splits)

lemma tail_ok_digits: "tail_ok s \<Longrightarrow> takeWhile is_digit s = [] \<and> dropWhile is_digit s = s"
  by (cases s) (auto simp: tail_ok_def is_digit_def)

lemma span_tail:
  assumes "tail_ok s"
  shows "takeWhile is_digit (xs @ s) = takeWhile is_digit xs \<and>
    dropWhile is_digit (xs @ s) = dropWhile is_digit xs @ s"
  using tail_ok_digits [OF assms] by (induction xs) auto

lemma lex_int_tail: "lex_int u = Some (a, v) \<Longrightarrow> tail_ok s \<Longrightarrow> lex_int (u @ s) = Some (a, v @ s)"
  by (cases u) (auto simp: lex_int_def span_tail split: if_splits)

lemma lex_frac_tail:
  assumes "lex_frac a = Some (a, [])" and "lex_exp e = Some (e, [])"
  shows "lex_frac (a @ e) = Some (a, e)"
proof -
  have t: "tail_ok e" using lex_exp_hd [OF assms(2)] by (auto simp: tail_ok_def)
  have "e = [] \<or> hd e \<noteq> CHR ''.''" using lex_exp_hd [OF assms(2)] by auto
  then show ?thesis using assms(1) lex_frac_hd [OF assms(1)]
    by (auto simp: lex_frac_def span_tail [OF t] tail_ok_digits [OF t] split: if_splits list.split)
qed

lemma lex_numE:
  assumes "lex_num s = Some (l, r)"
  obtains sg t i p f q e where "sg = [] \<or> sg = ''-''" "lex_int t = Some (i, p)"
    "lex_frac p = Some (f, q)" "lex_exp q = Some (e, r)" "l = sg @ i @ f @ e"
proof -
  obtain sg t where st: "(case s of c # r \<Rightarrow> if c = CHR ''-'' then ([c], r) else ([], s) | [] \<Rightarrow> ([], s)) = (sg, t)"
    by force
  then have "sg = [] \<or> sg = ''-''" by (auto split: list.splits if_splits)
  moreover obtain i p f q e where "lex_int t = Some (i, p)" "lex_frac p = Some (f, q)"
    "lex_exp q = Some (e, r)" "l = sg @ i @ f @ e"
    using assms unfolding lex_num_def st by (auto simp: Option.bind_eq_Some_conv)
  ultimately show ?thesis by (rule that)
qed

lemma lex_num_ok: "lex_num s = Some (l, r) \<Longrightarrow> num_ok l"
proof -
  assume "lex_num s = Some (l, r)"
  then obtain sg t i p f q e where sg: "sg = [] \<or> sg = ''-''"
    and i: "lex_int t = Some (i, p)" and f: "lex_frac p = Some (f, q)"
    and e: "lex_exp q = Some (e, r)" and l: "l = sg @ i @ f @ e"
    by (rule lex_numE)
  have t: "tail_ok (f @ e)"
    using lex_frac_hd [OF f] lex_exp_hd [OF e] by (auto simp: tail_ok_def)
  have i': "lex_int (i @ f @ e) = Some (i, f @ e)"
    using lex_int_tail [OF lex_int_self [OF i] t] by simp
  obtain c z where "i = c # z" "c \<noteq> CHR ''-''"
    using i by (cases i) (auto simp: lex_int_def dest: is_digit_neq_minus split: list.splits if_splits)
  with sg l i' lex_frac_tail [OF lex_frac_self [OF f] lex_exp_self [OF e]] lex_exp_self [OF e]
  show ?thesis by (auto simp: num_ok_def lex_num_def)
qed

lemma json_ok_parsed:
  "json_value f s = Some (j, r) \<Longrightarrow> json_ok j"
  "json_elems f s = Some (js, r) \<Longrightarrow> \<forall>j \<in> set js. json_ok j"
  "json_members f s = Some (ms, r) \<Longrightarrow> \<forall>p \<in> set ms. json_ok (snd p)"
proof (induction f s and f s and f s arbitrary: j r and js r and ms r
    rule: json_value_json_elems_json_members.induct)
  case (2 f s)
  show ?case
  proof (cases "skip_ws s")
    case Nil
    with 2 show ?thesis by (simp add: json_value.simps)
  next
    case (Cons c t)
    have el: "\<forall>j \<in> set xs. json_ok j"
      if "json_elems f t = Some (xs, r')" "c = CHR ''[''" "\<not> has_prefix '']'' (skip_ws t)" for xs r'
      using 2(1) [OF Cons] that by simp
    have mem: "\<forall>p \<in> set xs. json_ok (snd p)"
      if "json_members f t = Some (xs, r')" "c = CHR ''{''" "\<not> has_prefix ''}'' (skip_ws t)" for xs r'
      using 2(2) [OF Cons] that by simp
    show ?thesis
      using 2(3) Cons
      by (auto simp: json_value.simps split: if_splits simp del: has_prefix_Cons dest: lex_num_ok el mem)
  qed
next
  case (4 f s)
  then show ?case
    by (fastforce simp: json_elems.simps json_members.simps split: list.splits if_splits option.splits)
next
  case (6 f s)
  then show ?case
    by (fastforce simp: json_elems.simps json_members.simps split: list.splits if_splits option.splits)
qed (auto simp: json_value.simps json_elems.simps json_members.simps)

lemma json_parse_ok: "json_parse s = Some j \<Longrightarrow> json_ok j"
  by (auto simp: json_parse_def split: option.splits if_splits dest: json_ok_parsed(1))

text \<open>No control character is printed, so a value is one line of text.\<close>

definition printable :: "string \<Rightarrow> bool" where
  "printable s \<longleftrightarrow> (\<forall>c \<in> set s. 32 \<le> ord c)"

lemma printable_simps [simp]:
  "printable []" "printable (c # s) \<longleftrightarrow> 32 \<le> ord c \<and> printable s"
  "printable (s @ t) \<longleftrightarrow> printable s \<and> printable t"
  by (auto simp: printable_def)

lemma printable_takeWhile [simp]: "printable (takeWhile is_digit s)"
  by (auto simp: printable_def is_digit_def dest!: set_takeWhileD)

lemma printable_esc [simp]: "printable (esc_char c)"
proof -
  have "32 \<le> ord (hex_digit n)" if "n < 16" for n
    using that by (auto simp: hex_digit_def)
  moreover have "ord c div 16 < (16 :: nat)"
    using nat_of_char_less_256 [of c] by (simp add: less_mult_imp_div_less)
  ultimately show ?thesis by (auto simp: esc_char_def)
qed

lemma printable_str [simp]: "printable (str_text s)"
  by (induction s) (auto simp: str_text_def)

lemma printable_parts:
  "lex_int s = Some (a, r) \<Longrightarrow> printable a"
  "lex_frac s = Some (a, r) \<Longrightarrow> printable a"
  "lex_exp s = Some (a, r) \<Longrightarrow> printable a"
  by (auto simp: lex_int_def lex_frac_def lex_exp_def Let_def is_digit_def
      split: list.splits if_splits prod.splits)

lemma printable_num: "num_ok l \<Longrightarrow> printable l"
proof -
  assume "num_ok l"
  then obtain sg t i p f q e r where "sg = [] \<or> sg = ''-''"
    and "lex_int t = Some (i, p)" "lex_frac p = Some (f, q)" "lex_exp q = Some (e, r)"
    and "l = sg @ i @ f @ e"
    unfolding num_ok_def by (rule lex_numE)
  then show ?thesis by (auto dest!: printable_parts)
qed

lemma printable_join: "\<forall>x \<in> set xs. printable x \<Longrightarrow> printable sep \<Longrightarrow> printable (join sep xs)"
  by (induction sep xs rule: join.induct) auto

lemma printable_json: "json_ok j \<Longrightarrow> printable (json_text j)"
proof (induction j)
  case (JObj fs)
  then show ?case by (fastforce intro!: printable_join simp: json_text.simps)
qed (auto intro!: printable_join simp: printable_num json_text.simps)

section \<open>Decoding into structs\<close>

text \<open>
  A key of an object goes to the field whose name it equals without regard to case, and a
  later member replaces an earlier one; a null leaves a field that is not a pointer, a slice
  or a map as it is. Decoding fails (\<open>None\<close>) on a member of the wrong type, as
  \<open>json.Unmarshal\<close> returns an error. An integer field takes integer literals in range only.
\<close>

fun jget :: "string \<Rightarrow> (string \<times> json) list \<Rightarrow> json option" where
  "jget k [] = None"
| "jget k ((n, v) # fs) =
     (case jget k fs of Some w \<Rightarrow> Some w | None \<Rightarrow> if to_lower n = k then Some v else None)"

definition non_null :: "(string \<times> json) list \<Rightarrow> (string \<times> json) list" where
  "non_null fs = filter (\<lambda>p. snd p \<noteq> JNull) fs"

type_synonym 'a decoder = "json \<Rightarrow> 'a option"

fun dec_str :: "string decoder" where
  "dec_str (JStr s) = Some s"
| "dec_str JNull = Some []"
| "dec_str _ = None"

fun dec_i64 :: "i64 decoder" where
  "dec_i64 (JNum l) = parse_int64 l"
| "dec_i64 JNull = Some 0"
| "dec_i64 _ = None"

definition dec_int :: "int decoder" where
  "dec_int j = map_option sint (dec_i64 j)"

fun dec_bool :: "bool decoder" where
  "dec_bool (JBool b) = Some b"
| "dec_bool JNull = Some False"
| "dec_bool _ = None"

fun dec_num :: "string decoder" where
  "dec_num (JNum l) = Some l"
| "dec_num JNull = Some ''0''"
| "dec_num _ = None"

fun dec_obj :: "(string \<times> json) list decoder" where
  "dec_obj (JObj fs) = Some fs"
| "dec_obj JNull = Some []"
| "dec_obj _ = None"

fun dec_arr :: "'a decoder \<Rightarrow> 'a list decoder" where
  "dec_arr d (JArr xs) = those (map d xs)"
| "dec_arr d JNull = Some []"
| "dec_arr d _ = None"

definition get_val :: "'a decoder \<Rightarrow> 'a \<Rightarrow> string \<Rightarrow> (string \<times> json) list \<Rightarrow> 'a option" where
  "get_val d z k fs = (case jget k (non_null fs) of None \<Rightarrow> Some z | Some j \<Rightarrow> d j)"

definition get_ptr :: "'a decoder \<Rightarrow> string \<Rightarrow> (string \<times> json) list \<Rightarrow> 'a option option" where
  "get_ptr d k fs =
     (case jget k fs of
        None \<Rightarrow> Some None
      | Some j \<Rightarrow> if j = JNull then Some None else map_option Some (d j))"

definition get_slice :: "'a decoder \<Rightarrow> string \<Rightarrow> (string \<times> json) list \<Rightarrow> 'a list option" where
  "get_slice d k fs = (case jget k fs of None \<Rightarrow> Some [] | Some j \<Rightarrow> dec_arr d j)"

abbreviation get_str :: "string \<Rightarrow> (string \<times> json) list \<Rightarrow> string option" where
  "get_str \<equiv> get_val dec_str []"

abbreviation get_i64 :: "string \<Rightarrow> (string \<times> json) list \<Rightarrow> i64 option" where
  "get_i64 \<equiv> get_val dec_i64 0"

abbreviation get_int :: "string \<Rightarrow> (string \<times> json) list \<Rightarrow> int option" where
  "get_int \<equiv> get_val dec_int 0"

abbreviation get_bool :: "string \<Rightarrow> (string \<times> json) list \<Rightarrow> bool option" where
  "get_bool \<equiv> get_val dec_bool False"

abbreviation get_raw :: "string \<Rightarrow> (string \<times> json) list \<Rightarrow> json option" where
  "get_raw \<equiv> jget"

lemmas [json_dec] = get_val_def get_ptr_def get_slice_def non_null_def

text \<open>A raw message that is present and not null: the test \<open>len(raw) > 0 && string(raw) != "null"\<close>.\<close>

definition raw_set :: "json option \<Rightarrow> bool" where
  "raw_set r \<longleftrightarrow> r \<noteq> None \<and> r \<noteq> Some JNull"

section \<open>Decoding into maps, and marshalling\<close>

definition dec_map :: "(string \<times> json) list decoder" where
  "dec_map j = map_option (\<lambda>fs. fold (\<lambda>(k, v). AList.update k v) fs []) (dec_obj j)"

definition jmap :: "(string \<times> json) list \<Rightarrow> json" where
  "jmap m = JObj (sort_key fst m)"

definition unmarshal :: "'a decoder \<Rightarrow> string \<Rightarrow> 'a option" where
  "unmarshal d s = Option.bind (json_parse s) d"

lemma unmarshal_text [simp]: "json_ok j \<Longrightarrow> unmarshal d (json_text j) = d j"
  by (simp add: unmarshal_def json_parse_text)

text \<open>Struct fields with \<open>omitempty\<close>.\<close>

definition opt_str :: "string \<Rightarrow> string \<Rightarrow> (string \<times> json) list" where
  "opt_str k s = (if s = [] then [] else [(k, JStr s)])"

definition opt_json :: "string \<Rightarrow> json option \<Rightarrow> (string \<times> json) list" where
  "opt_json k j = (case j of None \<Rightarrow> [] | Some v \<Rightarrow> [(k, v)])"

definition opt_true :: "string \<Rightarrow> bool \<Rightarrow> (string \<times> json) list" where
  "opt_true k b = (if b then [(k, JBool True)] else [])"

definition opt_list :: "string \<Rightarrow> json list \<Rightarrow> (string \<times> json) list" where
  "opt_list k xs = (if xs = [] then [] else [(k, JArr xs)])"

definition raw_or_null :: "json option \<Rightarrow> json" where
  "raw_or_null r = (case r of None \<Rightarrow> JNull | Some j \<Rightarrow> j)"

definition num64 :: "i64 \<Rightarrow> json" where
  "num64 w = JNum (i64_text w)"

definition num_int :: "int \<Rightarrow> json" where
  "num_int n = JNum (int_text n)"

lemma json_ok_num [simp]: "json_ok (num64 w)" "json_ok (num_int n)"
  by (simp_all add: num64_def num_int_def)

lemma dec_i64_num64 [simp]: "dec_i64 (num64 w) = Some w"
  by (simp add: num64_def)

lemma dec_int_num [simp]: "in_i64 n \<Longrightarrow> dec_int (num_int n) = Some n"
  by (simp add: dec_int_def num_int_def)

lemma num_not_null [simp]: "num64 w \<noteq> JNull" "num_int n \<noteq> JNull"
  by (simp_all add: num64_def num_int_def)

lemma to_lower_lit: "to_lower [] = []" "to_lower (c # s) = lower_char c # to_lower s"
  by (simp_all add: to_lower_def)

text \<open>The field names of the structs are their own lower-case forms.\<close>

lemma lower_names [simp]:
  "to_lower ''_raw'' = ''_raw''" "to_lower ''annotations'' = ''annotations''" "to_lower ''api_key''
  = ''api_key''" "to_lower ''arguments'' = ''arguments''" "to_lower ''cache_control'' =
  ''cache_control''" "to_lower ''cache_creation_input_tokens'' = ''cache_creation_input_tokens''"
  "to_lower ''cache_read_input_tokens'' = ''cache_read_input_tokens''" "to_lower
  ''cache_read_tokens'' = ''cache_read_tokens''" "to_lower ''cache_write_tokens'' =
  ''cache_write_tokens''" "to_lower ''cached_tokens'' = ''cached_tokens''" "to_lower ''call_id'' =
  ''call_id''" "to_lower ''choices'' = ''choices''" "to_lower ''code'' = ''code''" "to_lower
  ''completed'' = ''completed''" "to_lower ''completion_tokens'' = ''completion_tokens''" "to_lower
  ''completion_tokens_details'' = ''completion_tokens_details''" "to_lower ''content'' =
  ''content''" "to_lower ''content_block'' = ''content_block''" "to_lower ''content_index'' =
  ''content_index''" "to_lower ''created'' = ''created''" "to_lower ''created_at'' = ''created_at''"
  "to_lower ''data'' = ''data''" "to_lower ''delta'' = ''delta''" "to_lower ''description'' =
  ''description''" "to_lower ''duration'' = ''duration''" "to_lower ''encrypted_content'' =
  ''encrypted_content''" "to_lower ''error'' = ''error''" "to_lower ''finish_reason'' =
  ''finish_reason''" "to_lower ''format'' = ''format''" "to_lower ''function'' = ''function''"
  "to_lower ''id'' = ''id''" "to_lower ''image_url'' = ''image_url''" "to_lower ''include_usage'' =
  ''include_usage''" "to_lower ''incomplete'' = ''incomplete''" "to_lower ''incomplete_details'' =
  ''incomplete_details''" "to_lower ''index'' = ''index''" "to_lower ''input'' = ''input''"
  "to_lower ''input_schema'' = ''input_schema''" "to_lower ''input_tokens'' = ''input_tokens''"
  "to_lower ''input_tokens_details'' = ''input_tokens_details''" "to_lower ''instructions'' =
  ''instructions''" "to_lower ''is_error'' = ''is_error''" "to_lower ''item'' = ''item''" "to_lower
  ''item_id'' = ''item_id''" "to_lower ''max_completion_tokens'' = ''max_completion_tokens''"
  "to_lower ''max_output_tokens'' = ''max_output_tokens''" "to_lower ''max_tokens'' =
  ''max_tokens''" "to_lower ''media_type'' = ''media_type''" "to_lower ''message'' = ''message''"
  "to_lower ''message_delta'' = ''message_delta''" "to_lower ''message_stop'' = ''message_stop''"
  "to_lower ''messages'' = ''messages''" "to_lower ''model'' = ''model''" "to_lower ''model_code'' =
  ''model_code''" "to_lower ''models'' = ''models''" "to_lower ''name'' = ''name''" "to_lower
  ''object'' = ''object''" "to_lower ''output'' = ''output''" "to_lower ''output_index'' =
  ''output_index''" "to_lower ''output_tokens'' = ''output_tokens''" "to_lower
  ''output_tokens_details'' = ''output_tokens_details''" "to_lower ''parallel_tool_calls'' =
  ''parallel_tool_calls''" "to_lower ''param'' = ''param''" "to_lower ''parameters'' =
  ''parameters''" "to_lower ''part'' = ''part''" "to_lower ''partial_json'' = ''partial_json''"
  "to_lower ''priority'' = ''priority''" "to_lower ''prompt_tokens'' = ''prompt_tokens''" "to_lower
  ''prompt_tokens_details'' = ''prompt_tokens_details''" "to_lower ''properties'' = ''properties''"
  "to_lower ''provider_model_code'' = ''provider_model_code''" "to_lower ''providers'' =
  ''providers''" "to_lower ''rate_limit_error'' = ''rate_limit_error''" "to_lower ''reason'' =
  ''reason''" "to_lower ''reasoning_content'' = ''reasoning_content''" "to_lower
  ''reasoning_effort'' = ''reasoning_effort''" "to_lower ''reasoning_tokens'' =
  ''reasoning_tokens''" "to_lower ''redacted_thinking'' = ''redacted_thinking''" "to_lower
  ''refusal'' = ''refusal''" "to_lower ''request_id'' = ''request_id''" "to_lower ''response'' =
  ''response''" "to_lower ''response_format'' = ''response_format''" "to_lower ''role'' = ''role''"
  "to_lower ''sequence_number'' = ''sequence_number''" "to_lower ''signature'' = ''signature''"
  "to_lower ''source'' = ''source''" "to_lower ''start_time'' = ''start_time''" "to_lower ''status''
  = ''status''" "to_lower ''status_code'' = ''status_code''" "to_lower ''stop'' = ''stop''"
  "to_lower ''stop_reason'' = ''stop_reason''" "to_lower ''stop_sequence'' = ''stop_sequence''"
  "to_lower ''stop_sequences'' = ''stop_sequences''" "to_lower ''store'' = ''store''" "to_lower
  ''stream'' = ''stream''" "to_lower ''stream_options'' = ''stream_options''" "to_lower ''summary''
  = ''summary''" "to_lower ''summary_index'' = ''summary_index''" "to_lower ''system'' = ''system''"
  "to_lower ''temperature'' = ''temperature''" "to_lower ''text'' = ''text''" "to_lower ''thinking''
  = ''thinking''" "to_lower ''tool_call_id'' = ''tool_call_id''" "to_lower ''tool_calls'' =
  ''tool_calls''" "to_lower ''tool_choice'' = ''tool_choice''" "to_lower ''tool_use_id'' =
  ''tool_use_id''" "to_lower ''tools'' = ''tools''" "to_lower ''top_p'' = ''top_p''" "to_lower
  ''total_tokens'' = ''total_tokens''" "to_lower ''ttft'' = ''ttft''" "to_lower ''type'' = ''type''"
  "to_lower ''url'' = ''url''" "to_lower ''usage'' = ''usage''" "to_lower ''version'' = ''version''"
  "to_lower ''weight'' = ''weight''"
  "to_lower ''accepted'' = ''accepted''" "to_lower ''detail'' = ''detail''" "to_lower ''duplicate'' = ''duplicate''"
  "to_lower ''include'' = ''include''" "to_lower ''modelcode'' = ''modelcode''" "to_lower ''msg'' = ''msg''"
  "to_lower ''previous_response_id'' = ''previous_response_id''" "to_lower ''providercode'' = ''providercode''" "to_lower ''providermodelcode'' = ''providermodelcode''"
  "to_lower ''providerprotocol'' = ''providerprotocol''" "to_lower ''rejectreason'' = ''rejectreason''" "to_lower ''strict'' = ''strict''"
  "to_lower ''subjectcode'' = ''subjectcode''" "to_lower ''valid'' = ''valid''" "to_lower ''apikey'' = ''apikey''"
  "to_lower ''apiKey'' = ''apikey''"
  "to_lower ''modelCode'' = ''modelcode''"
  "to_lower ''providerCode'' = ''providercode''"
  "to_lower ''providerModelCode'' = ''providermodelcode''"
  "to_lower ''providerProtocol'' = ''providerprotocol''"
  "to_lower ''rejectReason'' = ''rejectreason''"
  "to_lower ''subjectCode'' = ''subjectcode''"
  by (simp_all add: to_lower_lit)

subsection \<open>Structs through their fields\<close>

text \<open>
  What a field of a struct reads from the members that an encoder of this development writes.
  The bundle \<open>struct_dec\<close> evaluates a decoder on an encoder's object with symbolic fields.
\<close>

fun last_of :: "'a option \<Rightarrow> 'a option \<Rightarrow> 'a option" where
  "last_of x None = x"
| "last_of x (Some y) = Some y"

lemma last_of_None [simp]: "last_of None y = y"
  by (cases y) simp_all

lemma jget_parts:
  "jget k [] = None"
  "jget k (fs @ gs) = last_of (jget k fs) (jget k gs)"
  "jget k ((n, v) # fs) = last_of (if to_lower n = k then Some v else None) (jget k fs)"
proof -
  show "jget k (fs @ gs) = last_of (jget k fs) (jget k gs)"
    by (induction fs) (cases "jget k gs"; auto split: option.split)+
qed (cases "jget k fs"; simp)+

lemma jget_opt:
  "jget k (opt_str n s) = (if s \<noteq> [] \<and> to_lower n = k then Some (JStr s) else None)"
  "jget k (opt_json n j) = (if to_lower n = k then j else None)"
  "jget k (opt_true n b) = (if b \<and> to_lower n = k then Some (JBool True) else None)"
  "jget k (opt_list n xs) = (if xs \<noteq> [] \<and> to_lower n = k then Some (JArr xs) else None)"
  by (auto simp: opt_str_def opt_json_def opt_true_def opt_list_def split: option.split)

lemma non_null_parts:
  "non_null [] = []" "non_null ((n, v) # fs) = (if v = JNull then non_null fs else (n, v) # non_null fs)"
  "non_null (fs @ gs) = non_null fs @ non_null gs" "non_null (opt_str n s) = opt_str n s"
  "non_null (opt_json n j) = opt_json n (if j = Some JNull then None else j)"
  "non_null (opt_true n b) = opt_true n b" "non_null (opt_list n xs) = opt_list n xs"
  by (auto simp: non_null_def opt_str_def opt_json_def opt_true_def opt_list_def split: option.split)

lemma case_if_None:
  "(case if P then Some x else None of None \<Rightarrow> a | Some y \<Rightarrow> f y) = (if P then f x else a)"
  by simp

lemma case_map_option:
  "(case map_option g x of None \<Rightarrow> a | Some y \<Rightarrow> f y) = (case x of None \<Rightarrow> a | Some y \<Rightarrow> f (g y))"
  by (cases x) simp_all

lemma case_option_same:
  "(case x of None \<Rightarrow> Some None | Some y \<Rightarrow> Some (Some y)) = Some x"
  "(case x of None \<Rightarrow> None | Some y \<Rightarrow> Some y) = x"
  by (cases x; simp)+

lemma if_nil_same: "(if xs \<noteq> [] then Some xs else Some []) = Some xs"
  by simp

lemma if_bool_same: "(if b then Some True else Some False) = Some b"
  by simp

declare jget.simps(2) [simp del]

lemmas [json_dec] = jget_parts

lemmas struct_dec = get_val_def get_ptr_def get_slice_def jget_parts jget_opt non_null_parts case_if_None
  case_map_option case_option_same if_nil_same if_bool_same

text \<open>Members that print.\<close>

definition members_ok :: "(string \<times> json) list \<Rightarrow> bool" where
  "members_ok fs \<longleftrightarrow> (\<forall>p \<in> set fs. json_ok (snd p))"

definition raw_ok :: "json option \<Rightarrow> bool" where
  "raw_ok r \<longleftrightarrow> (case r of None \<Rightarrow> True | Some j \<Rightarrow> json_ok j)"

lemma json_ok_members: "json_ok (JObj fs) = members_ok fs"
  by (simp add: members_ok_def)

lemma members_ok_parts [simp]:
  "members_ok []" "members_ok ((k, v) # fs) \<longleftrightarrow> json_ok v \<and> members_ok fs"
  "members_ok (fs @ gs) \<longleftrightarrow> members_ok fs \<and> members_ok gs"
  "members_ok (opt_str k s)" "members_ok (opt_true k b)"
  "members_ok (opt_json k r) \<longleftrightarrow> raw_ok r" "members_ok (opt_list k xs) \<longleftrightarrow> (\<forall>x \<in> set xs. json_ok x)"
  by (auto simp: members_ok_def opt_str_def opt_true_def opt_json_def opt_list_def raw_ok_def split: option.split)

lemma raw_ok_simps [simp]:
  "raw_ok None" "raw_ok (Some j) = json_ok j" "json_ok (raw_or_null r) = raw_ok r"
  by (auto simp: raw_ok_def raw_or_null_def split: option.split)

subsection \<open>Maps through text\<close>

lemma update_new: "k \<notin> fst ` set m \<Longrightarrow> AList.update k v m = m @ [(k, v)]"
  by (induction m) auto

lemma fold_update_distinct:
  "distinct (map fst (m @ fs)) \<Longrightarrow> fold (\<lambda>(k, v). AList.update k v) fs m = m @ fs"
proof (induction fs arbitrary: m)
  case (Cons p fs)
  then show ?case by (cases p) (simp add: update_new)
qed simp

lemma distinct_fold_update:
  "distinct (map fst m) \<Longrightarrow> distinct (map fst (fold (\<lambda>(k, v). AList.update k v) fs m))"
  by (induction fs arbitrary: m) (auto simp: distinct_update)

lemma set_update_subset: "set (AList.update k v m) \<subseteq> insert (k, v) (set m)"
  by (induction m) auto

lemma set_fold_update: "set (fold (\<lambda>(k, v). AList.update k v) fs m) \<subseteq> set fs \<union> set m"
proof (induction fs arbitrary: m)
  case (Cons p fs)
  then show ?case using set_update_subset [of "fst p" "snd p" m] by (cases p) fastforce
qed simp

definition map_ok :: "(string \<times> json) list \<Rightarrow> bool" where
  "map_ok m \<longleftrightarrow> distinct (map fst m) \<and> (\<forall>p \<in> set m. json_ok (snd p))"

lemma map_ok_Nil [simp]: "map_ok []"
  by (simp add: map_ok_def)

lemma map_ok_update [simp]: "map_ok m \<Longrightarrow> json_ok v \<Longrightarrow> map_ok (AList.update k v m)"
  using set_update_subset [of k v m] by (fastforce simp: map_ok_def distinct_update)

lemma map_ok_delete [simp]: "map_ok m \<Longrightarrow> map_ok (AList.delete k m)"
  by (auto simp: map_ok_def AList.delete_eq distinct_map_filter)

lemma dec_obj_ok: "json_ok j \<Longrightarrow> dec_obj j = Some fs \<Longrightarrow> \<forall>p \<in> set fs. json_ok (snd p)"
  by (cases j) auto

lemma dec_map_ok: "json_ok j \<Longrightarrow> dec_map j = Some m \<Longrightarrow> map_ok m"
proof -
  assume "json_ok j" "dec_map j = Some m"
  then obtain fs where fs: "\<forall>p \<in> set fs. json_ok (snd p)"
      and m: "m = fold (\<lambda>(k, v). AList.update k v) fs []"
    unfolding dec_map_def by (auto dest!: dec_obj_ok)
  then show ?thesis
    using distinct_fold_update [of "[]" fs] set_fold_update [of fs "[]"]
    by (auto simp: map_ok_def)
qed

lemma distinct_sort_fst: "distinct (map fst m) \<Longrightarrow> distinct (map fst (sort_key fst m))"
  by (metis distinct_map distinct_sort set_sort)

lemma jmap_ok [simp]: "map_ok m \<Longrightarrow> json_ok (jmap m)"
  by (simp add: jmap_def map_ok_def)

lemma dec_map_jmap: "map_ok m \<Longrightarrow> dec_map (jmap m) = Some (sort_key fst m)"
  using distinct_sort_fst [of m] fold_update_distinct [of "[]" "sort_key fst m"]
  by (simp add: dec_map_def jmap_def map_ok_def)

lemma map_of_sort_key [simp]: "distinct (map fst m) \<Longrightarrow> map_of (sort_key fst m) = map_of m"
  by (simp add: map_of_inject_set distinct_sort_fst)

lemma map_of_sorted [simp]: "map_ok m \<Longrightarrow> map_of (sort_key fst m) = map_of m"
  by (simp add: map_ok_def)

lemma unmarshal_map: "map_ok m \<Longrightarrow> unmarshal dec_map (json_text (jmap m)) = Some (sort_key fst m)"
  by (simp add: dec_map_jmap)

lemma unmarshal_map_ok: "unmarshal dec_map s = Some m \<Longrightarrow> map_ok m"
  by (auto simp: unmarshal_def Option.bind_eq_Some_conv intro: dec_map_ok json_parse_ok)

lemma map_ok_lookup: "map_ok m \<Longrightarrow> map_of m k = Some v \<Longrightarrow> json_ok v"
  by (auto simp: map_ok_def dest!: map_of_SomeD)

subsection \<open>Parts of what was parsed\<close>

lemma jget_ok: "\<forall>p \<in> set fs. json_ok (snd p) \<Longrightarrow> jget k fs = Some v \<Longrightarrow> json_ok v"
  by (induction k fs rule: jget.induct) (auto simp: jget.simps split: option.splits if_splits)

lemma unmarshal_ok: "unmarshal d s = Some x \<Longrightarrow> \<exists>j. json_ok j \<and> d j = Some x"
  by (auto simp: unmarshal_def Option.bind_eq_Some_conv dest: json_parse_ok)

lemma json_ok_jmap: "json_ok (jmap m) = members_ok m"
  by (simp add: jmap_def members_ok_def)

end
