(* ===== verification/ControlPlane.thy ===== *)
theory ControlPlane
  imports Json
begin

text \<open>
  The package \<^verbatim>\<open>internal/controlplane\<close>: the client of the management service. A request is
  a value of \<open>http_request\<close>; what came back for it is an \<open>exchange\<close>, which stands for
  net/http and the network and is an argument of every operation. Each operation is the pair of
  the request it sends and the result it makes of the exchange.
\<close>

section \<open>Exchanges\<close>

record http_request =
  hqMethod :: string
  hqURL :: string
  hqHeaders :: "(string \<times> string) list"
  hqBody :: string

text \<open>
  \<open>NewRequestFailed\<close>: the request could not be built; \<open>DoFailed\<close>: no response; \<open>Answered\<close>: the
  status, the ETag header and the body, or the error of reading the body.
\<close>

datatype exchange =
    NewRequestFailed err
  | DoFailed err
  | Answered int string "err + string"

record client =
  clBaseURL :: string
  clToken :: string
  clTokenHeader :: string

definition New :: "string \<Rightarrow> string \<Rightarrow> string \<Rightarrow> client" where
  "New baseURL token tokenHeader =
     \<lparr>clBaseURL = trim_right_slash baseURL, clToken = token, clTokenHeader = tokenHeader\<rparr>"

text \<open>\<open>RetryableError\<close> and the errors that are final.\<close>

datatype cp_error = Terminal err | Retryable err

fun IsRetryable :: "cp_error \<Rightarrow> bool" where
  "IsRetryable (Retryable e) = True"
| "IsRetryable (Terminal e) = False"

fun cp_text :: "cp_error \<Rightarrow> err" where
  "cp_text (Retryable e) = e"
| "cp_text (Terminal e) = e"

definition cp_wrap :: "string \<Rightarrow> cp_error + 'a \<Rightarrow> cp_error + 'a" where
  "cp_wrap p m = (case m of
     Inr x \<Rightarrow> Inr x
   | Inl (Retryable e) \<Rightarrow> Inl (Retryable (p @ e))
   | Inl (Terminal e) \<Rightarrow> Inl (Terminal (p @ e)))"

definition truncate_body :: "string \<Rightarrow> string" where
  "truncate_body b = (if length b > 300 then take 300 b @ ''...'' else b)"

lemma truncate_body_length: "length (truncate_body b) \<le> 303"
  by (simp add: truncate_body_def)

definition successCode :: string where "successCode = ''00000''"

definition limit_body :: "nat \<Rightarrow> err + string \<Rightarrow> err + string" where
  "limit_body n b = (case b of Inl e \<Rightarrow> Inl e | Inr s \<Rightarrow> Inr (take n s))"

section \<open>Requests answered with an envelope\<close>

record apiResult =
  arCode :: string
  arMsg :: string
  arData :: "json option"

definition dec_apiResult :: "apiResult decoder" where
  "dec_apiResult j = do {
     fs \<leftarrow> dec_obj j;
     c \<leftarrow> get_str ''code'' fs;
     m \<leftarrow> get_str ''msg'' fs;
     Some \<lparr>arCode = c, arMsg = m, arData = get_raw ''data'' fs\<rparr> }"

definition transient_status :: "int \<Rightarrow> bool" where
  "transient_status s \<longleftrightarrow> s \<ge> 500 \<or> s = 429 \<or> s = 408"

definition post_request :: "client \<Rightarrow> string \<Rightarrow> string \<Rightarrow> http_request" where
  "post_request c path payload =
     \<lparr>hqMethod = ''POST'', hqURL = clBaseURL c @ path,
      hqHeaders = [(''Content-Type'', ''application/json''), (''Accept'', ''application/json''),
                   (clTokenHeader c, clToken c)],
      hqBody = payload\<rparr>"

definition status_text :: "int \<Rightarrow> string \<Rightarrow> err" where
  "status_text s body = ''status '' @ int_text s @ '': '' @ truncate_body body"

definition decode_envelope :: "'a decoder \<Rightarrow> string \<Rightarrow> cp_error + 'a" where
  "decode_envelope dec body =
     (case unmarshal dec_apiResult body of
        None \<Rightarrow> Inl (Terminal (''decode envelope: '' @ json_err @ '' ('' @ truncate_body body @ '')''))
      | Some env \<Rightarrow>
          if arCode env \<noteq> [] \<and> arCode env \<noteq> successCode
          then Inl (Terminal (''business code '' @ arCode env @ '': '' @ arMsg env))
          else (case arData env of
                  None \<Rightarrow> Inl (Terminal (''empty data in response: '' @ truncate_body body))
                | Some d \<Rightarrow>
                    if d = JNull then Inl (Terminal (''empty data in response: '' @ truncate_body body))
                    else (case dec d of
                            None \<Rightarrow> Inl (Terminal (''decode data: '' @ json_err))
                          | Some x \<Rightarrow> Inr x)))"

definition postJSON :: "'a decoder \<Rightarrow> exchange \<Rightarrow> cp_error + 'a" where
  "postJSON dec ex =
     (case ex of
        NewRequestFailed e \<Rightarrow> Inl (Terminal e)
      | DoFailed e \<Rightarrow> Inl (Retryable e)
      | Answered status etag full \<Rightarrow>
          (case limit_body (2 ^ 20) full of
             Inl e \<Rightarrow> Inl (Retryable e)
           | Inr body \<Rightarrow>
               if transient_status status then Inl (Retryable (status_text status body))
               else if status \<noteq> 200 then Inl (Terminal (status_text status body))
               else decode_envelope dec body))"

subsection \<open>Key authorisation\<close>

type_synonym RejectReason = string

definition RejectKeyNotFound :: RejectReason where "RejectKeyNotFound = ''KEY_NOT_FOUND''"
definition RejectKeyDisabled :: RejectReason where "RejectKeyDisabled = ''KEY_DISABLED''"
definition RejectModelNotAllowed :: RejectReason where "RejectModelNotAllowed = ''MODEL_NOT_ALLOWED''"
definition RejectModelNoProvider :: RejectReason where "RejectModelNoProvider = ''MODEL_NO_PROVIDER''"
definition RejectRPMExceeded :: RejectReason where "RejectRPMExceeded = ''RPM_EXCEEDED''"
definition RejectTPMExceeded :: RejectReason where "RejectTPMExceeded = ''TPM_EXCEEDED''"
definition RejectQuotaExhausted :: RejectReason where "RejectQuotaExhausted = ''QUOTA_EXHAUSTED''"

lemmas reject_defs = RejectKeyNotFound_def RejectKeyDisabled_def RejectModelNotAllowed_def
  RejectModelNoProvider_def RejectRPMExceeded_def RejectTPMExceeded_def RejectQuotaExhausted_def

record KeyAuthResult =
  kaValid :: bool
  kaRejectReason :: RejectReason
  kaMessage :: string
  kaSubjectCode :: string
  kaModelCode :: string

definition dec_KeyAuthResult :: "KeyAuthResult decoder" where
  "dec_KeyAuthResult j = do {
     fs \<leftarrow> dec_obj j;
     v \<leftarrow> get_bool ''valid'' fs;
     r \<leftarrow> get_str ''rejectreason'' fs;
     m \<leftarrow> get_str ''message'' fs;
     s \<leftarrow> get_str ''subjectcode'' fs;
     mc \<leftarrow> get_str ''modelcode'' fs;
     Some \<lparr>kaValid = v, kaRejectReason = r, kaMessage = m, kaSubjectCode = s, kaModelCode = mc\<rparr> }"

definition key_auth_payload :: "string \<Rightarrow> string \<Rightarrow> string" where
  "key_auth_payload apiKey modelCode =
     json_text (jmap [(''apiKey'', JStr apiKey), (''modelCode'', JStr modelCode)])"

definition key_auth_request :: "client \<Rightarrow> string \<Rightarrow> string \<Rightarrow> http_request" where
  "key_auth_request c apiKey modelCode =
     post_request c ''/admin/gateway/key-auth'' (key_auth_payload apiKey modelCode)"

definition KeyAuth :: "client \<Rightarrow> (http_request \<Rightarrow> exchange) \<Rightarrow> string \<Rightarrow> string
    \<Rightarrow> cp_error + KeyAuthResult" where
  "KeyAuth c net apiKey modelCode =
     cp_wrap ''key-auth: '' (postJSON dec_KeyAuthResult (net (key_auth_request c apiKey modelCode)))"

subsection \<open>Usage reports\<close>

record UsageReport =
  urRequestID :: string
  urAPIKey :: string
  urModelCode :: string
  urProviderModelCode :: string
  urStartTime :: string
  urDuration :: i64
  urTTFT :: i64
  urStatusCode :: int
  urInputTokens :: i64
  urOutputTokens :: i64
  urTotalTokens :: i64
  urCacheReadTokens :: i64
  urCacheWriteTokens :: i64
  urReasoningTokens :: i64

definition enc_UsageReport :: "UsageReport \<Rightarrow> json" where
  "enc_UsageReport r = JObj
     [(''request_id'', JStr (urRequestID r)), (''api_key'', JStr (urAPIKey r)),
      (''model_code'', JStr (urModelCode r)), (''provider_model_code'', JStr (urProviderModelCode r)),
      (''start_time'', JStr (urStartTime r)), (''duration'', num64 (urDuration r)),
      (''ttft'', num64 (urTTFT r)), (''status_code'', num_int (urStatusCode r)),
      (''input_tokens'', num64 (urInputTokens r)), (''output_tokens'', num64 (urOutputTokens r)),
      (''total_tokens'', num64 (urTotalTokens r)), (''cache_read_tokens'', num64 (urCacheReadTokens r)),
      (''cache_write_tokens'', num64 (urCacheWriteTokens r)),
      (''reasoning_tokens'', num64 (urReasoningTokens r))]"

record ReportResult =
  rrAccepted :: bool
  rrDuplicate :: bool
  rrMessage :: string

definition dec_ReportResult :: "ReportResult decoder" where
  "dec_ReportResult j = do {
     fs \<leftarrow> dec_obj j;
     a \<leftarrow> get_bool ''accepted'' fs;
     d \<leftarrow> get_bool ''duplicate'' fs;
     m \<leftarrow> get_str ''message'' fs;
     Some \<lparr>rrAccepted = a, rrDuplicate = d, rrMessage = m\<rparr> }"

definition report_request :: "client \<Rightarrow> UsageReport \<Rightarrow> http_request" where
  "report_request c r =
     post_request c ''/admin/gateway/usage/report'' (json_text (enc_UsageReport r))"

definition ReportUsage :: "client \<Rightarrow> (http_request \<Rightarrow> exchange) \<Rightarrow> UsageReport
    \<Rightarrow> cp_error + ReportResult" where
  "ReportUsage c net r =
     cp_wrap ''usage-report: '' (postJSON dec_ReportResult (net (report_request c r)))"

section \<open>The route table\<close>

record ProviderRoute =
  prProviderCode :: string
  prProviderModelCode :: string
  prPriority :: int
  prWeight :: int
  prProviderProtocol :: string

record ModelRoute =
  mrModelCode :: string
  mrProviders :: "ProviderRoute list"

record Routes =
  rtVersion :: string
  rtModels :: "ModelRoute list"

definition dec_ProviderRoute :: "ProviderRoute decoder" where
  "dec_ProviderRoute j = do {
     fs \<leftarrow> dec_obj j;
     c \<leftarrow> get_str ''providercode'' fs;
     m \<leftarrow> get_str ''providermodelcode'' fs;
     p \<leftarrow> get_int ''priority'' fs;
     w \<leftarrow> get_int ''weight'' fs;
     pp \<leftarrow> get_str ''providerprotocol'' fs;
     Some \<lparr>prProviderCode = c, prProviderModelCode = m, prPriority = p, prWeight = w,
           prProviderProtocol = pp\<rparr> }"

definition dec_ModelRoute :: "ModelRoute decoder" where
  "dec_ModelRoute j = do {
     fs \<leftarrow> dec_obj j;
     c \<leftarrow> get_str ''modelcode'' fs;
     ps \<leftarrow> get_slice dec_ProviderRoute ''providers'' fs;
     Some \<lparr>mrModelCode = c, mrProviders = ps\<rparr> }"

definition dec_routes_wire :: "(string \<times> json option) decoder" where
  "dec_routes_wire j = do {
     fs \<leftarrow> dec_obj j;
     v \<leftarrow> get_str ''version'' fs;
     Some (v, get_raw ''models'' fs) }"

definition routes_request :: "client \<Rightarrow> string \<Rightarrow> http_request" where
  "routes_request c etag =
     \<lparr>hqMethod = ''GET'', hqURL = clBaseURL c @ ''/admin/gateway/model-routes'',
      hqHeaders = [(''Accept'', ''application/json''), (clTokenHeader c, clToken c)]
        @ (if etag \<noteq> [] then [(''If-None-Match'', etag)] else []),
      hqBody = []\<rparr>"

datatype fetch_error = NotModified | FetchFailed err

definition FetchRoutes :: "exchange \<Rightarrow> string \<Rightarrow> fetch_error + Routes \<times> string" where
  "FetchRoutes ex etag =
     (case ex of
        NewRequestFailed e \<Rightarrow> Inl (FetchFailed e)
      | DoFailed e \<Rightarrow> Inl (FetchFailed (''model-routes: '' @ e))
      | Answered status etagHeader full \<Rightarrow>
          if status = 304 then Inl NotModified
          else (case limit_body (64 * 2 ^ 20) full of
             Inl e \<Rightarrow> Inl (FetchFailed (''model-routes: read body: '' @ e))
           | Inr body \<Rightarrow>
               if status \<noteq> 200 then Inl (FetchFailed (''model-routes: '' @ status_text status body))
               else (case unmarshal dec_routes_wire body of
                 None \<Rightarrow> Inl (FetchFailed (''model-routes: decode: '' @ json_err))
               | Some (version, None) \<Rightarrow>
                   Inl (FetchFailed (''model-routes: body has no '' @ quoted ''models''
                     @ '' field (ApiResult-wrapped?): '' @ truncate_body body))
               | Some (version, Some models) \<Rightarrow>
                   (case (if models = JNull then Some [] else dec_arr dec_ModelRoute models) of
                      None \<Rightarrow> Inl (FetchFailed (''model-routes: decode models: '' @ json_err))
                    | Some ms \<Rightarrow>
                        Inr (\<lparr>rtVersion = version, rtModels = ms\<rparr>,
                             if etagHeader = [] then version else etagHeader)))))"

text \<open>The JSON of a route table, by the tags of the structs.\<close>

definition enc_ProviderRoute :: "ProviderRoute \<Rightarrow> json" where
  "enc_ProviderRoute p = JObj
     ([(''providerCode'', JStr (prProviderCode p)), (''providerModelCode'', JStr (prProviderModelCode p)),
       (''priority'', num_int (prPriority p)), (''weight'', num_int (prWeight p))]
      @ opt_str ''providerProtocol'' (prProviderProtocol p))"

definition enc_ModelRoute :: "ModelRoute \<Rightarrow> json" where
  "enc_ModelRoute m = JObj
     [(''modelCode'', JStr (mrModelCode m)), (''providers'', JArr (map enc_ProviderRoute (mrProviders m)))]"

definition enc_Routes :: "Routes \<Rightarrow> json" where
  "enc_Routes r = JObj
     [(''version'', JStr (rtVersion r)), (''models'', JArr (map enc_ModelRoute (rtModels r)))]"

definition ints_in_range :: "Routes \<Rightarrow> bool" where
  "ints_in_range r \<longleftrightarrow> (\<forall>m \<in> set (rtModels r). \<forall>p \<in> set (mrProviders m).
     in_i64 (prPriority p) \<and> in_i64 (prWeight p))"

section \<open>Properties\<close>

lemma cp_wrap_Inr_iff [simp]: "cp_wrap p m = Inr x \<longleftrightarrow> m = Inr x"
  by (auto simp: cp_wrap_def split: sum.splits cp_error.splits)

lemma cp_wrap_retryable [simp]:
  "(\<exists>e. cp_wrap p m = Inl e \<and> IsRetryable e) \<longleftrightarrow> (\<exists>e. m = Inl e \<and> IsRetryable e)"
  by (auto simp: cp_wrap_def split: sum.splits cp_error.splits)

lemma decode_envelope_not_retryable: "decode_envelope d b \<noteq> Inl (Retryable e)"
  by (auto simp: decode_envelope_def split: option.splits)

fun transient_exchange :: "exchange \<Rightarrow> bool" where
  "transient_exchange (NewRequestFailed e) = False"
| "transient_exchange (DoFailed e) = True"
| "transient_exchange (Answered s t b) = (isl b \<or> s \<ge> 500 \<or> s = 429 \<or> s = 408)"

lemma postJSON_retryable:
  "(\<exists>e. postJSON d ex = Inl e \<and> IsRetryable e) \<longleftrightarrow> transient_exchange ex"
proof (cases ex)
  case (Answered s t b)
  then show ?thesis
    by (cases b) (auto simp: postJSON_def transient_status_def limit_body_def
        elim!: IsRetryable.elims dest: decode_envelope_not_retryable
          [THEN notE])
qed (auto simp: postJSON_def)

lemma decode_envelope_ok:
  "decode_envelope dec b = Inr x \<longleftrightarrow>
   (\<exists>env d. unmarshal dec_apiResult b = Some env \<and> (arCode env = [] \<or> arCode env = successCode)
     \<and> arData env = Some d \<and> d \<noteq> JNull \<and> dec d = Some x)"
  by (auto simp: decode_envelope_def split: option.splits)

lemma postJSON_ok:
  "postJSON dec ex = Inr x \<longleftrightarrow>
   (\<exists>t b. ex = Answered 200 t (Inr b) \<and> decode_envelope dec (take (2 ^ 20) b) = Inr x)"
  by (auto simp: postJSON_def limit_body_def transient_status_def split: exchange.splits sum.splits)

text \<open>The classification a caller's retry rests on: for key authorisation and usage
  reports alike, the error is retryable exactly when there was no response, the body could not be read, or
  the status is 408, 429 or at least 500; and a result is only ever returned for a 200 whose
  envelope has an accepted code and data that is present and not null.\<close>

theorem control_plane_classification:
  "((\<exists>e. ReportUsage c net r = Inl e \<and> IsRetryable e) \<longleftrightarrow> transient_exchange (net (report_request c r)))
   \<and> ((\<exists>e. KeyAuth c net k m = Inl e \<and> IsRetryable e) \<longleftrightarrow> transient_exchange (net (key_auth_request c k m)))
   \<and> (KeyAuth c net k m = Inr a \<longleftrightarrow>
       (\<exists>t b env d. net (key_auth_request c k m) = Answered 200 t (Inr b)
         \<and> unmarshal dec_apiResult (take (2 ^ 20) b) = Some env
         \<and> (arCode env = [] \<or> arCode env = successCode)
         \<and> arData env = Some d \<and> d \<noteq> JNull \<and> dec_KeyAuthResult d = Some a))"
  unfolding ReportUsage_def KeyAuth_def cp_wrap_retryable postJSON_retryable cp_wrap_Inr_iff
    postJSON_ok decode_envelope_ok by blast

subsection \<open>The route table through the wire\<close>

lemma json_ok_routes: "json_ok (enc_Routes r)"
  by (auto simp: enc_Routes_def enc_ModelRoute_def enc_ProviderRoute_def opt_str_def)

lemma dec_enc_ProviderRoute:
  "in_i64 (prPriority p) \<Longrightarrow> in_i64 (prWeight p) \<Longrightarrow> dec_ProviderRoute (enc_ProviderRoute p) = Some p"
  by (simp add: enc_ProviderRoute_def dec_ProviderRoute_def json_dec opt_str_def)

lemma dec_enc_ModelRoute:
  "\<forall>p \<in> set (mrProviders m). in_i64 (prPriority p) \<and> in_i64 (prWeight p) \<Longrightarrow>
   dec_ModelRoute (enc_ModelRoute m) = Some m"
  by (simp add: enc_ModelRoute_def dec_ModelRoute_def json_dec dec_enc_ProviderRoute)


lemma dec_enc_Routes_wire:
  "dec_routes_wire (enc_Routes r) = Some (rtVersion r, Some (JArr (map enc_ModelRoute (rtModels r))))"
  by (simp add: enc_Routes_def dec_routes_wire_def json_dec)

lemma FetchRoutes_status: "FetchRoutes (Answered s tag b) old = Inr x \<Longrightarrow> s = 200"
  by (rule ccontr) (simp add: FetchRoutes_def split: if_splits sum.splits)

text \<open>A route table, marshalled by the tags of its structs and answered with status 200, is
  fetched as it is, with the ETag of the response or else its version; a 304 is reported as
  not modified, whatever the body; and any other status is an error, never a table.\<close>

theorem FetchRoutes_outcome:
  assumes "ints_in_range r" and "length (json_text (enc_Routes r)) \<le> 64 * 2 ^ 20"
  shows "FetchRoutes (Answered 200 tag (Inr (json_text (enc_Routes r)))) old
      = Inr (r, if tag = [] then rtVersion r else tag)
    \<and> FetchRoutes (Answered 304 tag b) old = Inl NotModified
    \<and> (s = 200 \<or> isl (FetchRoutes (Answered s tag b) old))"
proof (intro conjI)
  have "dec_arr dec_ModelRoute (JArr (map enc_ModelRoute (rtModels r))) = Some (rtModels r)"
    using assms(1) by (simp add: ints_in_range_def dec_enc_ModelRoute)
  then show "FetchRoutes (Answered 200 tag (Inr (json_text (enc_Routes r)))) old
      = Inr (r, if tag = [] then rtVersion r else tag)"
    using assms(2)
    by (simp add: FetchRoutes_def limit_body_def json_ok_routes dec_enc_Routes_wire del: dec_arr.simps)
  show "FetchRoutes (Answered 304 tag b) old = Inl NotModified"
    by (simp add: FetchRoutes_def)
  show "s = 200 \<or> isl (FetchRoutes (Answered s tag b) old)"
    using FetchRoutes_status [of s tag b old] by (cases "FetchRoutes (Answered s tag b) old") auto
qed

definition sample_routes :: Routes where
  "sample_routes = \<lparr>rtVersion = ''v1'', rtModels =
     [\<lparr>mrModelCode = ''m'', mrProviders =
        [\<lparr>prProviderCode = ''p'', prProviderModelCode = ''pm'', prPriority = 1, prWeight = 2,
           prProviderProtocol = []\<rparr>]\<rparr>]\<rparr>"

lemma FetchRoutes_outcome_witness:
  "FetchRoutes (Answered 200 [] (Inr (json_text (enc_Routes sample_routes)))) [] = Inr (sample_routes, ''v1'')"
proof -
  have "ints_in_range sample_routes" by (simp add: sample_routes_def ints_in_range_def in_i64_def)
  moreover have "length (json_text (enc_Routes sample_routes)) < 300"
    by code_simp
  then have "length (json_text (enc_Routes sample_routes)) \<le> 64 * 2 ^ 20"
    by (rule order.strict_implies_order [OF order.strict_trans2]) simp
  ultimately show ?thesis
    using FetchRoutes_outcome [of sample_routes "[]" "[]" _ 404] by (simp add: sample_routes_def)
qed

end
