(* ===== verification/Metering.thy ===== *)
theory Metering
  imports ControlPlane "HOL-Library.Multiset"
begin

text \<open>
  The package \<^verbatim>\<open>internal/metering\<close>: the bounded queue of usage reports, its workers, and the
  delivery of one report with retries. Goroutines interleave, so the queue is a step relation:
  one constructor per case of a select. The histories (\<open>mqAccepted\<close>: Enqueue returned true,
  \<open>mqTaken\<close>: received by a worker, \<open>mqDelivered\<close>: deliver returned) are not in the code; no step
  reads them. Durations are in milliseconds.
\<close>

section \<open>Delivery\<close>

datatype outcome = Delivered_ok | Delivered_duplicate | Delivered_rejected | Delivered_dropped

definition next_backoff :: "nat \<Rightarrow> nat" where
  "next_backoff b = (if b < 5000 then b * 2 else b)"

function deliver_loop ::
  "(nat \<Rightarrow> cp_error + ReportResult) \<Rightarrow> int \<Rightarrow> nat \<Rightarrow> nat \<Rightarrow> outcome \<times> nat list" where
  "deliver_loop report maxRetries attempt backoff =
     (case report attempt of
        Inr res \<Rightarrow>
          (if rrDuplicate res then Delivered_duplicate
           else if rrAccepted res then Delivered_ok
           else Delivered_rejected, [])
      | Inl e \<Rightarrow>
          if \<not> IsRetryable e \<or> int attempt \<ge> maxRetries then (Delivered_dropped, [])
          else (case deliver_loop report maxRetries (Suc attempt) (next_backoff backoff) of
                  (out, sleeps) \<Rightarrow> (out, backoff # sleeps)))"
  by auto
termination
  by (relation "measure (\<lambda>(_, m, a, _). nat (m - int a))") auto

declare deliver_loop.simps [simp del]

text \<open>\<open>net k\<close> answers the request of attempt \<open>k\<close>; the result is the metric that is counted
  and the pauses between the attempts.\<close>

definition deliver :: "client \<Rightarrow> (nat \<Rightarrow> http_request \<Rightarrow> exchange) \<Rightarrow> int \<Rightarrow> UsageReport
    \<Rightarrow> outcome \<times> nat list" where
  "deliver c net maxRetries r =
     deliver_loop (\<lambda>k. ReportUsage c (net k) r) maxRetries 0 200"

section \<open>The queue\<close>

datatype worker =
    Waiting
  | Delivering UsageReport
  | Draining
  | DrainDelivering UsageReport
  | Exited

fun in_flight :: "worker \<Rightarrow> UsageReport multiset" where
  "in_flight (Delivering r) = {#r#}"
| "in_flight (DrainDelivering r) = {#r#}"
| "in_flight _ = {#}"

record mqueue =
  mqCh :: "UsageReport list"
  mqSize :: nat
  mqDone :: bool
  mqWorkers :: "worker list"
  mqEntered :: "UsageReport multiset"
  mqDropped :: nat
  mqAccepted :: "UsageReport list"
  mqTaken :: "UsageReport list"
  mqDelivered :: "UsageReport multiset"

text \<open>\<open>New\<close> and \<open>Start\<close>.\<close>

definition new_queue :: "nat \<Rightarrow> nat \<Rightarrow> mqueue" where
  "new_queue cap workers = \<lparr>mqCh = [], mqSize = cap, mqDone = False,
     mqWorkers = replicate workers Waiting, mqEntered = {#}, mqDropped = 0,
     mqAccepted = [], mqTaken = [], mqDelivered = {#}\<rparr>"

text \<open>
  Enqueue is two selects. The first leaves when done is closed; in between the report is in
  \<open>mqEntered\<close>. In the second a send is ready when the buffer has room and the receive when done
  is closed; either may be chosen when both are, and the default only when none is.
\<close>

inductive step :: "mqueue \<Rightarrow> mqueue \<Rightarrow> bool" where
  enqueue_enter:
    "\<not> mqDone q \<Longrightarrow> step q (q\<lparr>mqEntered := add_mset r (mqEntered q)\<rparr>)"
| enqueue_send:
    "r \<in># mqEntered q \<Longrightarrow> length (mqCh q) < mqSize q \<Longrightarrow>
     step q (q\<lparr>mqEntered := mqEntered q - {#r#}, mqCh := mqCh q @ [r], mqAccepted := mqAccepted q @ [r]\<rparr>)"
| enqueue_done:
    "r \<in># mqEntered q \<Longrightarrow> mqDone q \<Longrightarrow> step q (q\<lparr>mqEntered := mqEntered q - {#r#}\<rparr>)"
| enqueue_full:
    "r \<in># mqEntered q \<Longrightarrow> \<not> length (mqCh q) < mqSize q \<Longrightarrow> \<not> mqDone q \<Longrightarrow>
     step q (q\<lparr>mqEntered := mqEntered q - {#r#}, mqDropped := Suc (mqDropped q)\<rparr>)"
| shutdown:
    "\<not> mqDone q \<Longrightarrow> step q (q\<lparr>mqDone := True\<rparr>)"
| worker_receive:
    "i < length (mqWorkers q) \<Longrightarrow> mqWorkers q ! i = Waiting \<Longrightarrow> mqCh q = r # rs \<Longrightarrow>
     step q (q\<lparr>mqCh := rs, mqTaken := mqTaken q @ [r], mqWorkers := (mqWorkers q)[i := Delivering r]\<rparr>)"
| worker_delivered:
    "i < length (mqWorkers q) \<Longrightarrow> mqWorkers q ! i = Delivering r \<Longrightarrow>
     step q (q\<lparr>mqWorkers := (mqWorkers q)[i := Waiting], mqDelivered := add_mset r (mqDelivered q)\<rparr>)"
| worker_done:
    "i < length (mqWorkers q) \<Longrightarrow> mqWorkers q ! i = Waiting \<Longrightarrow> mqDone q \<Longrightarrow>
     step q (q\<lparr>mqWorkers := (mqWorkers q)[i := Draining]\<rparr>)"
| drain_receive:
    "i < length (mqWorkers q) \<Longrightarrow> mqWorkers q ! i = Draining \<Longrightarrow> mqCh q = r # rs \<Longrightarrow>
     step q (q\<lparr>mqCh := rs, mqTaken := mqTaken q @ [r], mqWorkers := (mqWorkers q)[i := DrainDelivering r]\<rparr>)"
| drain_delivered:
    "i < length (mqWorkers q) \<Longrightarrow> mqWorkers q ! i = DrainDelivering r \<Longrightarrow>
     step q (q\<lparr>mqWorkers := (mqWorkers q)[i := Draining], mqDelivered := add_mset r (mqDelivered q)\<rparr>)"
| worker_exit:
    "i < length (mqWorkers q) \<Longrightarrow> mqWorkers q ! i = Draining \<Longrightarrow> mqCh q = [] \<Longrightarrow>
     step q (q\<lparr>mqWorkers := (mqWorkers q)[i := Exited]\<rparr>)"

inductive_cases stepE: "step q q'"

definition reachable :: "nat \<Rightarrow> nat \<Rightarrow> mqueue \<Rightarrow> bool" where
  "reachable cap workers q \<longleftrightarrow> step\<^sup>*\<^sup>* (new_queue cap workers) q"

lemma reachable_induct [consumes 1, case_names init step]:
  assumes "reachable cap workers q" and "P (new_queue cap workers)"
    and "\<And>q q'. reachable cap workers q \<Longrightarrow> P q \<Longrightarrow> step q q' \<Longrightarrow> P q'"
  shows "P q"
  using assms(1) unfolding reachable_def
  by (induction rule: rtranclp_induct) (use assms(2,3) in \<open>auto simp: reachable_def\<close>)

section \<open>Delivery: how often and how long\<close>

lemma backoff_power: "(next_backoff ^^ k) 200 = 200 * 2 ^ min k 5"
proof (induction k)
  case (Suc k)
  show ?case
  proof (cases "k < 5")
    case True
    then have "k \<in> {0, 1, 2, 3, 4}" by auto
    with Suc show ?thesis by (auto simp: next_backoff_def)
  qed (use Suc in \<open>simp add: next_backoff_def min_def\<close>)
qed simp

definition counted :: "cp_error + ReportResult \<Rightarrow> outcome" where
  "counted x = (case x of
     Inl e \<Rightarrow> Delivered_dropped
   | Inr res \<Rightarrow> if rrDuplicate res then Delivered_duplicate
       else if rrAccepted res then Delivered_ok else Delivered_rejected)"

definition retryable :: "cp_error + 'a \<Rightarrow> bool" where
  "retryable x = (case x of Inl e \<Rightarrow> IsRetryable e | Inr _ \<Rightarrow> False)"

lemma deliver_loop_spec:
  assumes "deliver_loop report m a b = (out, sleeps)"
  shows "(\<forall>k < length sleeps. retryable (report (a + k)) \<and> sleeps ! k = (next_backoff ^^ k) b)
    \<and> out = counted (report (a + length sleeps))
    \<and> (sleeps = [] \<or> int (a + length sleeps) \<le> m)
    \<and> (retryable (report (a + length sleeps)) \<longrightarrow> m \<le> int (a + length sleeps))"
  using assms
proof (induction report m a b arbitrary: out sleeps rule: deliver_loop.induct)
  case (1 report m a b)
  show ?case
  proof (cases "report a")
    case (Inr res)
    with 1(2) show ?thesis by (subst (asm) deliver_loop.simps) (auto simp: counted_def retryable_def)
  next
    case (Inl e)
    show ?thesis
    proof (cases "\<not> IsRetryable e \<or> int a \<ge> m")
      case True
      with 1(2) Inl show ?thesis
        by (subst (asm) deliver_loop.simps) (auto simp: counted_def retryable_def)
    next
      case False
      obtain o2 s2 where rest: "deliver_loop report m (Suc a) (next_backoff b) = (o2, s2)"
        by fastforce
      have "deliver_loop report m a b = (o2, b # s2)"
        using Inl False rest by (subst deliver_loop.simps) simp
      then have res: "out = o2" "sleeps = b # s2" using 1(2) by simp_all
      have r: "retryable (report a)" "int (Suc a) \<le> m"
        using Inl False by (auto simp: retryable_def)
      from 1(1) [OF Inl False rest] r show ?thesis
        unfolding res by (auto simp: nth_Cons funpow_swap1 split: nat.split)
    qed
  qed
qed

text \<open>C23: the delivery of a report makes at least one attempt and at most one more than
  \<open>maxRetries\<close>; every attempt but the last failed with a retryable error, the last one decides
  what is counted, and it is given up only when the error is final or the retries are used
  up; the pauses double from 200 ms and never pass 6.4 s.\<close>

theorem deliver_attempts:
  assumes "deliver c net maxRetries r = (out, sleeps)"
  shows "(\<forall>k < length sleeps. retryable (ReportUsage c (net k) r) \<and> sleeps ! k = 200 * 2 ^ min k 5)
    \<and> (sleeps = [] \<or> int (length sleeps) \<le> maxRetries)
    \<and> out = counted (ReportUsage c (net (length sleeps)) r)
    \<and> (retryable (ReportUsage c (net (length sleeps)) r) \<longrightarrow> maxRetries \<le> int (length sleeps))
    \<and> (\<forall>s \<in> set sleeps. s \<le> 6400)"
proof -
  note * = deliver_loop_spec [OF assms [unfolded deliver_def], unfolded backoff_power add_0]
  have "200 * 2 ^ min k 5 \<le> (6400 :: nat)" for k
  proof -
    have "(2 :: nat) ^ min k 5 \<le> 2 ^ 5" by (intro power_increasing) simp_all
    then show ?thesis by simp
  qed
  with * have "\<forall>s \<in> set sleeps. s \<le> 6400" by (metis in_set_conv_nth)
  with * show ?thesis by blast
qed

definition sample_report :: UsageReport where
  "sample_report = \<lparr>urRequestID = ''r'', urAPIKey = ''k'', urModelCode = ''m'', urProviderModelCode = ''pm'',
     urStartTime = [], urDuration = 5, urTTFT = 1, urStatusCode = 200, urInputTokens = 3,
     urOutputTokens = 4, urTotalTokens = 7, urCacheReadTokens = 0, urCacheWriteTokens = 0,
     urReasoningTokens = 0\<rparr>"

lemma deliver_attempts_witness:
  "deliver (New [] [] []) (\<lambda>k q. Answered 503 [] (Inr [])) 2 sample_report = (Delivered_dropped, [200, 400])
   \<and> retryable (ReportUsage (New [] [] []) (\<lambda>q. Answered 503 [] (Inr [])) sample_report)"
proof -
  have r: "ReportUsage (New [] [] []) (\<lambda>q. Answered 503 [] (Inr [])) sample_report
      = Inl (Retryable (''usage-report: '' @ status_text 503 []))"
    by (simp add: ReportUsage_def postJSON_def limit_body_def transient_status_def cp_wrap_def)
  then have d: "deliver (New [] [] []) (\<lambda>k q. Answered 503 [] (Inr [])) 2 sample_report
      = (Delivered_dropped, [200, 400])"
    by (simp add: deliver_def deliver_loop.simps next_backoff_def)
  from deliver_attempts [OF d] d show ?thesis by auto
qed

section \<open>The queue: nothing is lost or delivered twice\<close>

definition held :: "worker list \<Rightarrow> UsageReport multiset" where
  "held ws = sum_list (map in_flight ws)"

lemma held_Cons [simp]: "held (w # ws) = in_flight w + held ws" "held [] = {#}"
  by (simp_all add: held_def)

lemma held_update:
  "i < length ws \<Longrightarrow> held (ws[i := w]) + in_flight (ws ! i) = held ws + in_flight w"
  by (induction ws arbitrary: i) (auto simp: ac_simps split: nat.split)

lemma held_put: "i < length ws \<Longrightarrow> in_flight (ws ! i) = {#} \<Longrightarrow> held (ws[i := w]) = held ws + in_flight w"
  using held_update [of i ws w] by simp

lemma held_take:
  "i < length ws \<Longrightarrow> in_flight (ws ! i) = {#r#} \<Longrightarrow> in_flight w = {#} \<Longrightarrow>
   add_mset r (held (ws[i := w])) = held ws"
  using held_update [of i ws w] by simp

definition q_inv :: "nat \<Rightarrow> mqueue \<Rightarrow> bool" where
  "q_inv cap q \<longleftrightarrow> mqSize q = cap \<and> length (mqCh q) \<le> cap \<and> mqAccepted q = mqTaken q @ mqCh q
     \<and> mset (mqTaken q) = mqDelivered q + held (mqWorkers q)"

lemma q_inv_step: "step q q' \<Longrightarrow> q_inv cap q \<Longrightarrow> q_inv cap q'"
  by (erule stepE) (auto simp: q_inv_def held_put held_take [symmetric] held_take)

lemma q_inv_reachable: "reachable cap workers q \<Longrightarrow> q_inv cap q"
proof (induction rule: reachable_induct)
  case init
  have "held (replicate n Waiting) = {#}" for n by (induction n) simp_all
  then show ?case by (simp add: q_inv_def new_queue_def)
qed (rule q_inv_step)

text \<open>C16: in every state any interleaving of callers, workers and shutdown can reach, the buffer
  is within its capacity, and the reports Enqueue accepted are, in the order they were accepted, those the
  workers took followed by those still buffered; those taken are delivered or with exactly one
  worker. So no accepted report is lost, duplicated or overtaken while it is queued.\<close>

theorem queue_conserves_reports:
  assumes "reachable cap workers q"
  shows "length (mqCh q) \<le> cap \<and> mqAccepted q = mqTaken q @ mqCh q
    \<and> mset (mqAccepted q) = mqDelivered q + held (mqWorkers q) + mset (mqCh q)"
  using q_inv_reachable [OF assms] by (simp add: q_inv_def)

lemma queue_conserves_reports_witness:
  "\<exists>q. reachable 1 1 q \<and> mqCh q = [sample_report] \<and> length (mqCh q) \<le> 1
     \<and> mset (mqAccepted q) = {#sample_report#}"
proof -
  let ?q0 = "new_queue 1 1"
  let ?q1 = "?q0\<lparr>mqEntered := {#sample_report#}\<rparr>"
  let ?q2 = "?q1\<lparr>mqEntered := {#}, mqCh := [sample_report], mqAccepted := [sample_report]\<rparr>"
  have "step ?q0 ?q1" using enqueue_enter [of ?q0 sample_report] by (simp add: new_queue_def)
  moreover have "step ?q1 ?q2"
    using enqueue_send [of sample_report ?q1] by (simp add: new_queue_def)
  ultimately have r: "reachable 1 1 ?q2" by (simp add: reachable_def)
  from queue_conserves_reports [OF r] r show ?thesis
    by (intro exI [of _ ?q2]) (simp add: new_queue_def)
qed

section \<open>Shutdown\<close>

text \<open>A bound on the steps that are left once done is closed.\<close>

fun rank :: "worker \<Rightarrow> nat" where
  "rank (Delivering r) = 3"
| "rank Waiting = 2"
| "rank (DrainDelivering r) = 2"
| "rank Draining = 1"
| "rank Exited = 0"

definition steps_left :: "mqueue \<Rightarrow> nat" where
  "steps_left q = sum_list (map rank (mqWorkers q)) + 3 * length (mqCh q) + 4 * size (mqEntered q)"

lemma rank_update:
  "i < length ws \<Longrightarrow> sum_list (map rank (ws[i := w])) + rank (ws ! i) = sum_list (map rank ws) + rank w"
  by (induction ws arbitrary: i) (auto split: nat.split)

lemma rank_less:
  "i < length ws \<Longrightarrow> rank w < rank (ws ! i) + n \<Longrightarrow>
   sum_list (map rank (ws[i := w])) < sum_list (map rank ws) + n"
  using rank_update [of i ws w] by linarith

lemma step_decreases: "step q q' \<Longrightarrow> mqDone q \<Longrightarrow> mqDone q' \<and> steps_left q' < steps_left q"
  by (erule stepE)
    (auto simp: steps_left_def size_Diff_singleton size_eq_Suc_imp_eq_union
      intro: rank_less [where n = 0, simplified] rank_less [where n = 3, simplified]
      dest: multi_member_split)

lemma stuck_exited:
  assumes "mqDone q" and "\<And>q'. \<not> step q q'"
  shows "set (mqWorkers q) \<subseteq> {Exited} \<and> mqEntered q = {#}"
proof
  have "mqWorkers q ! i = Exited" if i: "i < length (mqWorkers q)" for i
  proof (cases "mqWorkers q ! i")
    case Draining
    with i assms(2) step.drain_receive [of i q] step.worker_exit [of i q] show ?thesis
      by (cases "mqCh q") blast+
  qed (use i assms step.worker_delivered [of i q] step.drain_delivered [of i q]
        step.worker_done [of i q] in blast)+
  then show "set (mqWorkers q) \<subseteq> {Exited}" by (auto simp: in_set_conv_nth)
  show "mqEntered q = {#}"
    using assms step.enqueue_done by (metis multiset_nonemptyE)
qed

text \<open>C17: shutdown ends: once done is closed, whatever calls are still inside Enqueue and in
  whatever order everything happens, at most \<open>steps_left\<close> steps remain, and the only states
  without a step have every worker returned and no call inside Enqueue. In particular the
  \<open>WaitGroup\<close> that Shutdown waits for is released as soon as the deliveries return.\<close>

theorem shutdown_terminates:
  assumes "mqDone q" and "(step ^^ n) q q'"
  shows "n + steps_left q' \<le> steps_left q
    \<and> ((\<exists>q''. step q' q'') \<or> (set (mqWorkers q') \<subseteq> {Exited} \<and> mqEntered q' = {#}))"
proof -
  have "mqDone q' \<and> n + steps_left q' \<le> steps_left q"
    using assms(2)
  proof (induction n arbitrary: q')
    case (Suc n)
    then obtain p where "(step ^^ n) q p" "step p q'" by auto
    with Suc.IH [of p] step_decreases [of p q'] show ?case by auto
  qed (use assms(1) in simp)
  with stuck_exited [of q'] show ?thesis by blast
qed

definition closed_queue :: mqueue where
  "closed_queue = (new_queue 2 1)\<lparr>mqDone := True\<rparr>"

lemma shutdown_terminates_witness:
  "mqDone closed_queue \<and> (step ^^ 1) closed_queue (closed_queue\<lparr>mqWorkers := [Draining]\<rparr>)
   \<and> 1 + steps_left (closed_queue\<lparr>mqWorkers := [Draining]\<rparr>) \<le> steps_left closed_queue"
proof -
  have d: "mqDone closed_queue" by (simp add: closed_queue_def)
  have s: "(step ^^ 1) closed_queue (closed_queue\<lparr>mqWorkers := [Draining]\<rparr>)"
    using worker_done [of 0 closed_queue] by (simp add: closed_queue_def new_queue_def eval_nat_numeral eq_OO)
  from shutdown_terminates [OF d s] d s show ?thesis by blast
qed

definition drained :: "mqueue \<Rightarrow> bool" where
  "drained q \<longleftrightarrow> mqDone q \<and> mqEntered q = {#} \<and> mqWorkers q \<noteq> []
     \<and> (Exited \<in> set (mqWorkers q) \<longrightarrow> mqCh q = [])"

lemma drained_step: "step q q' \<Longrightarrow> drained q \<Longrightarrow> drained q'"
  by (erule stepE) (auto simp: drained_def dest!: set_update_subset_insert [THEN subsetD])

lemma drained_steps: "step\<^sup>*\<^sup>* q q' \<Longrightarrow> drained q \<Longrightarrow> drained q'"
  by (induction rule: rtranclp_induct) (auto dest: drained_step)

lemma held_exited: "set ws \<subseteq> {Exited} \<Longrightarrow> held ws = {#}"
  by (induction ws) auto

lemma running_workers:
  "reachable cap workers q \<Longrightarrow>
   length (mqWorkers q) = workers \<and> (mqDone q \<or> Exited \<notin> set (mqWorkers q) \<and> Draining \<notin> set (mqWorkers q)
     \<and> (\<forall>r. DrainDelivering r \<notin> set (mqWorkers q)))"
proof (induction rule: reachable_induct)
  case (step q q')
  from step(3,2) show ?case
    by (elim stepE) (auto dest!: set_update_subset_insert [THEN subsetD] dest: nth_mem)
qed (auto simp: new_queue_def)

text \<open>A clean shutdown delivers: if no call is inside Enqueue when done is closed and there
  is a worker, then when all workers have returned every report that was ever accepted has
  been delivered exactly once.\<close>

theorem clean_shutdown_delivers_all:
  assumes "reachable cap workers q" and "0 < workers" and "mqEntered q = {#}" and "\<not> mqDone q"
    and "step\<^sup>*\<^sup>* (q\<lparr>mqDone := True\<rparr>) q'" and "set (mqWorkers q') \<subseteq> {Exited}"
  shows "mqCh q' = [] \<and> mset (mqAccepted q') = mqDelivered q'"
proof -
  have "reachable cap workers q'"
    using assms(1,5) shutdown [OF assms(4)] unfolding reachable_def
    by (meson rtranclp.rtrancl_into_rtrancl rtranclp_trans)
  then have inv: "q_inv cap q'" by (rule q_inv_reachable)
  have "drained (q\<lparr>mqDone := True\<rparr>)"
    using assms running_workers [OF assms(1)] by (auto simp: drained_def)
  with assms(5) have "drained q'" by (rule drained_steps)
  with assms(6) have "mqCh q' = []"
    by (cases "mqWorkers q'") (auto simp: drained_def)
  with inv show ?thesis by (simp add: q_inv_def held_exited [OF assms(6)])
qed

lemma clean_shutdown_delivers_all_witness:
  "\<exists>q'. step\<^sup>*\<^sup>* ((new_queue 1 1)\<lparr>mqDone := True\<rparr>) q' \<and> set (mqWorkers q') \<subseteq> {Exited}
     \<and> mqCh q' = []"
proof -
  let ?q0 = "(new_queue 1 1)\<lparr>mqDone := True\<rparr>"
  let ?q1 = "?q0\<lparr>mqWorkers := [Draining]\<rparr>"
  let ?q2 = "?q1\<lparr>mqWorkers := [Exited]\<rparr>"
  have "step ?q0 ?q1" using worker_done [of 0 ?q0] by (simp add: new_queue_def)
  moreover have "step ?q1 ?q2" using worker_exit [of 0 ?q1] by (simp add: new_queue_def)
  ultimately have s: "step\<^sup>*\<^sup>* ?q0 ?q2" by simp
  have e: "set (mqWorkers ?q2) \<subseteq> {Exited}" by simp
  have r: "reachable 1 1 (new_queue 1 1)" by (simp add: reachable_def)
  have "mqCh ?q2 = [] \<and> mset (mqAccepted ?q2) = mqDelivered ?q2"
    by (rule clean_shutdown_delivers_all [OF r _ _ _ s e]) (simp_all add: new_queue_def)
  with s e show ?thesis by blast
qed

section \<open>A report accepted after the workers are gone\<close>

text \<open>Without the premise of \<open>clean_shutdown_delivers_all\<close> a report can be stranded: a call that passed the first
  select before shutdown may still choose the send after the only worker has drained the buffer and
  returned. Enqueue then answers true, nothing is counted as dropped, and in no continuation is the
  report ever delivered.\<close>

theorem late_enqueue_strands_report:
  "\<exists>q. reachable (Suc n) 1 q \<and> mqAccepted q = [r] \<and> mqDropped q = 0
     \<and> {q'. step\<^sup>*\<^sup>* q q'} \<subseteq> {q'. mqDelivered q' = {#} \<and> mqCh q' \<noteq> []}"
proof -
  let ?q0 = "new_queue (Suc n) 1"
  let ?q1 = "?q0\<lparr>mqEntered := {#r#}\<rparr>"
  let ?q2 = "?q1\<lparr>mqDone := True\<rparr>"
  let ?q3 = "?q2\<lparr>mqWorkers := [Draining]\<rparr>"
  let ?q4 = "?q3\<lparr>mqWorkers := [Exited]\<rparr>"
  let ?q5 = "?q4\<lparr>mqEntered := {#}, mqCh := [r], mqAccepted := [r]\<rparr>"
  have "step ?q0 ?q1" using enqueue_enter [of ?q0 r] by (simp add: new_queue_def)
  moreover have "step ?q1 ?q2" using shutdown [of ?q1] by (simp add: new_queue_def)
  moreover have "step ?q2 ?q3" using worker_done [of 0 ?q2] by (simp add: new_queue_def)
  moreover have "step ?q3 ?q4" using worker_exit [of 0 ?q3] by (simp add: new_queue_def)
  moreover have "step ?q4 ?q5" using enqueue_send [of r ?q4] by (simp add: new_queue_def)
  ultimately have "step\<^sup>*\<^sup>* ?q0 ?q5" by (meson converse_rtranclp_into_rtranclp r_into_rtranclp)
  then have reach: "reachable (Suc n) 1 ?q5" by (simp add: reachable_def)
  have stays: "mqWorkers q' = [Exited] \<and> mqDelivered q' = {#} \<and> mqCh q' \<noteq> []" if "step\<^sup>*\<^sup>* ?q5 q'" for q'
    using that
  proof (induction rule: rtranclp_induct)
    case base
    show ?case by (simp add: new_queue_def)
  next
    case (step p p')
    from step(2,3) show ?case by (elim stepE) auto
  qed
  then have "{q'. step\<^sup>*\<^sup>* ?q5 q'} \<subseteq> {q'. mqDelivered q' = {#} \<and> mqCh q' \<noteq> []}" by blast
  with reach show ?thesis by (intro exI [of _ ?q5]) (simp add: new_queue_def)
qed

end
