(* ===== verification/Config.thy ===== *)
theory Config
  imports Prelude
begin

text \<open>
  The package \<^verbatim>\<open>internal/config\<close>: defaults and validation. Reading the file, expanding the environment
  and parsing YAML happen before, outside the repository; url.Parse is the argument \<open>parse\<close>. The map of
  the providers is the list of its entries in the order the loop meets them; a duration is its
  number of nanoseconds.
\<close>

section \<open>The configuration\<close>

definition EndpointOpenAIChat :: string where "EndpointOpenAIChat = ''openai_chat''"
definition EndpointOpenAIResponses :: string where "EndpointOpenAIResponses = ''openai_responses''"
definition EndpointAnthropic :: string where "EndpointAnthropic = ''anthropic''"
definition EndpointBedrockInvoke :: string where "EndpointBedrockInvoke = ''bedrock_invoke''"

definition AuthBearer :: string where "AuthBearer = ''bearer''"
definition AuthXAPIKey :: string where "AuthXAPIKey = ''x-api-key''"
definition AuthAWSIAM :: string where "AuthAWSIAM = ''aws_iam''"
definition AuthNone :: string where "AuthNone = ''none''"

lemmas endpoint_defs = EndpointOpenAIChat_def EndpointOpenAIResponses_def EndpointAnthropic_def
  EndpointBedrockInvoke_def

lemmas auth_defs = AuthBearer_def AuthXAPIKey_def AuthAWSIAM_def AuthNone_def

record Server =
  svListen :: string
  svReadTimeout :: int
  svShutdownTimeout :: int
  svRequestTimeout :: int
  svUpstreamConnectTimeout :: int
  svUpstreamResponseHeaderTimeout :: int
  svMaxRequestBodyBytes :: int
  svMaxFailoverAttempts :: int
  svLogLevel :: string
  svDefaultMaxTokens :: i64

record ControlPlaneConfig =
  cpBaseURL :: string
  cpToken :: string
  cpTokenHeader :: string
  cpAllowInsecure :: bool
  cpKeyAuthTimeout :: int
  cpReportTimeout :: int
  cpRoutesPollInterval :: int

record MeteringConfig =
  mtQueueSize :: int
  mtWorkers :: int
  mtMaxRetries :: int

record SecretsConfig =
  scRegion :: string
  scEndpoint :: string
  scTimeout :: int

record ProviderConfig =
  pcAuth :: string
  pcAPIKey :: string
  pcRegion :: string
  pcRoleARN :: string
  pcExternalID :: string
  pcSTSRegion :: string
  pcEndpoints :: "(string \<times> string) list"

record Config =
  cfServer :: Server
  cfControlPlane :: ControlPlaneConfig
  cfMetering :: MeteringConfig
  cfSecrets :: SecretsConfig
  cfProviders :: "(string \<times> ProviderConfig) list"

record url =
  uScheme :: string
  uHost :: string
  uPath :: string

type_synonym url_parser = "string \<Rightarrow> url option"

section \<open>Defaults\<close>

definition second :: int where "second = 1000000000"

definition or_int :: "int \<Rightarrow> int \<Rightarrow> int" where
  "or_int x d = (if x = 0 then d else x)"

definition or_str :: "string \<Rightarrow> string \<Rightarrow> string" where
  "or_str x d = (if x = [] then d else x)"

definition server_defaults :: "Server \<Rightarrow> Server" where
  "server_defaults s = s\<lparr>
     svListen := or_str (svListen s) '':8080'',
     svReadTimeout := or_int (svReadTimeout s) (60 * second),
     svShutdownTimeout := or_int (svShutdownTimeout s) (280 * second),
     svRequestTimeout := or_int (svRequestTimeout s) (600 * second),
     svUpstreamConnectTimeout := or_int (svUpstreamConnectTimeout s) (5 * second),
     svUpstreamResponseHeaderTimeout := or_int (svUpstreamResponseHeaderTimeout s) (300 * second),
     svMaxRequestBodyBytes := or_int (svMaxRequestBodyBytes s) (32 * 2 ^ 20),
     svMaxFailoverAttempts := or_int (svMaxFailoverAttempts s) 3,
     svLogLevel := or_str (svLogLevel s) ''info''\<rparr>"

definition control_plane_defaults :: "ControlPlaneConfig \<Rightarrow> ControlPlaneConfig" where
  "control_plane_defaults c = c\<lparr>
     cpTokenHeader := or_str (cpTokenHeader c) ''X-HIGRESS-Token'',
     cpKeyAuthTimeout := or_int (cpKeyAuthTimeout c) (2 * second),
     cpReportTimeout := or_int (cpReportTimeout c) (5 * second),
     cpRoutesPollInterval := or_int (cpRoutesPollInterval c) (30 * second)\<rparr>"

definition metering_defaults :: "MeteringConfig \<Rightarrow> MeteringConfig" where
  "metering_defaults m = m\<lparr>mtQueueSize := or_int (mtQueueSize m) 10000,
     mtWorkers := or_int (mtWorkers m) 4, mtMaxRetries := or_int (mtMaxRetries m) 5\<rparr>"

definition applyDefaults :: "Config \<Rightarrow> Config" where
  "applyDefaults c = c\<lparr>
     cfServer := server_defaults (cfServer c),
     cfControlPlane := control_plane_defaults (cfControlPlane c),
     cfMetering := metering_defaults (cfMetering c),
     cfSecrets := (cfSecrets c)\<lparr>scTimeout := or_int (scTimeout (cfSecrets c)) (10 * second)\<rparr>,
     cfProviders := map (\<lambda>(code, p). (code, p\<lparr>pcAuth := or_str (pcAuth p) AuthBearer\<rparr>)) (cfProviders c)\<rparr>"

section \<open>Validation\<close>

text \<open>A check that returns an error, or nothing; the next one runs when it returned nothing.\<close>

definition and_then :: "err option \<Rightarrow> err option \<Rightarrow> err option" where
  "and_then a b = (case a of None \<Rightarrow> b | Some e \<Rightarrow> Some e)"

fun first_error :: "('a \<Rightarrow> err option) \<Rightarrow> 'a list \<Rightarrow> err option" where
  "first_error f [] = None"
| "first_error f (x # xs) = and_then (f x) (first_error f xs)"

definition insecure_url :: "string \<Rightarrow> err" where
  "insecure_url u = ''control_plane.base_url uses plaintext http ('' @ u @ ''): the control-plane token and customer api keys would be sent in cleartext; use https, or set control_plane.allow_insecure: true to override (e.g. an in-cluster mock)''"

definition check_base_url :: "url_parser \<Rightarrow> ControlPlaneConfig \<Rightarrow> err option" where
  "check_base_url parse c =
     (case parse (cpBaseURL c) of
        None \<Rightarrow> Some (''control_plane.base_url must be an absolute http(s) URL, got '' @ quoted (cpBaseURL c))
      | Some u \<Rightarrow>
          if uHost u = [] \<or> uScheme u \<noteq> ''http'' \<and> uScheme u \<noteq> ''https''
          then Some (''control_plane.base_url must be an absolute http(s) URL, got '' @ quoted (cpBaseURL c))
          else if uScheme u = ''http'' \<and> \<not> cpAllowInsecure c then Some (insecure_url (cpBaseURL c))
          else None)"

definition check_secrets_endpoint :: "url_parser \<Rightarrow> string \<Rightarrow> err option" where
  "check_secrets_endpoint parse e =
     (if e = [] then None
      else (case parse e of
              None \<Rightarrow> Some (''secrets.endpoint must be an https URL, got '' @ quoted e)
            | Some u \<Rightarrow> if uHost u = [] \<or> uScheme u \<noteq> ''https''
                then Some (''secrets.endpoint must be an https URL, got '' @ quoted e) else None))"

definition check_auth :: "string \<Rightarrow> ProviderConfig \<Rightarrow> err option" where
  "check_auth code p =
     (if pcAuth p = AuthBearer \<or> pcAuth p = AuthXAPIKey then
        (if pcAPIKey p = []
         then Some (''provider '' @ quoted code @ '': api_key is required for auth='' @ pcAuth p) else None)
      else if pcAuth p = AuthAWSIAM then
        (if pcRegion p = [] then Some (''provider '' @ quoted code @ '': region is required for auth=aws_iam'')
         else if pcRoleARN p \<noteq> [] \<and> \<not> has_prefix ''arn:aws'' (pcRoleARN p)
         then Some (''provider '' @ quoted code @ '': role_arn '' @ quoted (pcRoleARN p) @ '' is not an IAM role ARN'')
         else None)
      else if pcAuth p = AuthNone then None
      else Some (''provider '' @ quoted code @ '': unknown auth '' @ quoted (pcAuth p)))"

definition check_endpoint :: "string \<Rightarrow> ProviderConfig \<Rightarrow> string \<Rightarrow> err option" where
  "check_endpoint code p name =
     (if name = EndpointOpenAIChat \<or> name = EndpointOpenAIResponses \<or> name = EndpointAnthropic then None
      else if name = EndpointBedrockInvoke then
        (if pcAuth p \<noteq> AuthAWSIAM
         then Some (''provider '' @ quoted code @ '': endpoint '' @ quoted name @ '' requires auth=aws_iam'') else None)
      else Some (''provider '' @ quoted code @ '': unknown endpoint '' @ quoted name))"

definition check_provider :: "string \<times> ProviderConfig \<Rightarrow> err option" where
  "check_provider cp =
     (let (code, p) = cp
      in and_then (check_auth code p)
        (if pcEndpoints p = [] then Some (''provider '' @ quoted code @ '': at least one endpoint is required'')
         else first_error (check_endpoint code p) (map fst (pcEndpoints p))))"

definition validate :: "url_parser \<Rightarrow> Config \<Rightarrow> err option" where
  "validate parse c =
     (if cpBaseURL (cfControlPlane c) = [] then Some ''control_plane.base_url is required''
      else if cpToken (cfControlPlane c) = [] then Some ''control_plane.token is required''
      else if sint (svDefaultMaxTokens (cfServer c)) < 0
      then Some (''server.default_max_tokens must be >= 0, got '' @ i64_text (svDefaultMaxTokens (cfServer c)))
      else and_then (check_base_url parse (cfControlPlane c))
        (and_then (check_secrets_endpoint parse (scEndpoint (cfSecrets c)))
          (if cfProviders c = [] then Some ''at least one provider must be configured''
           else first_error check_provider (cfProviders c))))"

text \<open>\<open>Load\<close>, from the parsed file on.\<close>

definition Load_config :: "url_parser \<Rightarrow> Config \<Rightarrow> Config result" where
  "Load_config parse c =
     (let c1 = applyDefaults c in (case validate parse c1 of Some e \<Rightarrow> Inl e | None \<Rightarrow> Inr c1))"

section \<open>Properties\<close>

lemma and_then_None [simp]: "and_then a b = None \<longleftrightarrow> a = None \<and> b = None"
  by (cases a) (simp_all add: and_then_def)

lemma first_error_None: "first_error f xs = None \<longleftrightarrow> (\<forall>x \<in> set xs. f x = None)"
  by (induction xs) auto

lemma or_int_idem [simp]: "d \<noteq> 0 \<Longrightarrow> or_int (or_int x d) d = or_int x d"
  by (simp add: or_int_def)

lemma or_str_idem [simp]: "or_str (or_str x d) d = or_str x d"
  by (simp add: or_str_def)

lemma applyDefaults_idem: "applyDefaults (applyDefaults c) = applyDefaults c"
  by (simp add: applyDefaults_def server_defaults_def control_plane_defaults_def metering_defaults_def
      second_def comp_def split_beta)

text \<open>What a provider of an accepted configuration has.\<close>

definition usable_provider :: "ProviderConfig \<Rightarrow> bool" where
  "usable_provider p \<longleftrightarrow> pcEndpoints p \<noteq> []
     \<and> (pcAuth p = AuthNone
        \<or> (pcAuth p = AuthBearer \<or> pcAuth p = AuthXAPIKey) \<and> pcAPIKey p \<noteq> []
        \<or> pcAuth p = AuthAWSIAM \<and> pcRegion p \<noteq> [] \<and> (pcRoleARN p = [] \<or> has_prefix ''arn:aws'' (pcRoleARN p)))
     \<and> (EndpointBedrockInvoke \<in> fst ` set (pcEndpoints p) \<longrightarrow> pcAuth p = AuthAWSIAM)
     \<and> fst ` set (pcEndpoints p)
         \<subseteq> {EndpointOpenAIChat, EndpointOpenAIResponses, EndpointAnthropic, EndpointBedrockInvoke}"

lemma check_auth_usable: "check_auth code p = None \<longleftrightarrow> pcAuth p = AuthNone
    \<or> (pcAuth p = AuthBearer \<or> pcAuth p = AuthXAPIKey) \<and> pcAPIKey p \<noteq> []
    \<or> pcAuth p = AuthAWSIAM \<and> pcRegion p \<noteq> [] \<and> (pcRoleARN p = [] \<or> has_prefix ''arn:aws'' (pcRoleARN p))"
  by (auto simp: check_auth_def auth_defs)

lemma check_endpoint_usable: "check_endpoint code p name = None \<longleftrightarrow>
    name \<in> {EndpointOpenAIChat, EndpointOpenAIResponses, EndpointAnthropic, EndpointBedrockInvoke}
    \<and> (name = EndpointBedrockInvoke \<longrightarrow> pcAuth p = AuthAWSIAM)"
  by (auto simp: check_endpoint_def endpoint_defs)

lemma check_provider_usable: "check_provider (code, p) = None \<longleftrightarrow> usable_provider p"
proof -
  have "first_error (check_endpoint code p) (map fst (pcEndpoints p)) = None \<longleftrightarrow>
      (EndpointBedrockInvoke \<in> fst ` set (pcEndpoints p) \<longrightarrow> pcAuth p = AuthAWSIAM)
      \<and> fst ` set (pcEndpoints p)
          \<subseteq> {EndpointOpenAIChat, EndpointOpenAIResponses, EndpointAnthropic, EndpointBedrockInvoke}"
    by (auto simp: first_error_None check_endpoint_usable image_iff Bex_def)
  then show ?thesis
    by (simp only: check_provider_def usable_provider_def Let_def prod.case and_then_None check_auth_usable) auto
qed

definition url_secure :: "url_parser \<Rightarrow> bool \<Rightarrow> string \<Rightarrow> bool" where
  "url_secure parse insecure s \<longleftrightarrow> (case parse s of None \<Rightarrow> False | Some u \<Rightarrow> uHost u \<noteq> []
     \<and> (uScheme u = ''https'' \<or> insecure \<and> uScheme u = ''http''))"

lemma check_base_url_secure:
  "check_base_url parse c = None \<longleftrightarrow> url_secure parse (cpAllowInsecure c) (cpBaseURL c)"
  by (auto simp: check_base_url_def url_secure_def split: option.split)

lemma check_secrets_secure: "check_secrets_endpoint parse e = None \<longleftrightarrow> e = [] \<or> url_secure parse False e"
  by (auto simp: check_secrets_endpoint_def url_secure_def split: option.split)

text \<open>C38: exactly these configurations load, completed by the defaults, which change nothing when applied again: those
  with a token and a URL of the control plane that is https, or http when that is allowed by name; with a secrets
  endpoint, if any, that is https without exception; with a default for max_tokens that is not negative; and with at
  least one provider, each of them usable: a known way to authenticate with what it needs, known endpoints only, and
  InvokeModel only with AWS credentials. The URLs of the providers are not looked at.\<close>

theorem loaded_config_is_safe:
  "(Load_config parse c0 = Inr c \<longleftrightarrow> c = applyDefaults c0
      \<and> cpBaseURL (cfControlPlane c) \<noteq> [] \<and> cpToken (cfControlPlane c) \<noteq> []
      \<and> url_secure parse (cpAllowInsecure (cfControlPlane c)) (cpBaseURL (cfControlPlane c))
      \<and> (scEndpoint (cfSecrets c) = [] \<or> url_secure parse False (scEndpoint (cfSecrets c)))
      \<and> 0 \<le> sint (svDefaultMaxTokens (cfServer c))
      \<and> cfProviders c \<noteq> [] \<and> list_all (\<lambda>p. usable_provider (snd p)) (cfProviders c))
   \<and> applyDefaults (applyDefaults c0) = applyDefaults c0"
proof -
  have p: "first_error check_provider ps = None \<longleftrightarrow> list_all (\<lambda>p. usable_provider (snd p)) ps" for ps
    by (auto simp: first_error_None list_all_iff check_provider_usable)
  have v: "validate parse c = None \<longleftrightarrow> cpBaseURL (cfControlPlane c) \<noteq> [] \<and> cpToken (cfControlPlane c) \<noteq> []
      \<and> url_secure parse (cpAllowInsecure (cfControlPlane c)) (cpBaseURL (cfControlPlane c))
      \<and> (scEndpoint (cfSecrets c) = [] \<or> url_secure parse False (scEndpoint (cfSecrets c)))
      \<and> 0 \<le> sint (svDefaultMaxTokens (cfServer c))
      \<and> cfProviders c \<noteq> [] \<and> list_all (\<lambda>p. usable_provider (snd p)) (cfProviders c)" for c
    unfolding validate_def and_then_None p [symmetric] check_base_url_secure [symmetric] check_secrets_secure [symmetric]
    by auto
  have "Load_config parse c0 = Inr c \<longleftrightarrow> c = applyDefaults c0 \<and> validate parse c = None"
    by (auto simp: Load_config_def Let_def split: option.splits)
  then show ?thesis unfolding v by (simp add: applyDefaults_idem)
qed

definition sample_config :: "int \<Rightarrow> Config" where
  "sample_config n = \<lparr>cfServer = \<lparr>svListen = [], svReadTimeout = 0, svShutdownTimeout = 0, svRequestTimeout = 0,
       svUpstreamConnectTimeout = 0, svUpstreamResponseHeaderTimeout = 0, svMaxRequestBodyBytes = 0,
       svMaxFailoverAttempts = n, svLogLevel = [], svDefaultMaxTokens = 0\<rparr>,
     cfControlPlane = \<lparr>cpBaseURL = ''https://cp'', cpToken = ''t'', cpTokenHeader = [], cpAllowInsecure = False,
       cpKeyAuthTimeout = 0, cpReportTimeout = 0, cpRoutesPollInterval = 0\<rparr>,
     cfMetering = \<lparr>mtQueueSize = 0, mtWorkers = 0, mtMaxRetries = 0\<rparr>,
     cfSecrets = \<lparr>scRegion = [], scEndpoint = [], scTimeout = 0\<rparr>,
     cfProviders = [(''p'', \<lparr>pcAuth = ''none'', pcAPIKey = [], pcRegion = [], pcRoleARN = [], pcExternalID = [],
       pcSTSRegion = [], pcEndpoints = [(''anthropic'', ''https://up'')]\<rparr>)]\<rparr>"

definition https_only :: url_parser where
  "https_only s = Some \<lparr>uScheme = ''https'', uHost = ''h'', uPath = []\<rparr>"

lemma sample_config_loads: "Load_config https_only (sample_config n) = Inr (applyDefaults (sample_config n))"
  by (simp add: Load_config_def validate_def applyDefaults_def sample_config_def control_plane_defaults_def
      server_defaults_def metering_defaults_def or_str_def check_base_url_def https_only_def
      check_secrets_endpoint_def check_provider_def check_auth_def check_endpoint_def auth_defs endpoint_defs
      and_then_def)

lemma loaded_config_is_safe_witness:
  "list_all (\<lambda>p. usable_provider (snd p)) (cfProviders (applyDefaults (sample_config 0)))
   \<and> svMaxFailoverAttempts (cfServer (applyDefaults (sample_config 0))) = 3"
  using loaded_config_is_safe [of https_only "sample_config 0" "applyDefaults (sample_config 0)"] sample_config_loads [of 0]
  by (simp add: applyDefaults_def sample_config_def server_defaults_def or_int_def)

end
