(* ===== verification/Secrets.thy ===== *)
theory Secrets
  imports Json Config
begin

text \<open>
  The package \<^verbatim>\<open>internal/secrets\<close>: configuration fields that refer to AWS Secrets Manager are replaced by the
  secrets. The API is the argument \<open>api\<close>: the answer to call number \<open>n\<close>, for a secret id. A resolver is
  its cache and the ids it has asked for.
\<close>

section \<open>References\<close>

definition Scheme :: string where "Scheme = ''secretsmanager://''"

definition IsRef :: "string \<Rightarrow> bool" where
  "IsRef v = has_prefix Scheme v"

record Ref =
  refSecretID :: string
  refJSONKey :: string

definition ParseRef :: "string \<Rightarrow> Ref result" where
  "ParseRef v =
     (if \<not> IsRef v then Inl (''not a '' @ Scheme @ '' reference'')
      else (let rest = trim_prefix Scheme v;
                (sid, key, found) = (case cut_at ''#'' rest of None \<Rightarrow> (rest, [], False) | Some (a, b) \<Rightarrow> (a, b, True))
            in if sid = [] then Inl ''empty secret id''
               else if found \<and> key = [] then Inl (''empty json key after '' @ [CHR 39, CHR ''#'', CHR 39])
               else Inr \<lparr>refSecretID = sid, refJSONKey = key\<rparr>))"

section \<open>The resolver\<close>

record fetched =
  ftValue :: string
  ftARN :: string
  ftVersion :: string

text \<open>The output of GetSecretValue: no string for a binary secret.\<close>

record secret_output =
  soString :: "string option"
  soARN :: string
  soVersion :: string

type_synonym secrets_api = "nat \<Rightarrow> string \<Rightarrow> secret_output result"

record Resolver =
  rvCache :: "(string \<times> fetched) list"
  rvCalls :: "string list"

definition NewWithAPI :: Resolver where
  "NewWithAPI = \<lparr>rvCache = [], rvCalls = []\<rparr>"

text \<open>\<open>New\<close>: the region is the configured one or that of the environment; loading the AWS configuration may fail.\<close>

definition resolver_region :: "string \<Rightarrow> string \<Rightarrow> SecretsConfig \<Rightarrow> string" where
  "resolver_region env_region env_default sc = or_str (or_str (scRegion sc) env_region) env_default"

definition New_resolver :: "string \<Rightarrow> string \<Rightarrow> (string \<Rightarrow> err option) \<Rightarrow> SecretsConfig \<Rightarrow> Resolver result" where
  "New_resolver env_region env_default load_aws sc =
     (let region = resolver_region env_region env_default sc
      in if region = [] then Inl ''secrets.region is required (AWS_REGION / AWS_DEFAULT_REGION not set)''
         else (case load_aws region of
                 Some e \<Rightarrow> Inl (''load aws config: '' @ e)
               | None \<Rightarrow> Inr NewWithAPI))"

definition fetch :: "secrets_api \<Rightarrow> string \<Rightarrow> Resolver \<Rightarrow> fetched result \<times> Resolver" where
  "fetch api sid r =
     (case map_of (rvCache r) sid of
        Some f \<Rightarrow> (Inr f, r)
      | None \<Rightarrow>
          (let r1 = r\<lparr>rvCalls := rvCalls r @ [sid]\<rparr>
           in case api (length (rvCalls r)) sid of
                Inl e \<Rightarrow> (Inl (''get secret: '' @ e), r1)
              | Inr out \<Rightarrow>
                  (case soString out of
                     None \<Rightarrow> (Inl (''secret '' @ soARN out @ '' has no SecretString (binary secrets are not supported)''), r1)
                   | Some s \<Rightarrow>
                       (let f = \<lparr>ftValue = s, ftARN = soARN out, ftVersion = soVersion out\<rparr>
                        in (Inr f, r1\<lparr>rvCache := AList.update sid f (rvCache r1)\<rparr>)))))"

definition jsonKey :: "string \<Rightarrow> string \<Rightarrow> string result" where
  "jsonKey secret key =
     (case unmarshal dec_map secret of
        None \<Rightarrow> Inl ''SecretString is not a JSON object, cannot select a key''
      | Some m \<Rightarrow>
          (case map_of m key of
             None \<Rightarrow> Inl ''json key not found''
           | Some raw \<Rightarrow> (case dec_str raw of None \<Rightarrow> Inl ''json key is not a string'' | Some s \<Rightarrow> Inr s)))"

text \<open>The value that a fetched secret gives for a reference.\<close>

definition secret_value :: "string \<Rightarrow> Ref \<Rightarrow> fetched \<Rightarrow> string result" where
  "secret_value field ref f =
     (let raw = (if refJSONKey ref \<noteq> []
                 then wrap_err (field @ '': secret '' @ ftARN f @ '': '') (jsonKey (ftValue f) (refJSONKey ref))
                 else Inr (ftValue f))
      in rbind raw (\<lambda>v.
         if trim_space v = []
         then Inl (field @ '': secret '' @ ftARN f @ '' resolved to an empty value'')
         else Inr (trim_space v)))"

definition resolveField :: "secrets_api \<Rightarrow> string \<Rightarrow> string \<Rightarrow> Resolver \<Rightarrow> string result \<times> Resolver" where
  "resolveField api field v r =
     (if \<not> IsRef v then (Inr v, r)
      else (case ParseRef v of
              Inl e \<Rightarrow> (Inl (field @ '': '' @ e), r)
            | Inr ref \<Rightarrow>
                (case fetch api (refSecretID ref) r of
                   (Inl e, r1) \<Rightarrow> (Inl (field @ '': '' @ e), r1)
                 | (Inr f, r1) \<Rightarrow> (secret_value field ref f, r1))))"

definition resolve_provider :: "secrets_api \<Rightarrow> string \<Rightarrow> ProviderConfig \<Rightarrow> Resolver \<Rightarrow> ProviderConfig result \<times> Resolver" where
  "resolve_provider api code p r =
     (case resolveField api (''providers.'' @ code @ ''.api_key'') (pcAPIKey p) r of
        (Inl e, r1) \<Rightarrow> (Inl e, r1)
      | (Inr k, r1) \<Rightarrow>
          (case resolveField api (''providers.'' @ code @ ''.external_id'') (pcExternalID p) r1 of
             (Inl e, r2) \<Rightarrow> (Inl e, r2)
           | (Inr x, r2) \<Rightarrow> (Inr (p\<lparr>pcAPIKey := k, pcExternalID := x\<rparr>), r2)))"

fun resolve_providers :: "secrets_api \<Rightarrow> (string \<times> ProviderConfig) list \<Rightarrow> Resolver
    \<Rightarrow> (string \<times> ProviderConfig) list result \<times> Resolver" where
  "resolve_providers api [] r = (Inr [], r)"
| "resolve_providers api ((code, p) # ps) r =
     (case resolve_provider api code p r of
        (Inl e, r1) \<Rightarrow> (Inl e, r1)
      | (Inr q, r1) \<Rightarrow>
          (case resolve_providers api ps r1 of
             (Inl e, r2) \<Rightarrow> (Inl e, r2)
           | (Inr qs, r2) \<Rightarrow> (Inr ((code, q) # qs), r2)))"

definition Resolve :: "secrets_api \<Rightarrow> Config \<Rightarrow> Resolver \<Rightarrow> Config result \<times> Resolver" where
  "Resolve api c r =
     (case resolveField api ''control_plane.token'' (cpToken (cfControlPlane c)) r of
        (Inl e, r1) \<Rightarrow> (Inl e, r1)
      | (Inr t, r1) \<Rightarrow>
          (case resolve_providers api (cfProviders c) r1 of
             (Inl e, r2) \<Rightarrow> (Inl e, r2)
           | (Inr ps, r2) \<Rightarrow>
               (Inr (c\<lparr>cfControlPlane := (cfControlPlane c)\<lparr>cpToken := t\<rparr>, cfProviders := ps\<rparr>), r2)))"

definition HasRefs :: "Config \<Rightarrow> bool" where
  "HasRefs c \<longleftrightarrow> IsRef (cpToken (cfControlPlane c))
     \<or> (\<exists>p \<in> set (cfProviders c). IsRef (pcAPIKey (snd p)) \<or> IsRef (pcExternalID (snd p)))"

section \<open>Properties\<close>

text \<open>A cache that holds what the API answered, each id asked for once.\<close>

definition resolver_ok :: "secrets_api \<Rightarrow> Resolver \<Rightarrow> bool" where
  "resolver_ok api r \<longleftrightarrow> fst ` set (rvCache r) = set (rvCalls r) \<and> distinct (rvCalls r)
     \<and> (\<forall>sid f. map_of (rvCache r) sid = Some f \<longrightarrow>
          (\<exists>n out. api n sid = Inr out \<and> soString out = Some (ftValue f) \<and> ftARN f = soARN out))"

text \<open>What a field becomes: itself, or the trimmed value of its secret.\<close>

definition secret_of :: "secrets_api \<Rightarrow> string \<Rightarrow> string \<Rightarrow> bool" where
  "secret_of api v x \<longleftrightarrow>
     (if IsRef v
      then (\<exists>ref n out s. ParseRef v = Inr ref \<and> api n (refSecretID ref) = Inr out \<and> soString out = Some s
              \<and> x \<noteq> [] \<and> (if refJSONKey ref = [] then x = trim_space s
                          else (\<exists>y. jsonKey s (refJSONKey ref) = Inr y \<and> x = trim_space y)))
      else x = v)"

lemma new_resolver_ok [simp]: "resolver_ok api NewWithAPI"
  by (simp add: resolver_ok_def NewWithAPI_def)

lemma fetch_ok:
  assumes "fetch api sid r = (Inr f, r1)" and "resolver_ok api r"
  shows "resolver_ok api r1 \<and> set (rvCalls r) \<subseteq> set (rvCalls r1)
    \<and> (\<exists>n out. api n sid = Inr out \<and> soString out = Some (ftValue f) \<and> ftARN f = soARN out)"
proof (cases "map_of (rvCache r) sid")
  case (Some g)
  with assms show ?thesis by (auto simp: fetch_def resolver_ok_def)
next
  case None
  then have new: "sid \<notin> set (rvCalls r)" using assms(2) by (metis map_of_eq_None_iff resolver_ok_def)
  obtain out where out: "api (length (rvCalls r)) sid = Inr out" "soString out = Some (ftValue f)" "ftARN f = soARN out"
    "r1 = r\<lparr>rvCalls := rvCalls r @ [sid], rvCache := AList.update sid f (rvCache r)\<rparr>"
    using assms(1) None by (auto simp: fetch_def Let_def split: sum.splits option.splits)
  with new assms(2) show ?thesis
    by (auto simp: resolver_ok_def update_conv' dom_update [unfolded dom_def])
qed

lemma resolveField_ok:
  assumes "resolveField api field v r = (Inr x, r1)" and "resolver_ok api r"
  shows "resolver_ok api r1 \<and> secret_of api v x \<and> (\<not> IsRef v \<longrightarrow> r1 = r)"
proof (cases "IsRef v")
  case False
  with assms show ?thesis by (simp add: resolveField_def secret_of_def)
next
  case True
  then obtain ref f where ref: "ParseRef v = Inr ref" "fetch api (refSecretID ref) r = (Inr f, r1)"
    "secret_value field ref f = Inr x"
    using assms(1) by (auto simp: resolveField_def split: sum.splits prod.splits)
  obtain n out where out: "api n (refSecretID ref) = Inr out" "soString out = Some (ftValue f)"
    using fetch_ok [OF ref(2) assms(2)] by blast
  have "x \<noteq> [] \<and> (if refJSONKey ref = [] then x = trim_space (ftValue f)
      else (\<exists>y. jsonKey (ftValue f) (refJSONKey ref) = Inr y \<and> x = trim_space y))"
    using ref(3) by (cases "jsonKey (ftValue f) (refJSONKey ref)")
      (simp_all add: secret_value_def rbind_def wrap_err_def Let_def split: if_splits)
  with True ref(1) out have "secret_of api v x"
    unfolding secret_of_def by (simp only: if_True) (intro exI [of _ ref] exI [of _ n] exI [of _ out] exI [of _ "ftValue f"]; blast)
  with True fetch_ok [OF ref(2) assms(2)] show ?thesis by simp
qed

definition provider_resolved :: "secrets_api \<Rightarrow> string \<times> ProviderConfig \<Rightarrow> string \<times> ProviderConfig \<Rightarrow> bool" where
  "provider_resolved api a b \<longleftrightarrow> fst b = fst a
     \<and> secret_of api (pcAPIKey (snd a)) (pcAPIKey (snd b)) \<and> secret_of api (pcExternalID (snd a)) (pcExternalID (snd b))
     \<and> snd b = (snd a)\<lparr>pcAPIKey := pcAPIKey (snd b), pcExternalID := pcExternalID (snd b)\<rparr>"

lemma resolve_provider_ok:
  assumes "resolve_provider api code p r = (Inr q, r1)" and "resolver_ok api r"
  shows "resolver_ok api r1 \<and> provider_resolved api (code, p) (code, q)
    \<and> (\<not> IsRef (pcAPIKey p) \<and> \<not> IsRef (pcExternalID p) \<longrightarrow> r1 = r)"
proof -
  obtain k r2 x where k: "resolveField api (''providers.'' @ code @ ''.api_key'') (pcAPIKey p) r = (Inr k, r2)"
    and x: "resolveField api (''providers.'' @ code @ ''.external_id'') (pcExternalID p) r2 = (Inr x, r1)"
    and q: "q = p\<lparr>pcAPIKey := k, pcExternalID := x\<rparr>"
    using assms(1) by (auto simp: resolve_provider_def split: prod.splits sum.splits)
  note k = resolveField_ok [OF k assms(2)]
  from k have "resolver_ok api r2" by simp
  from resolveField_ok [OF x this] k q show ?thesis by (simp add: provider_resolved_def)
qed

lemma resolve_providers_ok:
  "resolve_providers api ps r = (Inr qs, r1) \<Longrightarrow> resolver_ok api r \<Longrightarrow>
   resolver_ok api r1 \<and> list_all2 (provider_resolved api) ps qs
   \<and> ((\<forall>p \<in> set ps. \<not> IsRef (pcAPIKey (snd p)) \<and> \<not> IsRef (pcExternalID (snd p))) \<longrightarrow> r1 = r)"
proof (induction ps arbitrary: r qs)
  case (Cons a ps)
  obtain code p where a: "a = (code, p)" by fastforce
  obtain q r2 qs' where q: "resolve_provider api code p r = (Inr q, r2)" "resolve_providers api ps r2 = (Inr qs', r1)"
    "qs = (code, q) # qs'"
    using Cons.prems(1) a by (auto split: prod.splits sum.splits)
  from resolve_provider_ok [OF q(1) Cons.prems(2)] Cons.IH [OF q(2)] q(3) a show ?case by auto
qed simp

lemma secret_of_empty: "secret_of api v x \<Longrightarrow> x = [] \<longleftrightarrow> v = []"
  by (auto simp: secret_of_def IsRef_def Scheme_def split: if_splits)

lemma secret_of_plain: "secret_of api v x \<Longrightarrow> \<not> IsRef v \<Longrightarrow> x = v"
  by (simp add: secret_of_def)

lemma resolved_checks:
  assumes "provider_resolved api a b"
  shows "check_provider b = None \<longleftrightarrow> check_provider a = None"
proof -
  obtain code p where a: "a = (code, p)" by fastforce
  with assms obtain q where b: "b = (code, q)" by (cases b) (simp add: provider_resolved_def)
  have q: "pcAuth q = pcAuth p" "pcRegion q = pcRegion p" "pcRoleARN q = pcRoleARN p" "pcEndpoints q = pcEndpoints p"
    using assms a b arg_cong [of _ _ pcAuth] by (auto simp: provider_resolved_def dest: arg_cong [where f = pcAuth]
        arg_cong [where f = pcRegion] arg_cong [where f = pcRoleARN] arg_cong [where f = pcEndpoints])
  have "pcAPIKey q = [] \<longleftrightarrow> pcAPIKey p = []" using assms a b by (auto simp: provider_resolved_def dest: secret_of_empty)
  moreover have "check_endpoint code q = check_endpoint code p" by (rule ext) (simp add: check_endpoint_def q)
  ultimately show ?thesis unfolding a b check_provider_def Let_def check_auth_def by (simp add: q)
qed

lemma provider_unchanged:
  "provider_resolved api a b \<Longrightarrow> \<not> IsRef (pcAPIKey (snd a)) \<and> \<not> IsRef (pcExternalID (snd a)) \<Longrightarrow> b = a"
  by (cases a; cases b) (auto simp: provider_resolved_def secret_of_def)

lemma resolved_list_same:
  "list_all2 (provider_resolved api) ps qs
    \<Longrightarrow> \<forall>p \<in> set ps. \<not> IsRef (pcAPIKey (snd p)) \<and> \<not> IsRef (pcExternalID (snd p)) \<Longrightarrow> qs = ps"
  by (induction rule: list_all2_induct) (auto dest: provider_unchanged)

lemma resolved_list_checks:
  "list_all2 (provider_resolved api) ps qs
    \<Longrightarrow> first_error check_provider qs = None \<longleftrightarrow> first_error check_provider ps = None"
  by (induction rule: list_all2_induct) (simp_all add: resolved_checks)

lemma check_base_url_token: "check_base_url parse (c\<lparr>cpToken := t\<rparr>) = check_base_url parse c"
  by (simp add: check_base_url_def split: option.split)

lemma resolved_stays_valid:
  assumes "validate parse c = None" and "list_all2 (provider_resolved api) (cfProviders c) ps"
    and "secret_of api (cpToken (cfControlPlane c)) t"
  shows "validate parse (c\<lparr>cfControlPlane := (cfControlPlane c)\<lparr>cpToken := t\<rparr>, cfProviders := ps\<rparr>) = None"
proof -
  have "t \<noteq> [] \<longleftrightarrow> cpToken (cfControlPlane c) \<noteq> []" using secret_of_empty [OF assms(3)] by simp
  moreover have "ps = [] \<longleftrightarrow> cfProviders c = []" using assms(2) by auto
  moreover note resolved_list_checks [OF assms(2)]
  ultimately show ?thesis
    using assms(1) by (simp add: validate_def check_base_url_token split: if_splits)
qed

lemma Resolve_ok:
  assumes "Resolve api c NewWithAPI = (Inr c', r)"
  shows "secret_of api (cpToken (cfControlPlane c)) (cpToken (cfControlPlane c'))
    \<and> list_all2 (provider_resolved api) (cfProviders c) (cfProviders c')
    \<and> c' = c\<lparr>cfControlPlane := (cfControlPlane c)\<lparr>cpToken := cpToken (cfControlPlane c')\<rparr>, cfProviders := cfProviders c'\<rparr>
    \<and> resolver_ok api r \<and> (\<not> HasRefs c \<longrightarrow> c' = c \<and> r = NewWithAPI)"
proof -
  obtain t r1 ps where t: "resolveField api ''control_plane.token'' (cpToken (cfControlPlane c)) NewWithAPI = (Inr t, r1)"
    and ps: "resolve_providers api (cfProviders c) r1 = (Inr ps, r)"
    and c': "c' = c\<lparr>cfControlPlane := (cfControlPlane c)\<lparr>cpToken := t\<rparr>, cfProviders := ps\<rparr>"
    using assms by (auto simp: Resolve_def split: prod.splits sum.splits)
  from resolveField_ok [OF t new_resolver_ok] have t: "resolver_ok api r1" "secret_of api (cpToken (cfControlPlane c)) t"
    "\<not> IsRef (cpToken (cfControlPlane c)) \<Longrightarrow> r1 = NewWithAPI" by simp_all
  from resolve_providers_ok [OF ps t(1)] have ps: "resolver_ok api r" "list_all2 (provider_resolved api) (cfProviders c) ps"
    "\<forall>p \<in> set (cfProviders c). \<not> IsRef (pcAPIKey (snd p)) \<and> \<not> IsRef (pcExternalID (snd p)) \<Longrightarrow> r = r1" by simp_all
  have "c' = c \<and> r = NewWithAPI" if "\<not> HasRefs c"
    using that t(3) ps(3) secret_of_plain [OF t(2)] resolved_list_same [OF ps(2)]
    by (simp add: HasRefs_def c')
  with t ps c' show ?thesis by simp
qed

text \<open>C29: when the secrets of a configuration are resolved, every secret field is the plain text it was or the
  trimmed, non-empty value of the secret it names, and nothing else has changed; each secret is asked for
  once, a configuration without references asks for none and stays as it is, and one that was valid is still valid.\<close>

theorem secrets_resolved:
  assumes "Resolve api c NewWithAPI = (Inr c', r)"
  shows "secret_of api (cpToken (cfControlPlane c)) (cpToken (cfControlPlane c'))
    \<and> list_all2 (provider_resolved api) (cfProviders c) (cfProviders c')
    \<and> c' = c\<lparr>cfControlPlane := (cfControlPlane c)\<lparr>cpToken := cpToken (cfControlPlane c')\<rparr>, cfProviders := cfProviders c'\<rparr>
    \<and> distinct (rvCalls r) \<and> (\<not> HasRefs c \<longrightarrow> c' = c \<and> rvCalls r = [])
    \<and> (validate parse c = None \<longrightarrow> validate parse c' = None)"
proof -
  note ok = Resolve_ok [OF assms]
  then have "validate parse c = None \<longrightarrow> validate parse c' = None"
    using resolved_stays_valid [of parse c api "cfProviders c'" "cpToken (cfControlPlane c')"] by simp
  with ok show ?thesis by (simp add: resolver_ok_def NewWithAPI_def)
qed

text \<open>A configuration whose token and provider key are two fields of one secret, and what the API answers.\<close>

definition sample_secret_json :: json where
  "sample_secret_json = JObj [(''token'', JStr '' tok ''), (''key'', JStr ''k1'')]"

definition sample_secrets_api :: secrets_api where
  "sample_secrets_api n sid =
     (if sid = ''gw'' then Inr \<lparr>soString = Some (json_text sample_secret_json), soARN = ''arn:gw'', soVersion = ''v1''\<rparr>
      else Inl ''ResourceNotFoundException'')"

definition sample_secret_config :: "string \<Rightarrow> string \<Rightarrow> Config" where
  "sample_secret_config t k =
     (let c = sample_config 0
      in c\<lparr>cfControlPlane := (cfControlPlane c)\<lparr>cpToken := t\<rparr>,
           cfProviders := map (\<lambda>(code, p). (code, p\<lparr>pcAuth := AuthBearer, pcAPIKey := k\<rparr>)) (cfProviders c)\<rparr>)"

lemma sample_json_keys:
  "jsonKey (json_text sample_secret_json) ''token'' = Inr '' tok ''"
  "jsonKey (json_text sample_secret_json) ''key'' = Inr ''k1''"
  by (simp_all add: jsonKey_def sample_secret_json_def dec_map_def)

lemma sample_refs:
  "IsRef ''secretsmanager://gw#token''" "IsRef ''secretsmanager://gw#key''" "\<not> IsRef []"
  "ParseRef ''secretsmanager://gw#token'' = Inr \<lparr>refSecretID = ''gw'', refJSONKey = ''token''\<rparr>"
  "ParseRef ''secretsmanager://gw#key'' = Inr \<lparr>refSecretID = ''gw'', refJSONKey = ''key''\<rparr>"
  by code_simp+

definition sample_resolver :: Resolver where
  "sample_resolver = \<lparr>rvCache = [(''gw'', \<lparr>ftValue = json_text sample_secret_json, ftARN = ''arn:gw'', ftVersion = ''v1''\<rparr>)],
     rvCalls = [''gw'']\<rparr>"

lemma sample_token_resolves:
  "resolveField sample_secrets_api field ''secretsmanager://gw#token'' NewWithAPI = (Inr ''tok'', sample_resolver)"
  by (simp add: resolveField_def sample_refs fetch_def NewWithAPI_def sample_secrets_api_def secret_value_def Let_def
      sample_json_keys trim_space_def is_blank_def sample_resolver_def)

lemma sample_key_resolves:
  "resolveField sample_secrets_api field ''secretsmanager://gw#key'' sample_resolver = (Inr ''k1'', sample_resolver)"
  by (simp add: resolveField_def sample_refs fetch_def sample_secrets_api_def secret_value_def
      sample_json_keys trim_space_def is_blank_def sample_resolver_def)

lemma sample_secret_resolves:
  "Resolve sample_secrets_api (sample_secret_config ''secretsmanager://gw#token'' ''secretsmanager://gw#key'') NewWithAPI
     = (Inr (sample_secret_config ''tok'' ''k1''), sample_resolver)"
proof -
  have "resolveField sample_secrets_api field [] r = (Inr [], r)" for field r
    by (simp add: resolveField_def sample_refs)
  then show ?thesis
    by (simp add: Resolve_def sample_secret_config_def sample_config_def resolve_provider_def
        sample_token_resolves sample_key_resolves)
qed

lemma sample_secret_config_valid:
  "validate https_only (sample_secret_config ''secretsmanager://gw#token'' ''secretsmanager://gw#key'') = None"
  by (simp add: sample_secret_config_def Let_def) code_simp

lemma secrets_resolved_witness:
  "rvCalls (snd (Resolve sample_secrets_api
      (sample_secret_config ''secretsmanager://gw#token'' ''secretsmanager://gw#key'') NewWithAPI)) = [''gw'']
    \<and> secret_of sample_secrets_api ''secretsmanager://gw#token'' ''tok''
    \<and> validate https_only (sample_secret_config ''tok'' ''k1'') = None"
  using secrets_resolved [OF sample_secret_resolves, of https_only] sample_secret_resolves sample_secret_config_valid
  by (simp add: sample_secret_config_def Let_def sample_resolver_def)

end
