(* ===== verification/Protocol.thy ===== *)
theory Protocol
  imports Json
begin

text \<open>
  The package \<^verbatim>\<open>internal/protocol\<close>: the three wire protocols, the normalised token usage, the
  parsers of usage in complete and streamed responses, and the request body as the
  pass-through path sees it (model and stream read, model rewritten). Token counters are Go's
  int64, so sums and differences wrap around.
\<close>

section \<open>Protocols\<close>

type_synonym protocol = string

definition OpenAIChat :: protocol where "OpenAIChat = ''openai_chat''"
definition OpenAIResponses :: protocol where "OpenAIResponses = ''openai_responses''"
definition Anthropic :: protocol where "Anthropic = ''anthropic''"

lemma protocol_distinct [simp]:
  "OpenAIChat \<noteq> OpenAIResponses" "OpenAIChat \<noteq> Anthropic" "OpenAIResponses \<noteq> Anthropic"
  "OpenAIResponses \<noteq> OpenAIChat" "Anthropic \<noteq> OpenAIChat" "Anthropic \<noteq> OpenAIResponses"
  by (simp_all add: OpenAIChat_def OpenAIResponses_def Anthropic_def)

definition Valid :: "protocol \<Rightarrow> bool" where
  "Valid p \<longleftrightarrow> p = OpenAIChat \<or> p = OpenAIResponses \<or> p = Anthropic"

lemma Valid_simps [simp]: "Valid OpenAIChat" "Valid OpenAIResponses" "Valid Anthropic"
  by (simp_all add: Valid_def)

lemma ValidE:
  "Valid p \<Longrightarrow> (p = OpenAIChat \<Longrightarrow> P) \<Longrightarrow> (p = OpenAIResponses \<Longrightarrow> P) \<Longrightarrow> (p = Anthropic \<Longrightarrow> P) \<Longrightarrow> P"
  by (auto simp: Valid_def)

definition UpstreamPath :: "protocol \<Rightarrow> string" where
  "UpstreamPath p =
     (if p = OpenAIChat then ''/chat/completions''
      else if p = OpenAIResponses then ''/responses''
      else if p = Anthropic then ''/messages''
      else [])"

definition Detect :: "string \<Rightarrow> protocol option" where
  "Detect path =
     (let p = trim_suffix ''/'' path
      in if has_suffix ''/v1/chat/completions'' p then Some OpenAIChat
         else if has_suffix ''/v1/responses'' p then Some OpenAIResponses
         else if has_suffix ''/v1/messages'' p then Some Anthropic
         else None)"

lemma has_suffix_last: "has_suffix (p @ [c]) (s @ [d]) \<longleftrightarrow> c = d \<and> has_suffix p s"
  by (simp add: has_suffix_def)

section \<open>Usage\<close>

record usage =
  uInput :: i64
  uOutput :: i64
  uCacheRead :: i64
  uCacheWrite :: i64
  uReasoning :: i64
  uFound :: bool

definition no_usage :: usage where
  "no_usage = \<lparr>uInput = 0, uOutput = 0, uCacheRead = 0, uCacheWrite = 0, uReasoning = 0, uFound = False\<rparr>"

definition Total :: "usage \<Rightarrow> i64" where
  "Total u = uInput u + uCacheRead u + uCacheWrite u + uOutput u"

definition zero_neg :: "i64 \<Rightarrow> i64" where
  "zero_neg w = (if neg64 w then 0 else w)"

definition clamp :: "usage \<Rightarrow> usage" where
  "clamp u = u\<lparr>uInput := zero_neg (uInput u), uOutput := zero_neg (uOutput u),
     uCacheRead := zero_neg (uCacheRead u), uCacheWrite := zero_neg (uCacheWrite u),
     uReasoning := zero_neg (uReasoning u)\<rparr>"

definition counters_nonneg :: "usage \<Rightarrow> bool" where
  "counters_nonneg u \<longleftrightarrow> 0 \<le> sint (uInput u) \<and> 0 \<le> sint (uOutput u) \<and> 0 \<le> sint (uCacheRead u)
     \<and> 0 \<le> sint (uCacheWrite u) \<and> 0 \<le> sint (uReasoning u)"

lemma zero_neg_nonneg [simp]: "0 \<le> sint (zero_neg w)"
  by (simp add: zero_neg_def neg64_def)

lemma zero_neg_id [simp]: "0 \<le> sint w \<Longrightarrow> zero_neg w = w"
  by (simp add: zero_neg_def neg64_def)

lemma clamp_nonneg [simp]: "counters_nonneg (clamp u)"
  by (simp add: counters_nonneg_def clamp_def)

lemma clamp_id [simp]: "counters_nonneg u \<Longrightarrow> clamp u = u"
  by (simp add: counters_nonneg_def clamp_def)

lemma clamp_found [simp]: "uFound (clamp u) = uFound u"
  by (simp add: clamp_def)

lemma no_usage_nonneg [simp]: "counters_nonneg no_usage"
  by (simp add: counters_nonneg_def no_usage_def)

fun firstNonZero :: "i64 list \<Rightarrow> i64" where
  "firstNonZero [] = 0"
| "firstNonZero (v # vs) = (if v \<noteq> 0 then v else firstNonZero vs)"

subsection \<open>Chat Completions\<close>

record openAIUsage =
  ouPromptTokens :: i64
  ouCompletionTokens :: i64
  ouCachedTokens :: i64
  ouDetailCacheWrite :: i64
  ouReasoningTokens :: i64
  ouCacheCreation :: i64
  ouCacheWrite :: i64

definition dec_openAIUsage :: "openAIUsage decoder" where
  "dec_openAIUsage j = do {
     fs \<leftarrow> dec_obj j;
     p \<leftarrow> get_i64 ''prompt_tokens'' fs;
     c \<leftarrow> get_i64 ''completion_tokens'' fs;
     pd \<leftarrow> get_val dec_obj [] ''prompt_tokens_details'' fs;
     ct \<leftarrow> get_i64 ''cached_tokens'' pd;
     cw \<leftarrow> get_i64 ''cache_write_tokens'' pd;
     cd \<leftarrow> get_val dec_obj [] ''completion_tokens_details'' fs;
     rt \<leftarrow> get_i64 ''reasoning_tokens'' cd;
     cc \<leftarrow> get_i64 ''cache_creation_input_tokens'' fs;
     w \<leftarrow> get_i64 ''cache_write_tokens'' fs;
     Some \<lparr>ouPromptTokens = p, ouCompletionTokens = c, ouCachedTokens = ct, ouDetailCacheWrite = cw,
           ouReasoningTokens = rt, ouCacheCreation = cc, ouCacheWrite = w\<rparr> }"

definition openAI_normalize :: "openAIUsage \<Rightarrow> usage" where
  "openAI_normalize u =
     (let write = firstNonZero [ouDetailCacheWrite u, ouCacheCreation u, ouCacheWrite u];
          read = ouCachedTokens u;
          input = ouPromptTokens u - read - write
      in \<lparr>uInput = zero_neg input, uOutput = ouCompletionTokens u, uCacheRead = read,
          uCacheWrite = write, uReasoning = ouReasoningTokens u, uFound = True\<rparr>)"

text \<open>A body or a chunk with a usage object; \<open>None\<close> is an error of Unmarshal.\<close>

definition dec_chat_usage :: "openAIUsage option decoder" where
  "dec_chat_usage j = do { fs \<leftarrow> dec_obj j; get_ptr dec_openAIUsage ''usage'' fs }"

definition parseOpenAIChatUsage :: "string \<Rightarrow> usage" where
  "parseOpenAIChatUsage body =
     (case unmarshal dec_chat_usage body of
        Some (Some u) \<Rightarrow> openAI_normalize u
      | _ \<Rightarrow> no_usage)"

definition DONE :: string where "DONE = ''[DONE]''"

definition openAIChatStream_Feed :: "usage \<Rightarrow> string \<Rightarrow> string \<Rightarrow> usage" where
  "openAIChatStream_Feed s event data =
     (if data = [] \<or> data = DONE then s
      else (case unmarshal dec_chat_usage data of
              Some (Some u) \<Rightarrow> openAI_normalize u
            | _ \<Rightarrow> s))"

subsection \<open>Responses\<close>

record responsesUsage =
  ruInputTokens :: i64
  ruOutputTokens :: i64
  ruCachedTokens :: i64
  ruCacheWrite :: i64
  ruReasoningTokens :: i64

definition dec_responsesUsage :: "responsesUsage decoder" where
  "dec_responsesUsage j = do {
     fs \<leftarrow> dec_obj j;
     i \<leftarrow> get_i64 ''input_tokens'' fs;
     out \<leftarrow> get_i64 ''output_tokens'' fs;
     idt \<leftarrow> get_val dec_obj [] ''input_tokens_details'' fs;
     ct \<leftarrow> get_i64 ''cached_tokens'' idt;
     cw \<leftarrow> get_i64 ''cache_write_tokens'' idt;
     od \<leftarrow> get_val dec_obj [] ''output_tokens_details'' fs;
     rt \<leftarrow> get_i64 ''reasoning_tokens'' od;
     Some \<lparr>ruInputTokens = i, ruOutputTokens = out, ruCachedTokens = ct, ruCacheWrite = cw,
           ruReasoningTokens = rt\<rparr> }"

definition responses_normalize :: "responsesUsage \<Rightarrow> usage" where
  "responses_normalize u =
     (let read = ruCachedTokens u;
          write = ruCacheWrite u;
          input = ruInputTokens u - read - write
      in \<lparr>uInput = zero_neg input, uOutput = ruOutputTokens u, uCacheRead = read,
          uCacheWrite = write, uReasoning = ruReasoningTokens u, uFound = True\<rparr>)"

definition dec_responses_usage :: "responsesUsage option decoder" where
  "dec_responses_usage j = do { fs \<leftarrow> dec_obj j; get_ptr dec_responsesUsage ''usage'' fs }"

definition parseResponsesBodyUsage :: "string \<Rightarrow> usage" where
  "parseResponsesBodyUsage body =
     (case unmarshal dec_responses_usage body of
        Some (Some u) \<Rightarrow> responses_normalize u
      | _ \<Rightarrow> no_usage)"

definition dec_responses_event :: "(string \<times> responsesUsage option option) decoder" where
  "dec_responses_event j = do {
     fs \<leftarrow> dec_obj j;
     t \<leftarrow> get_str ''type'' fs;
     r \<leftarrow> get_ptr dec_responses_usage ''response'' fs;
     Some (t, r) }"

definition is_terminal_response :: "string \<Rightarrow> bool" where
  "is_terminal_response t \<longleftrightarrow>
     t = ''response.completed'' \<or> t = ''response.incomplete'' \<or> t = ''response.failed''"

definition responsesStream_Feed :: "usage \<Rightarrow> string \<Rightarrow> string \<Rightarrow> usage" where
  "responsesStream_Feed s event data =
     (if data = [] then s
      else (case unmarshal dec_responses_event data of
              Some (t, Some (Some u)) \<Rightarrow> if is_terminal_response t then responses_normalize u else s
            | _ \<Rightarrow> s))"

subsection \<open>Anthropic Messages\<close>

record anthropicUsage =
  auInputTokens :: "i64 option"
  auOutputTokens :: "i64 option"
  auCacheRead :: "i64 option"
  auCacheCreation :: "i64 option"

definition dec_anthropicUsage :: "anthropicUsage decoder" where
  "dec_anthropicUsage j = do {
     fs \<leftarrow> dec_obj j;
     i \<leftarrow> get_ptr dec_i64 ''input_tokens'' fs;
     out \<leftarrow> get_ptr dec_i64 ''output_tokens'' fs;
     r \<leftarrow> get_ptr dec_i64 ''cache_read_input_tokens'' fs;
     w \<leftarrow> get_ptr dec_i64 ''cache_creation_input_tokens'' fs;
     Some \<lparr>auInputTokens = i, auOutputTokens = out, auCacheRead = r, auCacheCreation = w\<rparr> }"

definition deref :: "i64 option \<Rightarrow> i64" where
  "deref p = (case p of None \<Rightarrow> 0 | Some v \<Rightarrow> v)"

lemma deref_simps [simp]: "deref None = 0" "deref (Some v) = v"
  by (simp_all add: deref_def)

definition dec_anthropic_usage :: "anthropicUsage option decoder" where
  "dec_anthropic_usage j = do { fs \<leftarrow> dec_obj j; get_ptr dec_anthropicUsage ''usage'' fs }"

definition parseAnthropicMessageUsage :: "string \<Rightarrow> usage" where
  "parseAnthropicMessageUsage body =
     (case unmarshal dec_anthropic_usage body of
        Some (Some u) \<Rightarrow>
          \<lparr>uInput = deref (auInputTokens u), uOutput = deref (auOutputTokens u),
           uCacheRead = deref (auCacheRead u), uCacheWrite = deref (auCacheCreation u),
           uReasoning = 0, uFound = True\<rparr>
      | _ \<Rightarrow> no_usage)"

definition dec_anthropic_event ::
  "(string \<times> anthropicUsage option option \<times> anthropicUsage option) decoder" where
  "dec_anthropic_event j = do {
     fs \<leftarrow> dec_obj j;
     t \<leftarrow> get_str ''type'' fs;
     m \<leftarrow> get_ptr dec_anthropic_usage ''message'' fs;
     u \<leftarrow> get_ptr dec_anthropicUsage ''usage'' fs;
     Some (t, m, u) }"

definition anthropicStream_Feed :: "usage \<Rightarrow> string \<Rightarrow> string \<Rightarrow> usage" where
  "anthropicStream_Feed s event data =
     (if data = [] then s
      else (case unmarshal dec_anthropic_event data of
              None \<Rightarrow> s
            | Some (t, m, du) \<Rightarrow>
                if t = ''message_start'' then
                  (case m of
                     Some (Some u) \<Rightarrow>
                       s\<lparr>uInput := deref (auInputTokens u), uCacheRead := deref (auCacheRead u),
                         uCacheWrite := deref (auCacheCreation u), uOutput := deref (auOutputTokens u),
                         uFound := True\<rparr>
                   | _ \<Rightarrow> s)
                else if t = ''message_delta'' then
                  (case du of
                     Some u \<Rightarrow>
                       s\<lparr>uOutput := (case auOutputTokens u of Some v \<Rightarrow> v | None \<Rightarrow> uOutput s),
                         uInput := (case auInputTokens u of Some v \<Rightarrow> v | None \<Rightarrow> uInput s),
                         uCacheRead := (case auCacheRead u of Some v \<Rightarrow> v | None \<Rightarrow> uCacheRead s),
                         uCacheWrite := (case auCacheCreation u of Some v \<Rightarrow> v | None \<Rightarrow> uCacheWrite s),
                         uFound := True\<rparr>
                   | None \<Rightarrow> s)
                else s))"

subsection \<open>Dispatch on the protocol\<close>

definition ParseUsage :: "protocol \<Rightarrow> string \<Rightarrow> usage" where
  "ParseUsage p body =
     (if p = OpenAIChat then clamp (parseOpenAIChatUsage body)
      else if p = OpenAIResponses then clamp (parseResponsesBodyUsage body)
      else if p = Anthropic then clamp (parseAnthropicMessageUsage body)
      else no_usage)"

datatype stream_parser =
    ChatParser usage
  | ResponsesParser usage
  | AnthropicParser usage
  | NopParser

definition NewStreamParser :: "protocol \<Rightarrow> stream_parser" where
  "NewStreamParser p =
     (if p = OpenAIChat then ChatParser no_usage
      else if p = OpenAIResponses then ResponsesParser no_usage
      else if p = Anthropic then AnthropicParser no_usage
      else NopParser)"

fun parser_Feed :: "stream_parser \<Rightarrow> string \<Rightarrow> string \<Rightarrow> stream_parser" where
  "parser_Feed (ChatParser u) e d = ChatParser (openAIChatStream_Feed u e d)"
| "parser_Feed (ResponsesParser u) e d = ResponsesParser (responsesStream_Feed u e d)"
| "parser_Feed (AnthropicParser u) e d = AnthropicParser (anthropicStream_Feed u e d)"
| "parser_Feed NopParser e d = NopParser"

fun parser_Usage :: "stream_parser \<Rightarrow> usage" where
  "parser_Usage (ChatParser u) = clamp u"
| "parser_Usage (ResponsesParser u) = clamp u"
| "parser_Usage (AnthropicParser u) = clamp u"
| "parser_Usage NopParser = no_usage"

section \<open>Inbound requests\<close>

record request =
  rqModel :: string
  rqStream :: bool
  rqFields :: "(string \<times> json) list"

definition ErrMissingModel :: err where
  "ErrMissingModel = ''request body must include a non-empty '' @ quoted ''model'' @ '' field''"

definition ParseRequest :: "string \<Rightarrow> request result" where
  "ParseRequest body =
     (case unmarshal dec_map body of
        None \<Rightarrow> Inl (''invalid JSON body: '' @ json_err)
      | Some fm \<Rightarrow>
          (let model = (case map_of fm ''model'' of
                          None \<Rightarrow> []
                        | Some raw \<Rightarrow> (case dec_str raw of None \<Rightarrow> [] | Some s \<Rightarrow> s));
               stream = (case map_of fm ''stream'' of
                           None \<Rightarrow> False
                         | Some raw \<Rightarrow> (case dec_bool raw of None \<Rightarrow> False | Some b \<Rightarrow> b))
           in if model = [] then Inl ErrMissingModel
              else Inr \<lparr>rqModel = model, rqStream = stream, rqFields = fm\<rparr>))"

definition Rewrite :: "request \<Rightarrow> protocol \<Rightarrow> string \<Rightarrow> string" where
  "Rewrite r p providerModel =
     (let out = AList.update ''model'' (JStr providerModel) (rqFields r);
          opts = (case map_of out ''stream_options'' of
                    None \<Rightarrow> []
                  | Some raw \<Rightarrow> (case dec_map raw of None \<Rightarrow> [] | Some m \<Rightarrow> m));
          so = jmap (AList.update ''include_usage'' (JBool True) opts)
      in json_text (jmap (if p = OpenAIChat \<and> rqStream r
                          then AList.update ''stream_options'' so out else out)))"

section \<open>Paths\<close>

text \<open>A request path made of \<open>/v1\<close> and the path of a protocol, behind any prefix and with
  or without a trailing slash, is detected as that protocol, for each of the three protocols.\<close>

lemma Detect_UpstreamPath:
  assumes "Valid p"
  shows "Detect (pre @ ''/v1'' @ UpstreamPath p) = Some p
    \<and> Detect (pre @ ''/v1'' @ UpstreamPath p @ ''/'') = Some p"
proof -
  have "trim_suffix ''/'' (s @ ''/'') = s" for s by simp
  moreover have "trim_suffix ''/'' (s @ [c]) = s @ [c]" if "c \<noteq> CHR ''/''" for s c
    using that by (simp add: trim_suffix_def has_suffix_def)
  ultimately show ?thesis using assms
    by (elim ValidE; simp add: Detect_def UpstreamPath_def trim_suffix_def has_suffix_def)
qed

lemma Detect_UpstreamPath_witness:
  "Valid Anthropic \<and> Detect (''/openai'' @ ''/v1'' @ UpstreamPath Anthropic) = Some Anthropic"
  using Detect_UpstreamPath [of Anthropic "''/openai''"] by simp

section \<open>Counters that leave the package are never negative\<close>

text \<open>
  The interface between the metering of a stream and its parser (\<open>StreamParser\<close> in the code):
  the parser is fed the events and asked for the usage. Its contract is that an event without
  data changes nothing and that the usage it gives has no negative counter, which the caller
  relies on (a negative value given to a Prometheus counter panics).
\<close>

locale stream_usage =
  fixes feed :: "'s \<Rightarrow> string \<Rightarrow> string \<Rightarrow> 's"
    and usage_of :: "'s \<Rightarrow> usage"
  assumes usage_nonneg: "counters_nonneg (usage_of s)"
    and feed_empty: "feed s e [] = s"
begin

definition feed_all :: "'s \<Rightarrow> (string \<times> string) list \<Rightarrow> 's" where
  "feed_all s evs = fold (\<lambda>(e, d) t. feed t e d) evs s"

lemma feed_all_simps [simp]:
  "feed_all s [] = s" "feed_all s ((e, d) # evs) = feed_all (feed s e d) evs"
  by (simp_all add: feed_all_def)

lemma feed_all_append: "feed_all s (xs @ ys) = feed_all (feed_all s xs) ys"
  by (simp add: feed_all_def)

lemma feed_all_nonneg: "counters_nonneg (usage_of (feed_all s evs))"
  by (rule usage_nonneg)

lemma feed_all_skip_empty: "feed_all s evs = feed_all s (filter (\<lambda>(e, d). d \<noteq> []) evs)"
  by (induction evs arbitrary: s) (auto simp: feed_empty)

end

lemma parser_Usage_nonneg: "counters_nonneg (parser_Usage s)"
  by (cases s) simp_all

interpretation parser: stream_usage parser_Feed parser_Usage
  by unfold_locales
    (simp_all add: parser_Usage_nonneg, case_tac s,
     simp_all add: openAIChatStream_Feed_def responsesStream_Feed_def anthropicStream_Feed_def)

text \<open>Whatever an upstream sends, the usage of a complete body and the usage accumulated
  over any sequence of stream events have no negative counter, for every protocol.\<close>

lemma usage_never_negative:
  "counters_nonneg (ParseUsage p body)
   \<and> counters_nonneg (parser_Usage (fold (\<lambda>(e, d) t. parser_Feed t e d) evs (NewStreamParser p)))"
  using parser.feed_all_nonneg [of "NewStreamParser p" evs]
  by (simp add: ParseUsage_def parser.feed_all_def)

section \<open>Normalisation\<close>

text \<open>The prompt count is split into the uncached part, the cache reads and the cache writes.\<close>

definition small :: "i64 \<Rightarrow> bool" where
  "small w \<longleftrightarrow> 0 \<le> sint w \<and> sint w < 2 ^ 61"

lemma split_counts:
  assumes "small t" and "small r" and "small w" and "sint r + sint w \<le> sint t"
  shows "sint (zero_neg (t - r - w)) = sint t - sint r - sint w"
proof -
  have 1: "sint (t - r) = sint t - sint r"
    using assms by (intro sint_sub64) (auto simp: small_def in_i64_def)
  have 2: "sint (t - r - w) = sint t - sint r - sint w"
    unfolding 1 [symmetric] using assms 1 by (intro sint_sub64) (auto simp: small_def in_i64_def)
  with assms show ?thesis by simp
qed

text \<open>C36: no prompt token is lost or counted twice by the normalisation of a Chat Completions
  usage object: when the counters are plausible (not negative, below 2^61, cached and written
  tokens within the prompt), uncached input, cache reads and cache writes add up to the
  prompt count, and the total is prompt plus completion.\<close>

lemma normalize_conserves_prompt:
  assumes "small (ouPromptTokens u)" and "small (ouCachedTokens u)" and "small (ouCompletionTokens u)"
    and "w = firstNonZero [ouDetailCacheWrite u, ouCacheCreation u, ouCacheWrite u]" and "small w"
    and "sint (ouCachedTokens u) + sint w \<le> sint (ouPromptTokens u)"
    and "n = openAI_normalize u"
  shows "sint (uInput n) + sint (uCacheRead n) + sint (uCacheWrite n) = sint (ouPromptTokens u)
    \<and> Total n = ouPromptTokens u + ouCompletionTokens u"
proof -
  have w: "firstNonZero [ouDetailCacheWrite u, ouCacheCreation u, ouCacheWrite u] = w"
    using assms(4) by simp
  let ?i = "ouPromptTokens u - ouCachedTokens u - w"
  have i: "sint (zero_neg ?i) = sint (ouPromptTokens u) - sint (ouCachedTokens u) - sint w"
    using assms by (intro split_counts) auto
  moreover have "zero_neg ?i = ?i"
  proof -
    have "i64_of (sint (zero_neg ?i)) = ?i" unfolding i by (simp add: i64_of_def)
    then show ?thesis by simp
  qed
  moreover have "n = \<lparr>uInput = zero_neg ?i, uOutput = ouCompletionTokens u,
      uCacheRead = ouCachedTokens u, uCacheWrite = w, uReasoning = ouReasoningTokens u, uFound = True\<rparr>"
    unfolding assms(7) openAI_normalize_def Let_def w by simp
  ultimately show ?thesis by (simp add: Total_def)
qed

definition sample_usage :: openAIUsage where
  "sample_usage = \<lparr>ouPromptTokens = 100, ouCompletionTokens = 7, ouCachedTokens = 60,
     ouDetailCacheWrite = 0, ouReasoningTokens = 3, ouCacheCreation = 30, ouCacheWrite = 0\<rparr>"

lemma sample_usage_normal:
  "openAI_normalize sample_usage = \<lparr>uInput = 10, uOutput = 7, uCacheRead = 60, uCacheWrite = 30,
     uReasoning = 3, uFound = True\<rparr>"
  by (simp add: openAI_normalize_def sample_usage_def)

lemma normalize_conserves_prompt_witness:
  "sint (uInput (openAI_normalize sample_usage)) + sint (uCacheRead (openAI_normalize sample_usage))
     + sint (uCacheWrite (openAI_normalize sample_usage)) = 100
   \<and> Total (openAI_normalize sample_usage) = 107"
proof -
  have "small (ouPromptTokens sample_usage)" "small (ouCachedTokens sample_usage)"
    "small (ouCompletionTokens sample_usage)" "small 30"
    "30 = firstNonZero [ouDetailCacheWrite sample_usage, ouCacheCreation sample_usage, ouCacheWrite sample_usage]"
    "sint (ouCachedTokens sample_usage) + sint (30 :: i64) \<le> sint (ouPromptTokens sample_usage)"
    by (simp_all add: sample_usage_def small_def)
  note h = this
  have "sint (ouPromptTokens sample_usage) = 100" "ouPromptTokens sample_usage + ouCompletionTokens sample_usage = 107"
    by (simp_all add: sample_usage_def)
  with normalize_conserves_prompt [OF h(1,2,3,5,4,6) refl] show ?thesis by metis
qed

section \<open>Rewriting the request\<close>

text \<open>A parsed request holds a map of valid values.\<close>

lemma ParseRequest_wf: "ParseRequest body = Inr r \<Longrightarrow> map_ok (rqFields r)"
  by (auto simp: ParseRequest_def Let_def unmarshal_map_ok split: option.splits if_splits)

definition rewrite_map :: "request \<Rightarrow> protocol \<Rightarrow> string \<Rightarrow> (string \<times> json) list" where
  "rewrite_map r p m =
     (let out = AList.update ''model'' (JStr m) (rqFields r);
          opts = (case map_of out ''stream_options'' of
                    None \<Rightarrow> []
                  | Some raw \<Rightarrow> (case dec_map raw of None \<Rightarrow> [] | Some m \<Rightarrow> m));
          so = jmap (AList.update ''include_usage'' (JBool True) opts)
      in if p = OpenAIChat \<and> rqStream r then AList.update ''stream_options'' so out else out)"

lemma Rewrite_map: "Rewrite r p m = json_text (jmap (rewrite_map r p m))"
  by (simp add: Rewrite_def rewrite_map_def Let_def)

lemma stream_options_ok:
  assumes "map_ok out"
  shows "map_ok (case map_of out ''stream_options'' of
      None \<Rightarrow> [] | Some raw \<Rightarrow> (case dec_map raw of None \<Rightarrow> [] | Some m \<Rightarrow> m))"
  using map_ok_lookup [OF assms] by (auto split: option.split intro: dec_map_ok)

lemma rewrite_map_ok: "map_ok (rqFields r) \<Longrightarrow> map_ok (rewrite_map r p m)"
  by (simp add: rewrite_map_def Let_def stream_options_ok)

lemma rewrite_map_lookup:
  assumes "map_ok (rqFields r)"
  shows "map_of (rewrite_map r p m) ''model'' = Some (JStr m)"
    and "k \<noteq> ''model'' \<Longrightarrow> k \<noteq> ''stream_options'' \<Longrightarrow>
      map_of (rewrite_map r p m) k = map_of (rqFields r) k"
    and "\<not> (p = OpenAIChat \<and> rqStream r) \<Longrightarrow>
      map_of (rewrite_map r p m) ''stream_options'' = map_of (rqFields r) ''stream_options''"
    and "p = OpenAIChat \<Longrightarrow> rqStream r \<Longrightarrow> \<exists>so. map_ok so
      \<and> map_of (rewrite_map r p m) ''stream_options'' = Some (jmap so)
      \<and> map_of so ''include_usage'' = Some (JBool True)"
proof -
  show "map_of (rewrite_map r p m) ''model'' = Some (JStr m)"
    and "k \<noteq> ''model'' \<Longrightarrow> k \<noteq> ''stream_options'' \<Longrightarrow>
      map_of (rewrite_map r p m) k = map_of (rqFields r) k"
    and "\<not> (p = OpenAIChat \<and> rqStream r) \<Longrightarrow>
      map_of (rewrite_map r p m) ''stream_options'' = map_of (rqFields r) ''stream_options''"
    by (auto simp: rewrite_map_def Let_def update_conv')
  show "\<exists>so. map_ok so \<and> map_of (rewrite_map r p m) ''stream_options'' = Some (jmap so)
      \<and> map_of so ''include_usage'' = Some (JBool True)" if "p = OpenAIChat" "rqStream r"
    using that stream_options_ok [of "AList.update ''model'' (JStr m) (rqFields r)"] assms
    by (intro exI conjI) (auto simp: rewrite_map_def Let_def update_conv')
qed

lemma ParseRequest_map:
  assumes "map_ok fm" and "map_of fm ''model'' = Some (JStr m)" and "m \<noteq> []"
  shows "ParseRequest (json_text (jmap fm)) =
    Inr \<lparr>rqModel = m,
         rqStream = (case map_of fm ''stream'' of
                       None \<Rightarrow> False
                     | Some raw \<Rightarrow> (case dec_bool raw of None \<Rightarrow> False | Some b \<Rightarrow> b)),
         rqFields = sort_key fst fm\<rparr>"
  using assms by (simp add: ParseRequest_def Let_def unmarshal_map del: unmarshal_text)

lemma ParseRequest_stream:
  "ParseRequest body = Inr r \<Longrightarrow>
   rqStream r = (case map_of (rqFields r) ''stream'' of
                   None \<Rightarrow> False
                 | Some raw \<Rightarrow> (case dec_bool raw of None \<Rightarrow> False | Some b \<Rightarrow> b))"
  by (auto simp: ParseRequest_def Let_def split: option.splits if_splits)

text \<open>C37: pass-through rewriting replaces the model and nothing else: parsing the rewritten
  body gives the provider's model, the same stream flag and every other field unchanged, except
  that a streamed Chat Completions request asks for usage in \<open>stream_options\<close>.\<close>

lemma Rewrite_preserves_request:
  assumes "ParseRequest body = Inr r" and "m \<noteq> []"
  shows "\<exists>r'. ParseRequest (Rewrite r p m) = Inr r' \<and> rqModel r' = m \<and> rqStream r' = rqStream r
    \<and> (\<forall>k. k \<noteq> ''model'' \<longrightarrow> k \<noteq> ''stream_options'' \<longrightarrow> map_of (rqFields r') k = map_of (rqFields r) k)
    \<and> (if p = OpenAIChat \<and> rqStream r
       then \<exists>so. map_of (rqFields r') ''stream_options'' = Some (jmap so)
              \<and> map_of so ''include_usage'' = Some (JBool True)
       else map_of (rqFields r') ''stream_options'' = map_of (rqFields r) ''stream_options'')"
proof -
  have wf: "map_ok (rqFields r)" using assms(1) by (rule ParseRequest_wf)
  note ok = rewrite_map_ok [OF wf, of p m] and look = rewrite_map_lookup [OF wf, where p = p and m = m]
  have s: "map_of (rewrite_map r p m) ''stream'' = map_of (rqFields r) ''stream''"
    by (rule look(2)) simp_all
  have sorted: "map_of (sort_key fst (rewrite_map r p m)) = map_of (rewrite_map r p m)"
    using ok by (rule map_of_sorted)
  let ?r' = "\<lparr>rqModel = m, rqStream = rqStream r, rqFields = sort_key fst (rewrite_map r p m)\<rparr>"
  have parse: "ParseRequest (Rewrite r p m) = Inr ?r'"
    using ParseRequest_map [OF ok look(1) assms(2)]
    unfolding Rewrite_map s ParseRequest_stream [OF assms(1), symmetric] .
  show ?thesis
  proof (intro exI [of _ ?r'] conjI parse)
    show "if p = OpenAIChat \<and> rqStream r
      then \<exists>so. map_of (rqFields ?r') ''stream_options'' = Some (jmap so)
             \<and> map_of so ''include_usage'' = Some (JBool True)
      else map_of (rqFields ?r') ''stream_options'' = map_of (rqFields r) ''stream_options''"
      unfolding request.simps sorted
      by (rule iffD2 [OF if_bool_eq_conj]) (use look(3,4) in blast)
  qed (use look(2) sorted in simp_all)
qed

lemma Rewrite_preserves_request_witness:
  "\<exists>r r'. ParseRequest (json_text (JObj [(''model'', JStr ''a''), (''stream'', JBool True)])) = Inr r
    \<and> rqModel r = ''a''
    \<and> ParseRequest (Rewrite r OpenAIChat ''b'') = Inr r' \<and> rqModel r' = ''b'' \<and> rqStream r'"
proof -
  let ?fs = "[(''model'', JStr ''a''), (''stream'', JBool True)]"
  let ?r = "\<lparr>rqModel = ''a'', rqStream = True, rqFields = ?fs\<rparr>"
  have p: "ParseRequest (json_text (JObj ?fs)) = Inr ?r"
    by (simp add: ParseRequest_def dec_map_def Let_def)
  from Rewrite_preserves_request [OF p, of "''b''" OpenAIChat] p show ?thesis by auto
qed

end
