(* ===== verification/GwErrors.thy ===== *)
theory GwErrors
  imports Protocol ControlPlane
begin

text \<open>
  \<^verbatim>\<open>internal/protocol/errors.go\<close>: the errors the gateway itself answers with, and how a rejection
  by the control plane becomes one. Write gives the response as its status, its content type
  and its body.
\<close>

record GatewayError =
  geStatus :: int
  geType :: string
  geCode :: string
  geMessage :: string

definition ErrUnauthorized :: "string \<Rightarrow> GatewayError" where
  "ErrUnauthorized msg = \<lparr>geStatus = 401, geType = ''authentication_error'', geCode = ''invalid_api_key'', geMessage = msg\<rparr>"

definition ErrBadRequest :: "string \<Rightarrow> GatewayError" where
  "ErrBadRequest msg = \<lparr>geStatus = 400, geType = ''invalid_request_error'', geCode = [], geMessage = msg\<rparr>"

definition ErrNotFound :: "string \<Rightarrow> GatewayError" where
  "ErrNotFound msg = \<lparr>geStatus = 404, geType = ''not_found_error'', geCode = ''model_not_found'', geMessage = msg\<rparr>"

definition ErrUnavailable :: "string \<Rightarrow> GatewayError" where
  "ErrUnavailable msg = \<lparr>geStatus = 503, geType = ''api_error'', geCode = ''service_unavailable'', geMessage = msg\<rparr>"

definition ErrBadGateway :: "string \<Rightarrow> GatewayError" where
  "ErrBadGateway msg = \<lparr>geStatus = 502, geType = ''api_error'', geCode = ''upstream_error'', geMessage = msg\<rparr>"

definition FromReject :: "RejectReason \<Rightarrow> string \<Rightarrow> GatewayError" where
  "FromReject reason msg0 =
     (let msg = (if msg0 = [] then reason else msg0)
      in if reason = RejectKeyNotFound \<or> reason = RejectKeyDisabled
         then \<lparr>geStatus = 401, geType = ''authentication_error'', geCode = ''invalid_api_key'', geMessage = msg\<rparr>
         else if reason = RejectModelNotAllowed
         then \<lparr>geStatus = 403, geType = ''permission_error'', geCode = ''model_not_allowed'', geMessage = msg\<rparr>
         else if reason = RejectModelNoProvider
         then \<lparr>geStatus = 404, geType = ''not_found_error'', geCode = ''model_not_found'', geMessage = msg\<rparr>
         else if reason = RejectRPMExceeded \<or> reason = RejectTPMExceeded
         then \<lparr>geStatus = 429, geType = ''rate_limit_error'', geCode = ''rate_limit_exceeded'', geMessage = msg\<rparr>
         else if reason = RejectQuotaExhausted
         then \<lparr>geStatus = 429, geType = ''rate_limit_error'', geCode = ''insufficient_quota'', geMessage = msg\<rparr>
         else \<lparr>geStatus = 403, geType = ''permission_error'', geCode = reason, geMessage = msg\<rparr>)"

text \<open>
  What a handler passes to its ResponseWriter. \<open>WriteHeader\<close> of net/http panics for a status that has not three
  digits: then \<open>hrPanics\<close> holds, and neither status nor body are sent.
\<close>

definition header_status :: "int \<Rightarrow> bool" where
  "header_status st \<longleftrightarrow> 100 \<le> st \<and> st \<le> 999"

record http_response =
  hrStatus :: int
  hrContentType :: string
  hrBody :: string
  hrPanics :: bool

definition error_json :: "GatewayError \<Rightarrow> protocol \<Rightarrow> json" where
  "error_json e p =
     (if p = Anthropic
      then jmap [(''type'', JStr ''error''),
                 (''error'', jmap [(''type'', JStr (geType e)), (''message'', JStr (geMessage e))])]
      else jmap [(''error'', jmap [(''message'', JStr (geMessage e)), (''type'', JStr (geType e)),
                                   (''param'', JNull), (''code'', JStr (geCode e))])])"

definition Write :: "GatewayError \<Rightarrow> protocol \<Rightarrow> http_response" where
  "Write e p = \<lparr>hrStatus = geStatus e, hrContentType = ''application/json'',
     hrBody = json_text (error_json e p) @ [CHR 10], hrPanics = (\<not> header_status (geStatus e))\<rparr>"

section \<open>Properties\<close>

lemma error_json_ok [simp]: "json_ok (error_json e p)"
  by (auto simp: error_json_def intro!: jmap_ok simp: map_ok_def)

text \<open>The client's reading of the error object: type and message.\<close>

definition read_error :: "(string \<times> string) decoder" where
  "read_error j = do {
     fs \<leftarrow> dec_obj j;
     e \<leftarrow> get_val dec_obj [] ''error'' fs;
     t \<leftarrow> get_str ''type'' e;
     m \<leftarrow> get_str ''message'' e;
     Some (t, m) }"

lemma read_error_json: "read_error (error_json e p) = Some (geType e, geMessage e)"
  by (simp add: error_json_def read_error_def json_dec jmap_def)

text \<open>A rejection is answered in the range 4xx with the status of its reason: the client
  is told to slow down (429) exactly for the rate and quota reasons, to change its key (401) exactly for
  the two key reasons; the message is the control plane's or, without one, the reason; and in
  the format of every protocol the body parses back to the error's type and message.\<close>

theorem FromReject_answer:
  "(geStatus (FromReject reason msg) = 429 \<longleftrightarrow>
       reason \<in> {RejectRPMExceeded, RejectTPMExceeded, RejectQuotaExhausted})
   \<and> (geStatus (FromReject reason msg) = 401 \<longleftrightarrow> reason \<in> {RejectKeyNotFound, RejectKeyDisabled})
   \<and> geStatus (FromReject reason msg) \<in> {401, 403, 404, 429}
   \<and> geMessage (FromReject reason msg) = (if msg = [] then reason else msg)
   \<and> hrStatus (Write (FromReject reason msg) p) = geStatus (FromReject reason msg)
   \<and> Option.bind (json_parse (hrBody (Write (FromReject reason msg) p))) read_error
       = Some (geType (FromReject reason msg), geMessage (FromReject reason msg))"
proof (intro conjI)
  show "Option.bind (json_parse (hrBody (Write (FromReject reason msg) p))) read_error
       = Some (geType (FromReject reason msg), geMessage (FromReject reason msg))"
    by (simp add: Write_def read_error_json)
qed (simp_all add: FromReject_def Write_def reject_defs)

end
