(* ===== verification/IR.thy ===== *)
theory IR
  imports Protocol
begin

text \<open>
  The intermediate representation of the package \<^verbatim>\<open>internal/protocol/translate\<close> (\<^verbatim>\<open>ir.go\<close>, \<^verbatim>\<open>ids.go\<close>).
  The structs tagged with a kind are datatypes whose constructors hold the fields that are used
  with that kind. A RawMessage is the JSON value it holds, \<open>None\<close> when its length is 0; its
  text, where the code takes it, is the compact one. A float64 is kept as its literal.
\<close>

section \<open>Requests and responses\<close>

datatype Role = RoleSystem | RoleUser | RoleAssistant | RoleTool

datatype Content =
    KindText string
  | KindThinking string string "json option"
  | KindToolUse string string "json option"
  | KindToolResult string "json option" bool
  | KindImage string string string

record Message =
  mRole :: Role
  mContent :: "Content list"

record Tool =
  tName :: string
  tDescription :: string
  tSchema :: "json option"

datatype ToolChoiceMode =
  ToolChoiceUnset | ToolChoiceAuto | ToolChoiceNone | ToolChoiceRequired | ToolChoiceNamed

record ToolChoice =
  tcMode :: ToolChoiceMode
  tcName :: string

definition no_choice :: ToolChoice where
  "no_choice = \<lparr>tcMode = ToolChoiceUnset, tcName = []\<rparr>"

definition choice :: "ToolChoiceMode \<Rightarrow> ToolChoice" where
  "choice m = \<lparr>tcMode = m, tcName = []\<rparr>"

definition named_choice :: "string \<Rightarrow> ToolChoice" where
  "named_choice n = \<lparr>tcMode = ToolChoiceNamed, tcName = n\<rparr>"

record Request =
  rModel :: string
  rSystem :: "Content list"
  rMessages :: "Message list"
  rTools :: "Tool list"
  rToolChoice :: ToolChoice
  rParallelToolCalls :: "bool option"
  rMaxTokens :: "i64 option"
  rTemperature :: "string option"
  rTopP :: "string option"
  rStop :: "string list"
  rStream :: bool
  rResponseFormat :: "json option"

datatype StopReason =
  StopUnset | StopEndTurn | StopMaxTokens | StopToolUse | StopStopSequence | StopContentFilter | StopOther

record Response =
  sID :: string
  sModel :: string
  sContent :: "Content list"
  sStopReason :: StopReason
  sUsage :: usage

record Options =
  oDefaultMaxTokens :: i64
  oTargetIsBedrock :: bool

definition DefaultMaxTokens :: i64 where "DefaultMaxTokens = 8192"

text \<open>A request with these messages, for the examples.\<close>

definition plain_request :: "Message list \<Rightarrow> Request" where
  "plain_request ms = \<lparr>rModel = ''m'', rSystem = [KindText ''s''], rMessages = ms, rTools = [],
     rToolChoice = no_choice, rParallelToolCalls = None, rMaxTokens = Some 5, rTemperature = None,
     rTopP = None, rStop = [], rStream = True, rResponseFormat = None\<rparr>"

section \<open>Stream events\<close>

datatype StreamEvent =
    EventMessageStart string string usage
  | EventTextDelta int string
  | EventThinkingDelta int string
  | EventThinkingDone int string string "json option"
  | EventToolUseStart int string string
  | EventToolInputDelta int string string string
  | EventToolUseStop int string string
  | EventMessageStop StopReason usage
  | EventError err

section \<open>Server-sent events\<close>

text \<open>
  One frame as an encoder writes it: \<open>sse(event, v)\<close>, a data-only frame, or the terminator of
  Chat Completions.
\<close>

datatype frame = Named string json | Data json | DoneFrame

fun frame_bytes :: "frame \<Rightarrow> string" where
  "frame_bytes (Named e j) = ''event: '' @ e @ [CHR 10] @ ''data: '' @ json_text j @ [CHR 10, CHR 10]"
| "frame_bytes (Data j) = ''data: '' @ json_text j @ [CHR 10, CHR 10]"
| "frame_bytes DoneFrame = ''data: [DONE]'' @ [CHR 10, CHR 10]"

definition stream_bytes :: "frame list \<Rightarrow> string" where
  "stream_bytes fs = concat (map frame_bytes fs)"

lemma stream_bytes_simps [simp]:
  "stream_bytes [] = []" "stream_bytes (f # fs) = frame_bytes f @ stream_bytes fs"
  "stream_bytes (fs @ gs) = stream_bytes fs @ stream_bytes gs"
  by (simp_all add: stream_bytes_def)

section \<open>Random ids and the clock\<close>

text \<open>
  \<open>eRand k\<close> is the result of the \<open>k\<close>-th \<open>rand.Read\<close> of 12 bytes, \<open>eNow\<close> the Unix time; both are
  arguments. The state of an encoder counts the draws.
\<close>

record env =
  eRand :: "nat \<Rightarrow> string"
  eNow :: int

definition hex_encode :: "string \<Rightarrow> string" where
  "hex_encode bs = concat (map (\<lambda>b. [hex_digit (ord b div 16), hex_digit (ord b mod 16)]) bs)"

definition randomID :: "env \<Rightarrow> nat \<Rightarrow> string" where
  "randomID e k = hex_encode (take 12 (eRand e k))"

text \<open>An id that is synthesised when the upstream gave none; the second component counts the draw.\<close>

definition id_or :: "env \<Rightarrow> string \<Rightarrow> nat \<Rightarrow> string \<Rightarrow> string \<times> nat" where
  "id_or e prefix k i = (if i = [] then (prefix @ randomID e k, Suc k) else (i, k))"

lemma id_or_nonempty: "prefix \<noteq> [] \<Longrightarrow> fst (id_or e prefix k i) \<noteq> []"
  by (simp add: id_or_def)

section \<open>Raw messages\<close>

text \<open>The text of a raw message, and the string a raw message holds when it is a JSON string.\<close>

definition raw_text :: "json option \<Rightarrow> string" where
  "raw_text r = (case r of None \<Rightarrow> [] | Some j \<Rightarrow> json_text j)"

definition text_or_braces :: "json option \<Rightarrow> string" where
  "text_or_braces r = (let s = raw_text r in if s = [] then ''{}'' else s)"

definition empty_object_schema :: json where
  "empty_object_schema = JObj [(''type'', JStr ''object''), (''properties'', JObj [])]"

text \<open>The probe of an opaque reasoning payload for its type and data.\<close>

definition probe_type :: "json option \<Rightarrow> string option" where
  "probe_type r = (case r of None \<Rightarrow> None | Some j \<Rightarrow> do { fs \<leftarrow> dec_obj j; get_str ''type'' fs })"

definition probe_data :: "json option \<Rightarrow> (string \<times> string) option" where
  "probe_data r = (case r of None \<Rightarrow> None | Some j \<Rightarrow>
     do { fs \<leftarrow> dec_obj j; t \<leftarrow> get_str ''type'' fs; d \<leftarrow> get_str ''data'' fs; Some (t, d) })"

definition redacted_payload :: "string \<Rightarrow> json" where
  "redacted_payload d = jmap [(''type'', JStr ''redacted_thinking''), (''data'', JStr d)]"

lemma probe_redacted [simp]: "probe_data (Some (redacted_payload d)) = Some (''redacted_thinking'', d)"
  by (simp add: probe_data_def redacted_payload_def jmap_def json_dec)

section \<open>Encoders and the clients that read them\<close>

text \<open>All events through an encoder, and all frames through a client that may refuse one.\<close>

fun encode_all :: "('s \<Rightarrow> StreamEvent \<Rightarrow> 's \<times> frame list) \<Rightarrow> 's \<Rightarrow> StreamEvent list \<Rightarrow> 's \<times> frame list" where
  "encode_all enc s [] = (s, [])"
| "encode_all enc s (ev # evs) =
     (let (s1, out1) = enc s ev; (s2, out2) = encode_all enc s1 evs in (s2, out1 @ out2))"

fun client_run :: "('c \<Rightarrow> frame \<Rightarrow> 'c option) \<Rightarrow> 'c \<Rightarrow> frame list \<Rightarrow> 'c option" where
  "client_run check c [] = Some c"
| "client_run check c (f # fs) = Option.bind (check c f) (\<lambda>c1. client_run check c1 fs)"

lemma client_run_append [simp]:
  "client_run check c (fs @ gs) = Option.bind (client_run check c fs) (\<lambda>c1. client_run check c1 gs)"
  by (induction fs arbitrary: c) (simp_all add: Option.bind_assoc)

lemma encode_all_append:
  "encode_all enc s (evs @ evs') =
     (let (s1, out1) = encode_all enc s evs; (s2, out2) = encode_all enc s1 evs' in (s2, out1 @ out2))"
  by (induction evs arbitrary: s) (simp_all add: Let_def split: prod.splits)

text \<open>
  The interface between an encoder (\<open>StreamEncoder\<close> in the code) and the client of its
  protocol: a relation between the encoder's state and the client's, kept by every event the
  encoder may be given, under which the client accepts the frames.
\<close>

locale stream_encoder =
  fixes enc :: "'s \<Rightarrow> StreamEvent \<Rightarrow> 's \<times> frame list"
    and check :: "'c \<Rightarrow> frame \<Rightarrow> 'c option"
    and good :: "StreamEvent \<Rightarrow> bool"
    and rel :: "'s \<Rightarrow> 'c \<Rightarrow> bool"
  assumes simulation: "rel s c \<Longrightarrow> good ev \<Longrightarrow>
    \<exists>c'. client_run check c (snd (enc s ev)) = Some c' \<and> rel (fst (enc s ev)) c'"
begin

lemma accepted:
  "rel s c \<Longrightarrow> \<forall>ev \<in> set evs. good ev \<Longrightarrow>
   \<exists>c'. client_run check c (snd (encode_all enc s evs)) = Some c' \<and> rel (fst (encode_all enc s evs)) c'"
proof (induction evs arbitrary: s c)
  case (Cons ev evs)
  obtain c1 where c1: "client_run check c (snd (enc s ev)) = Some c1" "rel (fst (enc s ev)) c1"
    using simulation Cons.prems by fastforce
  with Cons show ?case by (fastforce simp: Let_def split: prod.splits)
qed simp

lemma accepted_then:
  assumes "rel s c" and "\<forall>ev \<in> set (evs @ [ev]). good ev"
    and "\<And>s c c'. rel s c \<Longrightarrow> client_run check c (snd (enc s ev)) = Some c' \<Longrightarrow> P c'"
  shows "\<exists>c'. client_run check c (snd (encode_all enc s (evs @ [ev]))) = Some c' \<and> P c'"
proof -
  obtain c1 where c1: "client_run check c (snd (encode_all enc s evs)) = Some c1"
      "rel (fst (encode_all enc s evs)) c1"
    using accepted [of s c evs] assms by auto
  obtain c2 where "client_run check c1 (snd (enc (fst (encode_all enc s evs)) ev)) = Some c2"
    using simulation [OF c1(2), of ev] assms(2) by auto
  with c1 assms(3) show ?thesis
    by (auto simp: encode_all_append Let_def split: prod.splits)
qed

end

section \<open>Decoders and their contract\<close>

text \<open>The events of a decoder up to its first error, and the error.\<close>

fun decode_all :: "('s \<Rightarrow> string \<Rightarrow> ('s \<times> StreamEvent list) result) \<Rightarrow> 's \<Rightarrow> string list
    \<Rightarrow> StreamEvent list \<times> err option" where
  "decode_all dec s [] = ([], None)"
| "decode_all dec s (d # ds) =
     (case dec s d of
        Inl e \<Rightarrow> ([], Some e)
      | Inr (s1, evs) \<Rightarrow> (let (evs2, e) = decode_all dec s1 ds in (evs @ evs2, e)))"

text \<open>
  The contract of \<^verbatim>\<open>ir.go\<close> for a stream: one MessageStart first, at most one MessageStop, and tool
  blocks that never overlap: a tool's stop comes before the next start, and its arguments
  in between. The state is the phase (0 before, 1 in and 2 after the message) and the open tool.
\<close>

fun ir_contract :: "nat \<times> int option \<Rightarrow> StreamEvent \<Rightarrow> (nat \<times> int option) option" where
  "ir_contract (p, op) (EventMessageStart i m u) = (if p = 0 then Some (1, op) else None)"
| "ir_contract (p, op) (EventTextDelta i t) = (if p = 0 then None else Some (p, op))"
| "ir_contract (p, op) (EventThinkingDelta i t) = (if p = 0 then None else Some (p, op))"
| "ir_contract (p, op) (EventThinkingDone i t s r) = (if p = 0 then None else Some (p, op))"
| "ir_contract (p, op) (EventToolUseStart i c n) = (if p = 0 \<or> op \<noteq> None then None else Some (p, Some i))"
| "ir_contract (p, op) (EventToolInputDelta i c n d) = (if op = Some i then Some (p, op) else None)"
| "ir_contract (p, op) (EventToolUseStop i c n) = (if op = Some i then Some (p, None) else None)"
| "ir_contract (p, op) (EventMessageStop r u) = (if p = 1 \<and> op = None then Some (2, None) else None)"
| "ir_contract (p, op) (EventError m) = Some (p, op)"

fun contract_run :: "nat \<times> int option \<Rightarrow> StreamEvent list \<Rightarrow> (nat \<times> int option) option" where
  "contract_run c [] = Some c"
| "contract_run c (ev # evs) = Option.bind (ir_contract c ev) (\<lambda>c1. contract_run c1 evs)"

lemma contract_run_append [simp]:
  "contract_run c (xs @ ys) = Option.bind (contract_run c xs) (\<lambda>c1. contract_run c1 ys)"
  by (induction xs arbitrary: c) (simp_all add: Option.bind_assoc)

locale stream_decoder =
  fixes dec :: "'s \<Rightarrow> string \<Rightarrow> ('s \<times> StreamEvent list) result"
    and good :: "string \<Rightarrow> bool"
    and rel :: "'s \<Rightarrow> nat \<times> int option \<Rightarrow> bool"
  assumes contract: "rel s c \<Longrightarrow> good d \<Longrightarrow> dec s d = Inr (s', evs) \<Longrightarrow>
    \<exists>c'. contract_run c evs = Some c' \<and> rel s' c'"
begin

lemma decode_contract:
  "rel s c \<Longrightarrow> \<forall>d \<in> set ds. good d \<Longrightarrow> \<exists>c'. contract_run c (fst (decode_all dec s ds)) = Some c'"
proof (induction ds arbitrary: s c)
  case (Cons d ds)
  show ?case
  proof (cases "dec s d")
    case (Inr p)
    obtain s1 evs where p: "p = (s1, evs)" by fastforce
    with contract [OF Cons.prems(1)] Cons.prems(2) Inr obtain c1 where
        "contract_run c evs = Some c1" "rel s1 c1" by force
    with Cons p Inr show ?thesis by (simp add: Let_def split_beta)
  qed simp
qed simp

end

end
