(* ===== verification/ReqAnthropic.thy ===== *)
theory ReqAnthropic
  imports IR
begin

text \<open>
  \<^verbatim>\<open>translate/anthropic.go\<close>: the request codec of the Anthropic Messages API. Each wire struct is
  a record with its decoder and its encoder; fields that are only decoded to be ignored
  (\<open>metadata\<close>, \<open>thinking\<close>) have no field here.
\<close>

section \<open>Wire types\<close>

record anthropicImageSource =
  isType :: string
  isMediaType :: string
  isData :: string
  isURL :: string

definition dec_imageSource :: "anthropicImageSource decoder" where
  "dec_imageSource j = do {
     fs \<leftarrow> dec_obj j;
     t \<leftarrow> get_str ''type'' fs;
     m \<leftarrow> get_str ''media_type'' fs;
     d \<leftarrow> get_str ''data'' fs;
     u \<leftarrow> get_str ''url'' fs;
     Some \<lparr>isType = t, isMediaType = m, isData = d, isURL = u\<rparr> }"

definition enc_imageSource :: "anthropicImageSource \<Rightarrow> json" where
  "enc_imageSource s = JObj ([(''type'', JStr (isType s))] @ opt_str ''media_type'' (isMediaType s)
     @ opt_str ''data'' (isData s) @ opt_str ''url'' (isURL s))"

record anthropicBlock =
  abType :: string
  abText :: string
  abThinking :: string
  abSignature :: string
  abData :: string
  abID :: string
  abName :: string
  abInput :: "json option"
  abToolUseID :: string
  abContent :: "json option"
  abIsError :: bool
  abSource :: "anthropicImageSource option"
  abCacheControl :: "json option"

definition no_block :: "string \<Rightarrow> anthropicBlock" where
  "no_block t = \<lparr>abType = t, abText = [], abThinking = [], abSignature = [], abData = [], abID = [],
     abName = [], abInput = None, abToolUseID = [], abContent = None, abIsError = False,
     abSource = None, abCacheControl = None\<rparr>"

definition dec_anthropicBlock :: "anthropicBlock decoder" where
  "dec_anthropicBlock j = do {
     fs \<leftarrow> dec_obj j;
     t \<leftarrow> get_str ''type'' fs;
     tx \<leftarrow> get_str ''text'' fs;
     th \<leftarrow> get_str ''thinking'' fs;
     sg \<leftarrow> get_str ''signature'' fs;
     d \<leftarrow> get_str ''data'' fs;
     i \<leftarrow> get_str ''id'' fs;
     n \<leftarrow> get_str ''name'' fs;
     tu \<leftarrow> get_str ''tool_use_id'' fs;
     e \<leftarrow> get_bool ''is_error'' fs;
     s \<leftarrow> get_ptr dec_imageSource ''source'' fs;
     Some \<lparr>abType = t, abText = tx, abThinking = th, abSignature = sg, abData = d, abID = i,
       abName = n, abInput = get_raw ''input'' fs, abToolUseID = tu,
       abContent = get_raw ''content'' fs, abIsError = e, abSource = s,
       abCacheControl = get_raw ''cache_control'' fs\<rparr> }"

definition enc_anthropicBlock :: "anthropicBlock \<Rightarrow> json" where
  "enc_anthropicBlock b = JObj ([(''type'', JStr (abType b))] @ opt_str ''text'' (abText b)
     @ opt_str ''thinking'' (abThinking b) @ opt_str ''signature'' (abSignature b)
     @ opt_str ''data'' (abData b) @ opt_str ''id'' (abID b) @ opt_str ''name'' (abName b)
     @ opt_json ''input'' (abInput b) @ opt_str ''tool_use_id'' (abToolUseID b)
     @ opt_json ''content'' (abContent b) @ opt_true ''is_error'' (abIsError b)
     @ opt_json ''source'' (map_option enc_imageSource (abSource b))
     @ opt_json ''cache_control'' (abCacheControl b))"

record anthropicMsg =
  amRole :: string
  amContent :: "json option"

definition dec_anthropicMsg :: "anthropicMsg decoder" where
  "dec_anthropicMsg j = do {
     fs \<leftarrow> dec_obj j;
     r \<leftarrow> get_str ''role'' fs;
     Some \<lparr>amRole = r, amContent = get_raw ''content'' fs\<rparr> }"

definition enc_anthropicMsg :: "anthropicMsg \<Rightarrow> json" where
  "enc_anthropicMsg m = JObj [(''role'', JStr (amRole m)), (''content'', raw_or_null (amContent m))]"

record anthropicTool =
  atName :: string
  atDescription :: string
  atInputSchema :: "json option"

definition dec_anthropicTool :: "anthropicTool decoder" where
  "dec_anthropicTool j = do {
     fs \<leftarrow> dec_obj j;
     n \<leftarrow> get_str ''name'' fs;
     d \<leftarrow> get_str ''description'' fs;
     Some \<lparr>atName = n, atDescription = d, atInputSchema = get_raw ''input_schema'' fs\<rparr> }"

definition enc_anthropicTool :: "anthropicTool \<Rightarrow> json" where
  "enc_anthropicTool t = JObj ([(''name'', JStr (atName t))]
     @ opt_str ''description'' (atDescription t) @ [(''input_schema'', raw_or_null (atInputSchema t))])"

record anthropicChoice =
  acType :: string
  acName :: string

definition dec_anthropicChoice :: "anthropicChoice decoder" where
  "dec_anthropicChoice j = do {
     fs \<leftarrow> dec_obj j;
     t \<leftarrow> get_str ''type'' fs;
     n \<leftarrow> get_str ''name'' fs;
     Some \<lparr>acType = t, acName = n\<rparr> }"

definition enc_anthropicChoice :: "anthropicChoice \<Rightarrow> json" where
  "enc_anthropicChoice c = JObj ([(''type'', JStr (acType c))] @ opt_str ''name'' (acName c))"

record anthropicReq =
  aqModel :: string
  aqSystem :: "json option"
  aqMessages :: "anthropicMsg list"
  aqTools :: "anthropicTool list"
  aqToolChoice :: "anthropicChoice option"
  aqMaxTokens :: "i64 option"
  aqTemperature :: "string option"
  aqTopP :: "string option"
  aqStopSequences :: "string list"
  aqStream :: bool

definition dec_anthropicReq :: "anthropicReq decoder" where
  "dec_anthropicReq j = do {
     fs \<leftarrow> dec_obj j;
     m \<leftarrow> get_str ''model'' fs;
     ms \<leftarrow> get_slice dec_anthropicMsg ''messages'' fs;
     ts \<leftarrow> get_slice dec_anthropicTool ''tools'' fs;
     tc \<leftarrow> get_ptr dec_anthropicChoice ''tool_choice'' fs;
     mt \<leftarrow> get_ptr dec_i64 ''max_tokens'' fs;
     te \<leftarrow> get_ptr dec_num ''temperature'' fs;
     tp \<leftarrow> get_ptr dec_num ''top_p'' fs;
     ss \<leftarrow> get_slice dec_str ''stop_sequences'' fs;
     st \<leftarrow> get_bool ''stream'' fs;
     Some \<lparr>aqModel = m, aqSystem = get_raw ''system'' fs, aqMessages = ms, aqTools = ts,
       aqToolChoice = tc, aqMaxTokens = mt, aqTemperature = te, aqTopP = tp,
       aqStopSequences = ss, aqStream = st\<rparr> }"

definition enc_anthropicReq :: "anthropicReq \<Rightarrow> json" where
  "enc_anthropicReq w = JObj ([(''model'', JStr (aqModel w))] @ opt_json ''system'' (aqSystem w)
     @ [(''messages'', if aqMessages w = [] then JNull else JArr (map enc_anthropicMsg (aqMessages w)))]
     @ opt_list ''tools'' (map enc_anthropicTool (aqTools w))
     @ opt_json ''tool_choice'' (map_option enc_anthropicChoice (aqToolChoice w))
     @ opt_json ''max_tokens'' (map_option num64 (aqMaxTokens w))
     @ opt_json ''temperature'' (map_option JNum (aqTemperature w))
     @ opt_json ''top_p'' (map_option JNum (aqTopP w))
     @ opt_list ''stop_sequences'' (map JStr (aqStopSequences w))
     @ opt_true ''stream'' (aqStream w))"

section \<open>From the wire\<close>

definition anthropicRoleToIR :: "string \<Rightarrow> Role result" where
  "anthropicRoleToIR role =
     (if role = ''user'' then Inr RoleUser
      else if role = ''assistant'' then Inr RoleAssistant
      else if role = ''system'' then Inr RoleSystem
      else Inl (''unknown role '' @ quoted role))"

text \<open>The texts of the blocks when every block is text: the loop that stops at another block.\<close>

fun all_texts :: "anthropicBlock list \<Rightarrow> string option" where
  "all_texts [] = Some []"
| "all_texts (b # bs) = (if abType b \<noteq> ''text'' then None else map_option ((@) (abText b)) (all_texts bs))"

definition toolResultToIR :: "json option \<Rightarrow> json" where
  "toolResultToIR raw =
     (case raw of
        None \<Rightarrow> JStr []
      | Some j \<Rightarrow>
          if j = JNull then JStr []
          else (case j of
                  JStr s \<Rightarrow> j
                | _ \<Rightarrow> (case dec_arr dec_anthropicBlock j of
                          None \<Rightarrow> j
                        | Some blocks \<Rightarrow>
                            (case all_texts blocks of None \<Rightarrow> j | Some s \<Rightarrow> JStr s))))"

definition anthropicBlockToIR :: "nat \<Rightarrow> anthropicBlock \<Rightarrow> Content result" where
  "anthropicBlockToIR i b =
     (if abType b = ''text'' then Inr (KindText (abText b))
      else if abType b = ''thinking'' then Inr (KindThinking (abThinking b) (abSignature b) None)
      else if abType b = ''redacted_thinking'' then
        Inr (KindThinking [] [] (Some (redacted_payload (abData b))))
      else if abType b = ''tool_use'' then
        Inr (KindToolUse (abID b) (abName b)
          (Some (case abInput b of None \<Rightarrow> JObj [] | Some j \<Rightarrow> j)))
      else if abType b = ''tool_result'' then
        Inr (KindToolResult (abToolUseID b) (Some (toolResultToIR (abContent b))) (abIsError b))
      else if abType b = ''image'' then
        Inr (case abSource b of
               None \<Rightarrow> KindImage [] [] []
             | Some s \<Rightarrow> KindImage (isMediaType s) (isData s) (isURL s))
      else Inl (''content['' @ nat_text i @ '']: unsupported block type '' @ quoted (abType b)))"

definition anthropicContentToIR :: "json option \<Rightarrow> Content list result" where
  "anthropicContentToIR raw =
     (case raw of
        None \<Rightarrow> Inr []
      | Some JNull \<Rightarrow> Inr []
      | Some (JStr s) \<Rightarrow> Inr [KindText s]
      | Some j \<Rightarrow>
          (case dec_arr dec_anthropicBlock j of
             None \<Rightarrow> Inl (''content: '' @ json_err)
           | Some blocks \<Rightarrow> traverse anthropicBlockToIR blocks))"

definition anthropicMsgToIR :: "nat \<Rightarrow> anthropicMsg \<Rightarrow> Message result" where
  "anthropicMsgToIR i m =
     wrap_err (''anthropic request: messages['' @ nat_text i @ '']: '')
       (rbind (anthropicRoleToIR (amRole m)) (\<lambda>role.
        rbind (anthropicContentToIR (amContent m)) (\<lambda>blocks.
        Inr \<lparr>mRole = role, mContent = blocks\<rparr>)))"

definition anthropicChoiceToIR :: "anthropicChoice option \<Rightarrow> ToolChoice result" where
  "anthropicChoiceToIR c =
     (case c of
        None \<Rightarrow> Inr no_choice
      | Some tc \<Rightarrow>
          if acType tc = [] \<or> acType tc = ''auto'' then Inr no_choice
          else if acType tc = ''any'' then Inr (choice ToolChoiceRequired)
          else if acType tc = ''none'' then Inr (choice ToolChoiceNone)
          else if acType tc = ''tool'' then Inr (named_choice (acName tc))
          else Inl (''anthropic request: unknown tool_choice.type '' @ quoted (acType tc)))"

definition anthropicRequest_ToIR :: "string \<Rightarrow> Request result" where
  "anthropicRequest_ToIR body =
     (case unmarshal dec_anthropicReq body of
        None \<Rightarrow> Inl (''anthropic request: '' @ json_err)
      | Some w \<Rightarrow>
          if aqModel w = [] then Inl ''anthropic request: model is required''
          else
            rbind (if raw_set (aqSystem w)
                   then wrap_err ''anthropic request: system: '' (anthropicContentToIR (aqSystem w))
                   else Inr []) (\<lambda>system.
            rbind (traverse anthropicMsgToIR (aqMessages w)) (\<lambda>messages.
            rbind (anthropicChoiceToIR (aqToolChoice w)) (\<lambda>tc.
            Inr \<lparr>rModel = aqModel w, rSystem = system, rMessages = messages,
                 rTools = map (\<lambda>t. \<lparr>tName = atName t, tDescription = atDescription t,
                                    tSchema = atInputSchema t\<rparr>) (aqTools w),
                 rToolChoice = tc, rParallelToolCalls = None, rMaxTokens = aqMaxTokens w,
                 rTemperature = aqTemperature w, rTopP = aqTopP w, rStop = aqStopSequences w,
                 rStream = aqStream w, rResponseFormat = None\<rparr>))))"

section \<open>To the wire\<close>

definition toolResultFromIR :: "json option \<Rightarrow> json" where
  "toolResultFromIR raw =
     (case raw of None \<Rightarrow> JStr [] | Some (JStr s) \<Rightarrow> JStr s | Some j \<Rightarrow> JStr (json_text j))"

definition imageSourceFromIR :: "string \<Rightarrow> string \<Rightarrow> string \<Rightarrow> anthropicImageSource" where
  "imageSourceFromIR mt d u =
     (if u \<noteq> [] then \<lparr>isType = ''url'', isMediaType = [], isData = [], isURL = u\<rparr>
      else \<lparr>isType = ''base64'', isMediaType = mt, isData = d, isURL = []\<rparr>)"

text \<open>One block of the loop: an error, nothing (the block is dropped) or a wire block.\<close>

fun irBlockToAnthropic :: "bool \<Rightarrow> Content \<Rightarrow> anthropicBlock option result" where
  "irBlockToAnthropic sys (KindText t) = Inr (Some ((no_block ''text'')\<lparr>abText := t\<rparr>))"
| "irBlockToAnthropic sys (KindThinking t sig raw) =
     (if sys then Inr None
      else if raw \<noteq> None then
        (case probe_data raw of
           None \<Rightarrow> Inr None
         | Some (ty, d) \<Rightarrow>
             if ty = ''redacted_thinking'' then Inr (Some ((no_block ''redacted_thinking'')\<lparr>abData := d\<rparr>))
             else Inr None)
      else if sig = [] then Inr None
      else Inr (Some ((no_block ''thinking'')\<lparr>abThinking := t, abSignature := sig\<rparr>)))"
| "irBlockToAnthropic sys (KindToolUse i n inp) =
     (if sys then Inl ''tool_use not allowed in system''
      else Inr (Some ((no_block ''tool_use'')\<lparr>abID := i, abName := n,
        abInput := Some (case inp of None \<Rightarrow> JObj [] | Some j \<Rightarrow> j)\<rparr>)))"
| "irBlockToAnthropic sys (KindToolResult i res e) =
     (if sys then Inl ''tool_result not allowed in system''
      else Inr (Some ((no_block ''tool_result'')\<lparr>abToolUseID := i,
        abContent := Some (toolResultFromIR res), abIsError := e\<rparr>)))"
| "irBlockToAnthropic sys (KindImage mt d u) =
     (if sys then Inr None
      else Inr (Some ((no_block ''image'')\<lparr>abSource := Some (imageSourceFromIR mt d u)\<rparr>)))"

fun irContentToAnthropic :: "Content list \<Rightarrow> bool \<Rightarrow> anthropicBlock list result" where
  "irContentToAnthropic [] sys = Inr []"
| "irContentToAnthropic (c # cs) sys =
     rbind (irBlockToAnthropic sys c) (\<lambda>b.
     rbind (irContentToAnthropic cs sys) (\<lambda>bs.
     Inr (case b of None \<Rightarrow> bs | Some x \<Rightarrow> x # bs)))"

fun anthropicRoleFromIR :: "Role \<Rightarrow> string" where
  "anthropicRoleFromIR RoleUser = ''user''"
| "anthropicRoleFromIR RoleAssistant = ''assistant''"
| "anthropicRoleFromIR RoleSystem = ''system''"
| "anthropicRoleFromIR RoleTool = ''user''"

definition irMessageToAnthropic :: "nat \<Rightarrow> Message \<Rightarrow> anthropicMsg result" where
  "irMessageToAnthropic i m =
     wrap_err (''anthropic request: messages['' @ nat_text i @ '']: '')
       (rbind (irContentToAnthropic (mContent m) False) (\<lambda>blocks.
        Inr \<lparr>amRole = anthropicRoleFromIR (mRole m),
             amContent = Some (JArr (map enc_anthropicBlock blocks))\<rparr>))"

text \<open>The merged content of two messages: both are unmarshalled into slices of raw messages,
  which stay nil unless the content is an array.\<close>

fun raw_elems :: "json option \<Rightarrow> json list option" where
  "raw_elems (Some (JArr xs)) = Some xs"
| "raw_elems _ = None"

definition merged_content :: "json option \<Rightarrow> json option \<Rightarrow> json" where
  "merged_content a b =
     (case (raw_elems a, raw_elems b) of
        (None, None) \<Rightarrow> JNull
      | (None, Some ys) \<Rightarrow> (if ys = [] then JNull else JArr ys)
      | (Some xs, None) \<Rightarrow> JArr xs
      | (Some xs, Some ys) \<Rightarrow> JArr (xs @ ys))"

definition merge_step :: "anthropicMsg \<Rightarrow> anthropicMsg list \<Rightarrow> anthropicMsg list" where
  "merge_step m out =
     (if out \<noteq> [] \<and> amRole (last out) = amRole m \<and> amRole m \<noteq> ''system''
      then butlast out @ [(last out)\<lparr>amContent := Some (merged_content (amContent (last out)) (amContent m))\<rparr>]
      else out @ [m])"

definition mergeAdjacentAnthropic :: "anthropicMsg list \<Rightarrow> anthropicMsg list" where
  "mergeAdjacentAnthropic msgs = (if length msgs < 2 then msgs else fold merge_step msgs [])"

text \<open>The leading system messages join the system blocks.\<close>

fun hoist_system :: "Content list \<Rightarrow> Message list \<Rightarrow> Content list \<times> Message list" where
  "hoist_system sys [] = (sys, [])"
| "hoist_system sys (m # ms) =
     (if mRole m = RoleSystem then hoist_system (sys @ mContent m) ms else (sys, m # ms))"

definition anthropicMaxTokens :: "Request \<Rightarrow> Options \<Rightarrow> i64 result" where
  "anthropicMaxTokens r opts =
     (case rMaxTokens r of
        Some v \<Rightarrow>
          if 0 < sint v then Inr v
          else if 0 < sint (oDefaultMaxTokens opts) then Inr (oDefaultMaxTokens opts)
          else Inl ''anthropic request: max_tokens is required and no default is configured''
      | None \<Rightarrow>
          if 0 < sint (oDefaultMaxTokens opts) then Inr (oDefaultMaxTokens opts)
          else Inl ''anthropic request: max_tokens is required and no default is configured'')"

fun anthropicChoiceFromIR :: "ToolChoiceMode \<Rightarrow> string \<Rightarrow> anthropicChoice option" where
  "anthropicChoiceFromIR ToolChoiceRequired n = Some \<lparr>acType = ''any'', acName = []\<rparr>"
| "anthropicChoiceFromIR ToolChoiceNone n = Some \<lparr>acType = ''none'', acName = []\<rparr>"
| "anthropicChoiceFromIR ToolChoiceNamed n = Some \<lparr>acType = ''tool'', acName = n\<rparr>"
| "anthropicChoiceFromIR _ n = None"

definition anthropicToolFromIR :: "Tool \<Rightarrow> anthropicTool" where
  "anthropicToolFromIR t = \<lparr>atName = tName t, atDescription = tDescription t,
     atInputSchema = Some (case tSchema t of None \<Rightarrow> empty_object_schema | Some j \<Rightarrow> j)\<rparr>"

definition anthropicRequest_wire :: "Request \<Rightarrow> string \<Rightarrow> Options \<Rightarrow> anthropicReq result" where
  "anthropicRequest_wire r providerModel opts =
     rbind (anthropicMaxTokens r opts) (\<lambda>mt.
     (let (system, msgs) = hoist_system (rSystem r) (rMessages r) in
     rbind (if system = [] then Inr None
            else rbind (irContentToAnthropic system True) (\<lambda>bs.
              Inr (Some (JArr (map enc_anthropicBlock bs))))) (\<lambda>sys.
     rbind (traverse irMessageToAnthropic msgs) (\<lambda>ms.
     Inr \<lparr>aqModel = providerModel, aqSystem = sys, aqMessages = mergeAdjacentAnthropic ms,
          aqTools = map anthropicToolFromIR (rTools r),
          aqToolChoice = anthropicChoiceFromIR (tcMode (rToolChoice r)) (tcName (rToolChoice r)),
          aqMaxTokens = Some mt, aqTemperature = rTemperature r, aqTopP = rTopP r,
          aqStopSequences = rStop r, aqStream = rStream r\<rparr>))))"

definition anthropicRequest_FromIR :: "Request \<Rightarrow> string \<Rightarrow> Options \<Rightarrow> string result" where
  "anthropicRequest_FromIR r providerModel opts =
     rbind (anthropicRequest_wire r providerModel opts) (\<lambda>w. Inr (json_text (enc_anthropicReq w)))"

section \<open>The wire structs survive their own text\<close>

lemma dec_enc_imageSource [simp]:
  "dec_imageSource (enc_imageSource s) = Some s" "enc_imageSource s \<noteq> JNull"
  by (simp_all add: dec_imageSource_def enc_imageSource_def struct_dec)

lemma dec_enc_anthropicBlock [simp]: "dec_anthropicBlock (enc_anthropicBlock b) = Some b"
  by (cases "abSource b") (simp_all add: dec_anthropicBlock_def enc_anthropicBlock_def struct_dec)

lemma dec_enc_anthropicMsg [simp]:
  "amContent m \<noteq> None \<Longrightarrow> dec_anthropicMsg (enc_anthropicMsg m) = Some m"
  by (auto simp: dec_anthropicMsg_def enc_anthropicMsg_def raw_or_null_def struct_dec)

lemma dec_enc_anthropicTool [simp]:
  "atInputSchema t \<noteq> None \<Longrightarrow> dec_anthropicTool (enc_anthropicTool t) = Some t"
  by (auto simp: dec_anthropicTool_def enc_anthropicTool_def raw_or_null_def struct_dec)

lemma dec_enc_anthropicChoice [simp]:
  "dec_anthropicChoice (enc_anthropicChoice c) = Some c" "enc_anthropicChoice c \<noteq> JNull"
  by (simp_all add: dec_anthropicChoice_def enc_anthropicChoice_def struct_dec)

definition wire_complete :: "anthropicReq \<Rightarrow> bool" where
  "wire_complete w \<longleftrightarrow> (\<forall>m \<in> set (aqMessages w). amContent m \<noteq> None)
     \<and> (\<forall>t \<in> set (aqTools w). atInputSchema t \<noteq> None)"

lemma dec_enc_anthropicReq: "wire_complete w \<Longrightarrow> dec_anthropicReq (enc_anthropicReq w) = Some w"
  unfolding wire_complete_def
  by (simp add: dec_anthropicReq_def enc_anthropicReq_def struct_dec cong: if_cong option.case_cong)

text \<open>The values a wire request carries verbatim can be printed.\<close>

lemma json_ok_anthropicBlock [simp]:
  "json_ok (enc_anthropicBlock b) \<longleftrightarrow> raw_ok (abInput b) \<and> raw_ok (abContent b) \<and> raw_ok (abCacheControl b)"
  by (cases "abSource b") (simp_all add: enc_anthropicBlock_def enc_imageSource_def json_ok_members del: json_ok.simps(3))

lemma json_ok_wire:
  assumes "\<forall>m \<in> set (aqMessages w). raw_ok (amContent m)" and "\<forall>t \<in> set (aqTools w). raw_ok (atInputSchema t)"
    and "raw_ok (aqSystem w)" and "pred_option num_ok (aqTemperature w)" and "pred_option num_ok (aqTopP w)"
  shows "json_ok (enc_anthropicReq w)"
proof -
  have num: "pred_option num_ok x \<Longrightarrow> raw_ok (map_option JNum x)" for x by (cases x) simp_all
  have msg: "raw_ok (amContent m) \<Longrightarrow> json_ok (enc_anthropicMsg m)" for m
    by (simp add: enc_anthropicMsg_def json_ok_members del: json_ok.simps(3))
  have tool: "raw_ok (atInputSchema t) \<Longrightarrow> json_ok (enc_anthropicTool t)" for t
    by (simp add: enc_anthropicTool_def json_ok_members del: json_ok.simps(3))
  have ch: "raw_ok (map_option enc_anthropicChoice c)" for c
    by (cases c) (simp_all add: enc_anthropicChoice_def json_ok_members del: json_ok.simps(3))
  have mt: "raw_ok (map_option num64 x)" for x by (cases x) simp_all
  show ?thesis
    using assms num msg tool ch mt by (auto simp: enc_anthropicReq_def json_ok_members simp del: json_ok.simps(3))
qed

section \<open>Merging adjacent messages\<close>

text \<open>The API refuses two messages of one role in a row; system messages are let through.\<close>

fun alternating :: "anthropicMsg list \<Rightarrow> bool" where
  "alternating (m # n # ms) \<longleftrightarrow> (amRole m \<noteq> amRole n \<or> amRole n = ''system'') \<and> alternating (n # ms)"
| "alternating _ \<longleftrightarrow> True"

text \<open>The blocks of the conversation with the role each is said in.\<close>

definition blocks_of :: "anthropicMsg \<Rightarrow> json list" where
  "blocks_of m = (case raw_elems (amContent m) of None \<Rightarrow> [] | Some xs \<Rightarrow> xs)"

definition spoken :: "anthropicMsg list \<Rightarrow> (string \<times> json) list" where
  "spoken ms = concat (map (\<lambda>m. map (Pair (amRole m)) (blocks_of m)) ms)"

definition has_blocks :: "anthropicMsg \<Rightarrow> bool" where
  "has_blocks m \<longleftrightarrow> raw_elems (amContent m) \<noteq> None"

lemma alternating_snoc:
  "alternating (xs @ [m]) \<longleftrightarrow> alternating xs \<and> (xs = [] \<or> amRole (last xs) \<noteq> amRole m \<or> amRole m = ''system'')"
  by (induction xs rule: alternating.induct) auto

lemma merge_step_inv:
  assumes "alternating out" and "\<forall>x \<in> set out. has_blocks x" and "has_blocks m"
  shows "alternating (merge_step m out) \<and> (\<forall>x \<in> set (merge_step m out). has_blocks x)
    \<and> spoken (merge_step m out) = spoken out @ spoken [m]"
proof (cases "out \<noteq> [] \<and> amRole (last out) = amRole m \<and> amRole m \<noteq> ''system''")
  case True
  then obtain pre l where out: "out = pre @ [l]" by (metis append_butlast_last_id)
  obtain xs ys where raw: "raw_elems (amContent l) = Some xs" "raw_elems (amContent m) = Some ys"
    using assms(2,3) out by (auto simp: has_blocks_def)
  with True out assms(1,2) show ?thesis
    by (auto simp: merge_step_def merged_content_def alternating_snoc spoken_def blocks_of_def has_blocks_def)
next
  case False
  then have "merge_step m out = out @ [m]" by (auto simp: merge_step_def)
  with False assms show ?thesis by (auto simp: alternating_snoc spoken_def)
qed

lemma fold_merge_inv:
  assumes "\<forall>x \<in> set (out @ ms). has_blocks x" and "alternating out"
  shows "alternating (fold merge_step ms out) \<and> (\<forall>x \<in> set (fold merge_step ms out). has_blocks x)
    \<and> spoken (fold merge_step ms out) = spoken out @ spoken ms"
  using assms
proof (induction ms arbitrary: out)
  case (Cons m ms)
  then have "alternating (merge_step m out) \<and> (\<forall>x \<in> set (merge_step m out). has_blocks x)
      \<and> spoken (merge_step m out) = spoken out @ spoken [m]"
    by (intro merge_step_inv) auto
  moreover have "spoken (m # ms) = spoken [m] @ spoken ms" by (simp add: spoken_def)
  ultimately show ?case using Cons.IH [of "merge_step m out"] Cons.prems(1) by auto
qed (simp add: spoken_def)

lemma short_alternating: "length msgs < 2 \<Longrightarrow> alternating msgs"
  by (cases msgs rule: alternating.cases) simp_all

lemma merge_inv:
  assumes "\<forall>m \<in> set msgs. has_blocks m"
  shows "alternating (mergeAdjacentAnthropic msgs) \<and> spoken (mergeAdjacentAnthropic msgs) = spoken msgs
    \<and> (\<forall>m \<in> set (mergeAdjacentAnthropic msgs). has_blocks m)"
  using fold_merge_inv [of "[]" msgs] assms short_alternating [of msgs]
  by (simp add: mergeAdjacentAnthropic_def spoken_def)

lemma merge_idle: "alternating msgs \<Longrightarrow> mergeAdjacentAnthropic msgs = msgs"
proof -
  have "alternating (out @ ms) \<Longrightarrow> fold merge_step ms out = out @ ms" for out ms
  proof (induction ms arbitrary: out)
    case (Cons m ms)
    have pre: "alternating (xs @ ys) \<Longrightarrow> alternating xs" for xs ys
      by (induction ys rule: rev_induct) (auto simp: alternating_snoc append_assoc [symmetric] simp del: append_assoc)
    have "alternating ((out @ [m]) @ ms)" using Cons.prems by simp
    with Cons.IH [OF this] pre [OF this] show ?case
      by (auto simp: merge_step_def alternating_snoc)
  qed simp
  then show "alternating msgs \<Longrightarrow> mergeAdjacentAnthropic msgs = msgs"
    by (simp add: mergeAdjacentAnthropic_def)
qed

lemma irMessage_has_blocks: "irMessageToAnthropic i m = Inr w \<Longrightarrow> has_blocks w"
  by (auto simp: irMessageToAnthropic_def rbind_Inr_iff has_blocks_def)

lemma anthropic_wireE:
  assumes "anthropicRequest_wire r pm opts = Inr w"
  obtains ms mt where "traverse irMessageToAnthropic (snd (hoist_system (rSystem r) (rMessages r))) = Inr ms"
    and "aqMessages w = mergeAdjacentAnthropic ms" and "anthropicMaxTokens r opts = Inr mt" and "aqMaxTokens w = Some mt"
    and "aqModel w = pm" and "aqTools w = map anthropicToolFromIR (rTools r)"
proof -
  obtain sys msgs where h: "hoist_system (rSystem r) (rMessages r) = (sys, msgs)" by fastforce
  show thesis
    using assms h by (auto simp: anthropicRequest_wire_def rbind_Inr_iff intro!: that)
qed

text \<open>C24: an Anthropic request that is written alternates its roles (system messages apart), carries
  exactly the blocks of the messages after the hoisted system prompt, in their order and each
  under its message's role, and asks for a positive number of tokens: the client's own when it is
  positive, the configured default otherwise.\<close>

theorem anthropic_request_alternates:
  assumes "anthropicRequest_wire r pm opts = Inr w"
  shows "alternating (aqMessages w) \<and> aqModel w = pm
    \<and> (\<exists>ms. traverse irMessageToAnthropic (snd (hoist_system (rSystem r) (rMessages r))) = Inr ms
         \<and> spoken (aqMessages w) = spoken ms)
    \<and> (\<exists>n. aqMaxTokens w = Some n \<and> 0 < sint n
         \<and> n = (case rMaxTokens r of
                  None \<Rightarrow> oDefaultMaxTokens opts
                | Some v \<Rightarrow> if 0 < sint v then v else oDefaultMaxTokens opts))"
proof -
  obtain ms mt where ms: "traverse irMessageToAnthropic (snd (hoist_system (rSystem r) (rMessages r))) = Inr ms"
    "aqMessages w = mergeAdjacentAnthropic ms" "anthropicMaxTokens r opts = Inr mt" "aqMaxTokens w = Some mt"
    "aqModel w = pm" using assms by (rule anthropic_wireE)
  have "\<forall>m \<in> set ms. has_blocks m"
    using ms(1) irMessage_has_blocks by (rule traverse_from_all)
  from merge_inv [OF this] ms show ?thesis
    by (auto simp: anthropicMaxTokens_def split: option.splits if_splits)
qed

lemma anthropic_request_alternates_witness:
  "\<exists>w. anthropicRequest_wire (plain_request [\<lparr>mRole = RoleUser, mContent = [KindText ''a'']\<rparr>,
       \<lparr>mRole = RoleTool, mContent = [KindToolResult ''t'' None False]\<rparr>]) ''p'' \<lparr>oDefaultMaxTokens = 1, oTargetIsBedrock = False\<rparr>
     = Inr w \<and> length (aqMessages w) = 1 \<and> alternating (aqMessages w)"
proof -
  let ?r = "plain_request [\<lparr>mRole = RoleUser, mContent = [KindText ''a'']\<rparr>,
    \<lparr>mRole = RoleTool, mContent = [KindToolResult ''t'' None False]\<rparr>]"
  let ?o = "\<lparr>oDefaultMaxTokens = 1, oTargetIsBedrock = False\<rparr>"
  obtain w where w: "anthropicRequest_wire ?r ''p'' ?o = Inr w" "length (aqMessages w) = 1"
    by (simp add: anthropicRequest_wire_def plain_request_def anthropicMaxTokens_def irMessageToAnthropic_def
        mergeAdjacentAnthropic_def merge_step_def)
  with anthropic_request_alternates [OF w(1)] show ?thesis by blast
qed

section \<open>The codec is lossless on canonical requests\<close>

text \<open>
  The IR values the decoder of this protocol produces from blocks the API documents: no reasoning
  without a signature, an input for every tool call, a string for every tool result.
\<close>

fun canonical_block :: "Content \<Rightarrow> bool" where
  "canonical_block (KindText t) \<longleftrightarrow> True"
| "canonical_block (KindThinking t sig raw) \<longleftrightarrow>
     (case raw of
        None \<Rightarrow> sig \<noteq> []
      | Some j \<Rightarrow> t = [] \<and> sig = [] \<and> (case probe_data raw of None \<Rightarrow> False | Some (ty, d) \<Rightarrow> j = redacted_payload d))"
| "canonical_block (KindToolUse i n inp) \<longleftrightarrow> inp \<noteq> None \<and> raw_ok inp"
| "canonical_block (KindToolResult i res e) \<longleftrightarrow> (case res of Some (JStr s) \<Rightarrow> True | _ \<Rightarrow> False)"
| "canonical_block (KindImage mt d u) \<longleftrightarrow> u = [] \<or> mt = [] \<and> d = []"

lemma canonical_block_trip:
  assumes "canonical_block c"
  shows "\<exists>b. irBlockToAnthropic False c = Inr (Some b) \<and> (\<forall>i. anthropicBlockToIR i b = Inr c)
    \<and> json_ok (enc_anthropicBlock b)"
proof (cases c)
  case (KindThinking t sig raw)
  with assms show ?thesis
    by (cases raw) (auto simp: anthropicBlockToIR_def no_block_def split: option.splits)
next
  case (KindToolResult i res e)
  with assms show ?thesis
    by (auto simp: anthropicBlockToIR_def no_block_def toolResultFromIR_def toolResultToIR_def
        split: option.splits json.splits)
qed (use assms in \<open>auto simp: anthropicBlockToIR_def no_block_def imageSourceFromIR_def\<close>)

lemma canonical_content_trip:
  "list_all canonical_block cs \<Longrightarrow> \<exists>bs. irContentToAnthropic cs False = Inr bs
     \<and> (\<forall>i. traverse_from i anthropicBlockToIR bs = Inr cs) \<and> (\<forall>b \<in> set bs. json_ok (enc_anthropicBlock b))"
proof (induction cs)
  case (Cons c cs)
  then obtain bs where "irContentToAnthropic cs False = Inr bs" "\<forall>i. traverse_from i anthropicBlockToIR bs = Inr cs"
    "\<forall>b \<in> set bs. json_ok (enc_anthropicBlock b)" by auto
  moreover obtain b where "irBlockToAnthropic False c = Inr (Some b)" "\<forall>i. anthropicBlockToIR i b = Inr c"
    "json_ok (enc_anthropicBlock b)" using canonical_block_trip [of c] Cons.prems by auto
  ultimately show ?case by simp
qed simp

lemma decode_blocks [simp]:
  "anthropicContentToIR (Some (JArr (map enc_anthropicBlock bs))) = traverse anthropicBlockToIR bs"
  by (simp add: anthropicContentToIR_def)

definition is_text :: "Content \<Rightarrow> bool" where
  "is_text c \<longleftrightarrow> (case c of KindText t \<Rightarrow> True | _ \<Rightarrow> False)"

lemma text_content_trip:
  "list_all is_text cs \<Longrightarrow> \<exists>bs. irContentToAnthropic cs True = Inr bs
     \<and> (\<forall>i. traverse_from i anthropicBlockToIR bs = Inr cs) \<and> (\<forall>b \<in> set bs. json_ok (enc_anthropicBlock b))"
proof (induction cs)
  case (Cons c cs)
  then obtain bs where bs: "irContentToAnthropic cs True = Inr bs" "\<forall>i. traverse_from i anthropicBlockToIR bs = Inr cs"
    "\<forall>b \<in> set bs. json_ok (enc_anthropicBlock b)" by auto
  have "\<exists>t. c = KindText t" using Cons.prems by (cases c) (auto simp: is_text_def)
  then obtain t where t: "c = KindText t" ..
  have "anthropicBlockToIR i ((no_block ''text'')\<lparr>abText := t\<rparr>) = Inr c" for i
    by (simp add: t anthropicBlockToIR_def no_block_def)
  moreover have "json_ok (enc_anthropicBlock ((no_block ''text'')\<lparr>abText := t\<rparr>))" by (simp add: no_block_def)
  ultimately show ?case using bs by (simp add: t)
qed simp

definition role_ok :: "Role \<Rightarrow> bool" where
  "role_ok r \<longleftrightarrow> r \<noteq> RoleTool"

fun roles_alternate :: "Message list \<Rightarrow> bool" where
  "roles_alternate (m # n # ms) \<longleftrightarrow> (mRole m \<noteq> mRole n \<or> mRole n = RoleSystem) \<and> roles_alternate (n # ms)"
| "roles_alternate _ \<longleftrightarrow> True"

definition canonical_choice :: "ToolChoice \<Rightarrow> bool" where
  "canonical_choice c \<longleftrightarrow> (case tcMode c of ToolChoiceAuto \<Rightarrow> False | ToolChoiceNamed \<Rightarrow> True | _ \<Rightarrow> tcName c = [])"

definition canonical_request :: "Request \<Rightarrow> bool" where
  "canonical_request r \<longleftrightarrow>
     list_all is_text (rSystem r)
     \<and> list_all (\<lambda>m. role_ok (mRole m) \<and> list_all canonical_block (mContent m)) (rMessages r)
     \<and> roles_alternate (rMessages r)
     \<and> (case rMessages r of [] \<Rightarrow> True | m # ms \<Rightarrow> mRole m \<noteq> RoleSystem)
     \<and> list_all (\<lambda>t. tSchema t \<noteq> None \<and> raw_ok (tSchema t)) (rTools r)
     \<and> canonical_choice (rToolChoice r) \<and> rParallelToolCalls r = None
     \<and> (case rMaxTokens r of None \<Rightarrow> False | Some v \<Rightarrow> 0 < sint v)
     \<and> pred_option num_ok (rTemperature r) \<and> pred_option num_ok (rTopP r) \<and> rResponseFormat r = None"

lemma role_trip [simp]: "role_ok r \<Longrightarrow> anthropicRoleToIR (anthropicRoleFromIR r) = Inr r"
  by (cases r) (simp_all add: role_ok_def anthropicRoleToIR_def)

lemma role_inj: "role_ok r \<Longrightarrow> role_ok q \<Longrightarrow> anthropicRoleFromIR r = anthropicRoleFromIR q \<longleftrightarrow> r = q"
  by (cases r; cases q) (simp_all add: role_ok_def)

lemma role_system: "anthropicRoleFromIR r = ''system'' \<longleftrightarrow> r = RoleSystem"
  by (cases r) simp_all

lemma choice_trip: "canonical_choice c \<Longrightarrow> anthropicChoiceToIR (anthropicChoiceFromIR (tcMode c) (tcName c)) = Inr c"
  by (cases "tcMode c") (simp_all add: canonical_choice_def anthropicChoiceToIR_def no_choice_def choice_def named_choice_def)

lemma tool_trip:
  "tSchema t \<noteq> None \<Longrightarrow> \<lparr>tName = atName (anthropicToolFromIR t), tDescription = atDescription (anthropicToolFromIR t),
     tSchema = atInputSchema (anthropicToolFromIR t)\<rparr> = t"
  by (auto simp: anthropicToolFromIR_def)

lemma message_trip:
  assumes "role_ok (mRole m)" and "list_all canonical_block (mContent m)"
  shows "\<exists>w. (\<forall>i. irMessageToAnthropic i m = Inr w) \<and> (\<forall>i. anthropicMsgToIR i w = Inr m)
    \<and> amRole w = anthropicRoleFromIR (mRole m) \<and> amContent w \<noteq> None \<and> raw_ok (amContent w)"
proof -
  obtain bs where bs: "irContentToAnthropic (mContent m) False = Inr bs" "traverse anthropicBlockToIR bs = Inr (mContent m)"
    "\<forall>b \<in> set bs. json_ok (enc_anthropicBlock b)" using canonical_content_trip [OF assms(2)] by blast
  from bs(3) have "raw_ok (Some (JArr (map enc_anthropicBlock bs)))"
    by (simp del: json_ok_anthropicBlock)
  with bs assms(1) show ?thesis
    by (intro exI [of _ "\<lparr>amRole = anthropicRoleFromIR (mRole m), amContent = Some (JArr (map enc_anthropicBlock bs))\<rparr>"])
      (simp add: irMessageToAnthropic_def anthropicMsgToIR_def del: json_ok_anthropicBlock json_ok.simps)
qed

lemma messages_trip:
  assumes "list_all (\<lambda>m. role_ok (mRole m) \<and> list_all canonical_block (mContent m)) ms"
  shows "\<exists>ws. (\<forall>i. traverse_from i irMessageToAnthropic ms = Inr ws) \<and> (\<forall>i. traverse_from i anthropicMsgToIR ws = Inr ms)
    \<and> map amRole ws = map (anthropicRoleFromIR \<circ> mRole) ms
    \<and> (\<forall>w \<in> set ws. amContent w \<noteq> None \<and> raw_ok (amContent w))"
  using assms
proof (induction ms)
  case (Cons m ms)
  then obtain ws where "\<forall>i. traverse_from i irMessageToAnthropic ms = Inr ws"
    "\<forall>i. traverse_from i anthropicMsgToIR ws = Inr ms" "map amRole ws = map (anthropicRoleFromIR \<circ> mRole) ms"
    "\<forall>w \<in> set ws. amContent w \<noteq> None \<and> raw_ok (amContent w)" by auto
  moreover obtain w where "\<forall>i. irMessageToAnthropic i m = Inr w" "\<forall>i. anthropicMsgToIR i w = Inr m"
    "amRole w = anthropicRoleFromIR (mRole m)" "amContent w \<noteq> None" "raw_ok (amContent w)"
    using message_trip [of m] Cons.prems by auto
  ultimately show ?case by (intro exI [of _ "w # ws"]) simp
qed simp

lemma alternating_roles:
  "map amRole ws = map (anthropicRoleFromIR \<circ> mRole) ms \<Longrightarrow> list_all (role_ok \<circ> mRole) ms \<Longrightarrow> roles_alternate ms
   \<Longrightarrow> alternating ws"
proof (induction ms arbitrary: ws rule: roles_alternate.induct)
  case (1 m n ms)
  then obtain a b as where "ws = a # b # as" by (auto simp: map_eq_Cons_conv Cons_eq_map_conv)
  with 1 show ?case by (auto simp: role_inj role_system)
qed (auto simp: map_eq_Cons_conv)

lemma system_trip:
  assumes "list_all is_text cs"
  shows "\<exists>sys. (if cs = [] then Inr None
      else rbind (irContentToAnthropic cs True) (\<lambda>bs. Inr (Some (JArr (map enc_anthropicBlock bs))))) = Inr sys
    \<and> raw_ok sys \<and> (if raw_set sys then wrap_err p (anthropicContentToIR sys) else Inr []) = Inr cs"
proof (cases "cs = []")
  case False
  obtain bs where bs: "irContentToAnthropic cs True = Inr bs" "traverse anthropicBlockToIR bs = Inr cs"
    "\<forall>b \<in> set bs. json_ok (enc_anthropicBlock b)" using text_content_trip [OF assms] by blast
  with False show ?thesis by (simp add: raw_set_def del: json_ok_anthropicBlock)
qed (simp add: raw_set_def)

lemma canonical_wire:
  assumes can: "canonical_request r" and "pm \<noteq> []"
  shows "\<exists>w. anthropicRequest_wire r pm opts = Inr w \<and> wire_complete w \<and> json_ok (enc_anthropicReq w)
    \<and> anthropicRequest_ToIR (json_text (enc_anthropicReq w)) = Inr (r\<lparr>rModel := pm\<rparr>)"
proof -
  obtain mt where mt: "rMaxTokens r = Some mt" "0 < sint mt"
    using can by (auto simp: canonical_request_def split: option.splits)
  have hoist: "hoist_system (rSystem r) (rMessages r) = (rSystem r, rMessages r)"
    using can by (cases "rMessages r") (simp_all add: canonical_request_def)
  obtain sys where sys: "(if rSystem r = [] then Inr None
      else rbind (irContentToAnthropic (rSystem r) True) (\<lambda>bs. Inr (Some (JArr (map enc_anthropicBlock bs))))) = Inr sys"
    "raw_ok sys" "(if raw_set sys then wrap_err ''anthropic request: system: '' (anthropicContentToIR sys) else Inr []) = Inr (rSystem r)"
    using system_trip [of "rSystem r"] can by (fastforce simp: canonical_request_def)
  obtain ws where ws: "traverse irMessageToAnthropic (rMessages r) = Inr ws" "traverse anthropicMsgToIR ws = Inr (rMessages r)"
    "map amRole ws = map (anthropicRoleFromIR \<circ> mRole) (rMessages r)" "\<forall>w \<in> set ws. amContent w \<noteq> None \<and> raw_ok (amContent w)"
    using messages_trip [of "rMessages r"] can by (auto simp: canonical_request_def)
  have "alternating ws"
    using alternating_roles [OF ws(3)] can by (simp add: canonical_request_def list_all_iff)
  then have merged: "mergeAdjacentAnthropic ws = ws" by (rule merge_idle)
  define w where "w = \<lparr>aqModel = pm, aqSystem = sys, aqMessages = ws, aqTools = map anthropicToolFromIR (rTools r),
     aqToolChoice = anthropicChoiceFromIR (tcMode (rToolChoice r)) (tcName (rToolChoice r)),
     aqMaxTokens = Some mt, aqTemperature = rTemperature r, aqTopP = rTopP r,
     aqStopSequences = rStop r, aqStream = rStream r\<rparr>"
  have wire: "anthropicRequest_wire r pm opts = Inr w"
    using mt hoist sys(1) ws(1) merged by (simp add: anthropicRequest_wire_def anthropicMaxTokens_def w_def)
  have tools: "\<forall>t \<in> set (rTools r). tSchema t \<noteq> None \<and> raw_ok (tSchema t)"
    using can by (simp add: canonical_request_def list_all_iff)
  then have complete: "wire_complete w"
    using ws(4) by (auto simp: wire_complete_def w_def anthropicToolFromIR_def)
  have "json_ok (enc_anthropicReq w)"
    using ws(4) tools sys(2) can by (intro json_ok_wire)
      (auto simp: w_def anthropicToolFromIR_def canonical_request_def split: option.split)
  moreover have "map (\<lambda>t. \<lparr>tName = atName t, tDescription = atDescription t, tSchema = atInputSchema t\<rparr>)
      (map anthropicToolFromIR (rTools r)) = rTools r"
    using tools tool_trip by (simp add: map_idI)
  moreover have "raw_set sys \<Longrightarrow> anthropicContentToIR sys = Inr (rSystem r)" "\<not> raw_set sys \<Longrightarrow> rSystem r = []"
    using sys(3) by simp_all
  moreover have "rParallelToolCalls r = None" "rResponseFormat r = None" "canonical_choice (rToolChoice r)"
    using can by (simp_all add: canonical_request_def)
  ultimately show ?thesis
    using wire complete dec_enc_anthropicReq [OF complete] ws(2) assms(2) choice_trip [of "rToolChoice r"] mt
    by (simp add: anthropicRequest_ToIR_def w_def)
qed

text \<open>C27: reading an Anthropic request that was written gives the same IR, with the provider's
  model: on a canonical request the codec loses nothing, reasoning with its signature, tool calls,
  tool results, images, tools with their schemas and the choice of a tool included.\<close>

theorem anthropic_request_roundtrip:
  assumes "canonical_request r" and "pm \<noteq> []"
  shows "rbind (anthropicRequest_FromIR r pm opts) anthropicRequest_ToIR = Inr (r\<lparr>rModel := pm\<rparr>)"
  using canonical_wire [OF assms, of opts] by (auto simp: anthropicRequest_FromIR_def)

lemma anthropic_request_roundtrip_witness:
  "\<exists>r. list_ex (\<lambda>m. list_ex (\<lambda>c. \<not> is_text c) (mContent m)) (rMessages r)
     \<and> rbind (anthropicRequest_FromIR r ''p'' \<lparr>oDefaultMaxTokens = 1, oTargetIsBedrock = False\<rparr>) anthropicRequest_ToIR
         = Inr (r\<lparr>rModel := ''p''\<rparr>)"
proof (rule exI, rule conjI)
  let ?r = "plain_request [\<lparr>mRole = RoleUser, mContent = [KindText ''hi'', KindImage [] [] ''u'']\<rparr>,
    \<lparr>mRole = RoleAssistant, mContent = [KindThinking ''t'' ''sig'' None, KindToolUse ''i'' ''f'' (Some (JObj []))]\<rparr>,
    \<lparr>mRole = RoleUser, mContent = [KindToolResult ''i'' (Some (JStr ''out'')) False]\<rparr>]"
  show "list_ex (\<lambda>m. list_ex (\<lambda>c. \<not> is_text c) (mContent m)) (rMessages ?r)"
    by (simp add: plain_request_def is_text_def)
  show "rbind (anthropicRequest_FromIR ?r ''p'' \<lparr>oDefaultMaxTokens = 1, oTargetIsBedrock = False\<rparr>) anthropicRequest_ToIR
      = Inr (?r\<lparr>rModel := ''p''\<rparr>)"
    by (rule anthropic_request_roundtrip)
      (simp_all add: canonical_request_def plain_request_def is_text_def role_ok_def canonical_choice_def no_choice_def)
qed

end
