(* ===== verification/ReqChat.thy ===== *)
theory ReqChat
  imports IR
begin

text \<open>
  \<^verbatim>\<open>translate/openai_chat.go\<close>: the request codec of OpenAI Chat Completions. A Go string that
  holds JSON text (\<open>function.arguments\<close>) is parsed and printed where the code does so.
\<close>

section \<open>Wire types\<close>

record chatPart =
  cpType :: string
  cpText :: string
  cpImageURL :: "string option"

definition dec_imageURL :: "string decoder" where
  "dec_imageURL j = do { fs \<leftarrow> dec_obj j; get_str ''url'' fs }"

definition dec_chatPart :: "chatPart decoder" where
  "dec_chatPart j = do {
     fs \<leftarrow> dec_obj j;
     t \<leftarrow> get_str ''type'' fs;
     x \<leftarrow> get_str ''text'' fs;
     u \<leftarrow> get_ptr dec_imageURL ''image_url'' fs;
     Some \<lparr>cpType = t, cpText = x, cpImageURL = u\<rparr> }"

definition enc_chatPart :: "chatPart \<Rightarrow> json" where
  "enc_chatPart p = JObj ([(''type'', JStr (cpType p))] @ opt_str ''text'' (cpText p)
     @ opt_json ''image_url'' (map_option (\<lambda>u. JObj [(''url'', JStr u)]) (cpImageURL p)))"

record chatToolCall =
  ctID :: string
  ctType :: string
  ctName :: string
  ctArguments :: string

definition dec_chatToolCall :: "chatToolCall decoder" where
  "dec_chatToolCall j = do {
     fs \<leftarrow> dec_obj j;
     i \<leftarrow> get_str ''id'' fs;
     t \<leftarrow> get_str ''type'' fs;
     f \<leftarrow> get_val dec_obj [] ''function'' fs;
     n \<leftarrow> get_str ''name'' f;
     a \<leftarrow> get_str ''arguments'' f;
     Some \<lparr>ctID = i, ctType = t, ctName = n, ctArguments = a\<rparr> }"

definition enc_chatToolCall :: "chatToolCall \<Rightarrow> json" where
  "enc_chatToolCall c = JObj [(''id'', JStr (ctID c)), (''type'', JStr (ctType c)),
     (''function'', JObj [(''name'', JStr (ctName c)), (''arguments'', JStr (ctArguments c))])]"

record chatMsg =
  cmRole :: string
  cmContent :: "json option"
  cmToolCalls :: "chatToolCall list"
  cmToolCallID :: string

definition dec_chatMsg :: "chatMsg decoder" where
  "dec_chatMsg j = do {
     fs \<leftarrow> dec_obj j;
     r \<leftarrow> get_str ''role'' fs;
     tc \<leftarrow> get_slice dec_chatToolCall ''tool_calls'' fs;
     i \<leftarrow> get_str ''tool_call_id'' fs;
     n \<leftarrow> get_str ''name'' fs;
     Some \<lparr>cmRole = r, cmContent = get_raw ''content'' fs, cmToolCalls = tc, cmToolCallID = i\<rparr> }"

definition enc_chatMsg :: "chatMsg \<Rightarrow> json" where
  "enc_chatMsg m = JObj ([(''role'', JStr (cmRole m))] @ opt_json ''content'' (cmContent m)
     @ opt_list ''tool_calls'' (map enc_chatToolCall (cmToolCalls m))
     @ opt_str ''tool_call_id'' (cmToolCallID m))"

record chatTool =
  clType :: string
  clName :: string
  clDescription :: string
  clParameters :: "json option"

definition dec_chatTool :: "chatTool decoder" where
  "dec_chatTool j = do {
     fs \<leftarrow> dec_obj j;
     t \<leftarrow> get_str ''type'' fs;
     f \<leftarrow> get_val dec_obj [] ''function'' fs;
     n \<leftarrow> get_str ''name'' f;
     d \<leftarrow> get_str ''description'' f;
     Some \<lparr>clType = t, clName = n, clDescription = d, clParameters = get_raw ''parameters'' f\<rparr> }"

definition enc_chatTool :: "chatTool \<Rightarrow> json" where
  "enc_chatTool t = JObj [(''type'', JStr (clType t)),
     (''function'', JObj ([(''name'', JStr (clName t))] @ opt_str ''description'' (clDescription t)
        @ opt_json ''parameters'' (clParameters t)))]"

record chatReq =
  cqModel :: string
  cqMessages :: "chatMsg list"
  cqTools :: "chatTool list"
  cqToolChoice :: "json option"
  cqParallelToolCalls :: "bool option"
  cqMaxCompletionTokens :: "i64 option"
  cqMaxTokens :: "i64 option"
  cqTemperature :: "string option"
  cqTopP :: "string option"
  cqStop :: "json option"
  cqStream :: bool
  cqIncludeUsage :: "bool option"
  cqResponseFormat :: "json option"
  cqReasoningEffort :: string

definition dec_streamOpts :: "bool decoder" where
  "dec_streamOpts j = do { fs \<leftarrow> dec_obj j; get_bool ''include_usage'' fs }"

definition dec_chatReq :: "chatReq decoder" where
  "dec_chatReq j = do {
     fs \<leftarrow> dec_obj j;
     m \<leftarrow> get_str ''model'' fs;
     ms \<leftarrow> get_slice dec_chatMsg ''messages'' fs;
     ts \<leftarrow> get_slice dec_chatTool ''tools'' fs;
     p \<leftarrow> get_ptr dec_bool ''parallel_tool_calls'' fs;
     mc \<leftarrow> get_ptr dec_i64 ''max_completion_tokens'' fs;
     mt \<leftarrow> get_ptr dec_i64 ''max_tokens'' fs;
     te \<leftarrow> get_ptr dec_num ''temperature'' fs;
     tp \<leftarrow> get_ptr dec_num ''top_p'' fs;
     st \<leftarrow> get_bool ''stream'' fs;
     so \<leftarrow> get_ptr dec_streamOpts ''stream_options'' fs;
     re \<leftarrow> get_str ''reasoning_effort'' fs;
     Some \<lparr>cqModel = m, cqMessages = ms, cqTools = ts, cqToolChoice = get_raw ''tool_choice'' fs,
       cqParallelToolCalls = p, cqMaxCompletionTokens = mc, cqMaxTokens = mt, cqTemperature = te,
       cqTopP = tp, cqStop = get_raw ''stop'' fs, cqStream = st, cqIncludeUsage = so,
       cqResponseFormat = get_raw ''response_format'' fs, cqReasoningEffort = re\<rparr> }"

definition enc_chatReq :: "chatReq \<Rightarrow> json" where
  "enc_chatReq w = JObj ([(''model'', JStr (cqModel w)),
      (''messages'', if cqMessages w = [] then JNull else JArr (map enc_chatMsg (cqMessages w)))]
     @ opt_list ''tools'' (map enc_chatTool (cqTools w))
     @ opt_json ''tool_choice'' (cqToolChoice w)
     @ opt_json ''parallel_tool_calls'' (map_option JBool (cqParallelToolCalls w))
     @ opt_json ''max_completion_tokens'' (map_option num64 (cqMaxCompletionTokens w))
     @ opt_json ''max_tokens'' (map_option num64 (cqMaxTokens w))
     @ opt_json ''temperature'' (map_option JNum (cqTemperature w))
     @ opt_json ''top_p'' (map_option JNum (cqTopP w))
     @ opt_json ''stop'' (cqStop w)
     @ opt_true ''stream'' (cqStream w)
     @ opt_json ''stream_options'' (map_option (\<lambda>b. JObj [(''include_usage'', JBool b)]) (cqIncludeUsage w))
     @ opt_json ''response_format'' (cqResponseFormat w)
     @ opt_str ''reasoning_effort'' (cqReasoningEffort w))"

section \<open>Helpers\<close>

definition imageDataURL :: "string \<Rightarrow> string \<Rightarrow> string \<Rightarrow> string" where
  "imageDataURL mediaType b64 url =
     (if url \<noteq> [] then url
      else ''data:'' @ (if mediaType = [] then ''image/png'' else mediaType) @ '';base64,'' @ b64)"

definition parseDataURL :: "string \<Rightarrow> (string \<times> string) option" where
  "parseDataURL u = (if has_prefix ''data:'' u then cut_at '';base64,'' (drop 5 u) else None)"

text \<open>The string builder gets a separator once it holds some text.\<close>

fun join_from :: "string \<Rightarrow> Content list \<Rightarrow> string" where
  "join_from acc [] = acc"
| "join_from acc (c # cs) =
     (case c of
        KindText t \<Rightarrow> join_from (if acc = [] then t else acc @ [CHR 10, CHR 10] @ t) cs
      | _ \<Rightarrow> join_from acc cs)"

definition joinText :: "Content list \<Rightarrow> string" where
  "joinText cs = join_from [] cs"

definition chatContent :: "chatPart list \<Rightarrow> json" where
  "chatContent parts =
     (if list_all (\<lambda>p. cpType p = ''text'') parts then JStr (join [CHR 10] (map cpText parts))
      else JArr (map enc_chatPart parts))"

definition text_part :: "string \<Rightarrow> chatPart" where
  "text_part t = \<lparr>cpType = ''text'', cpText = t, cpImageURL = None\<rparr>"

definition image_part :: "string \<Rightarrow> chatPart" where
  "image_part u = \<lparr>cpType = ''image_url'', cpText = [], cpImageURL = Some u\<rparr>"

definition simple_msg :: "string \<Rightarrow> json option \<Rightarrow> chatMsg" where
  "simple_msg role c = \<lparr>cmRole = role, cmContent = c, cmToolCalls = [], cmToolCallID = []\<rparr>"

section \<open>To the wire\<close>

fun kind_name :: "Content \<Rightarrow> string" where
  "kind_name (KindText t) = ''text''"
| "kind_name (KindThinking t s r) = ''thinking''"
| "kind_name (KindToolUse i n a) = ''tool_use''"
| "kind_name (KindToolResult i r e) = ''tool_result''"
| "kind_name (KindImage m d u) = ''image''"

definition error_prefixed :: "bool \<Rightarrow> string \<Rightarrow> string" where
  "error_prefixed e s = (if e \<and> \<not> has_prefix ''Error'' s then ''Error: '' @ s else s)"

definition raw_or_text :: "json option \<Rightarrow> string" where
  "raw_or_text r = (case r of Some (JStr s) \<Rightarrow> s | _ \<Rightarrow> raw_text r)"

fun toolResultToChat :: "nat \<Rightarrow> Content \<Rightarrow> chatMsg result" where
  "toolResultToChat i (KindToolResult rid res e) =
     Inr \<lparr>cmRole = ''tool'', cmContent = Some (JStr (error_prefixed e (raw_or_text res))),
          cmToolCalls = [], cmToolCallID = rid\<rparr>"
| "toolResultToChat i c = Inl (''tool message may only carry tool_result, got '' @ quoted (kind_name c))"

definition toolResultsToChat :: "Content list \<Rightarrow> chatMsg list result" where
  "toolResultsToChat cs = traverse toolResultToChat cs"

text \<open>The loop over the blocks of a user message: the parts and the tool results.\<close>

fun user_split :: "Content list \<Rightarrow> (chatPart list \<times> Content list) result" where
  "user_split [] = Inr ([], [])"
| "user_split (c # cs) =
     (case c of
        KindToolUse i n a \<Rightarrow> Inl (''unsupported content kind '' @ quoted ''tool_use'' @ '' in user message'')
      | _ \<Rightarrow> rbind (user_split cs) (\<lambda>(ps, rs). Inr
          (case c of
             KindText t \<Rightarrow> (text_part t # ps, rs)
           | KindImage m d u \<Rightarrow> (image_part (imageDataURL m d u) # ps, rs)
           | KindToolResult i r e \<Rightarrow> (ps, c # rs)
           | _ \<Rightarrow> (ps, rs))))"

fun assistant_split :: "Content list \<Rightarrow> (chatPart list \<times> chatToolCall list) result" where
  "assistant_split [] = Inr ([], [])"
| "assistant_split (c # cs) =
     (case c of
        KindToolResult i r e \<Rightarrow>
          Inl (''unsupported content kind '' @ quoted ''tool_result'' @ '' in assistant message'')
      | _ \<Rightarrow> rbind (assistant_split cs) (\<lambda>(ps, ts). Inr
          (case c of
             KindText t \<Rightarrow> (text_part t # ps, ts)
           | KindToolUse i n a \<Rightarrow>
               (ps, \<lparr>ctID = i, ctType = ''function'', ctName = n, ctArguments = text_or_braces a\<rparr> # ts)
           | _ \<Rightarrow> (ps, ts))))"

definition irMessageToChat :: "Message \<Rightarrow> chatMsg list result" where
  "irMessageToChat m =
     (case mRole m of
        RoleSystem \<Rightarrow> Inr [simple_msg ''system'' (Some (JStr (joinText (mContent m))))]
      | RoleTool \<Rightarrow> toolResultsToChat (mContent m)
      | RoleUser \<Rightarrow>
          rbind (user_split (mContent m)) (\<lambda>(parts, results).
          rbind (toolResultsToChat results) (\<lambda>tm.
          Inr (tm @ (if parts = [] then [] else [simple_msg ''user'' (Some (chatContent parts))]))))
      | RoleAssistant \<Rightarrow>
          rbind (assistant_split (mContent m)) (\<lambda>(parts, calls).
          Inr [\<lparr>cmRole = ''assistant'',
                cmContent = (if parts \<noteq> [] then Some (chatContent parts)
                             else if calls = [] then Some (JStr []) else None),
                cmToolCalls = calls, cmToolCallID = []\<rparr>]))"

definition chatToolFromIR :: "Tool \<Rightarrow> chatTool" where
  "chatToolFromIR t = \<lparr>clType = ''function'', clName = tName t, clDescription = tDescription t,
     clParameters = Some (case tSchema t of None \<Rightarrow> empty_object_schema | Some j \<Rightarrow> j)\<rparr>"

fun chatChoiceFromIR :: "ToolChoiceMode \<Rightarrow> string \<Rightarrow> json option" where
  "chatChoiceFromIR ToolChoiceRequired n = Some (JStr ''required'')"
| "chatChoiceFromIR ToolChoiceNone n = Some (JStr ''none'')"
| "chatChoiceFromIR ToolChoiceNamed n =
     Some (jmap [(''type'', JStr ''function''), (''function'', jmap [(''name'', JStr n)])])"
| "chatChoiceFromIR _ n = None"

definition positive_tokens :: "i64 option \<Rightarrow> i64 option" where
  "positive_tokens m = (case m of Some v \<Rightarrow> if 0 < sint v then Some v else None | None \<Rightarrow> None)"

definition openAIChatRequest_wire :: "Request \<Rightarrow> string \<Rightarrow> Options \<Rightarrow> chatReq result" where
  "openAIChatRequest_wire r providerModel opts =
     rbind (traverse (\<lambda>i m. wrap_err (''openai chat request: messages['' @ nat_text i @ '']: '')
        (irMessageToChat m)) (rMessages r)) (\<lambda>mss.
     (let sys = (if rSystem r = [] then []
                 else [simple_msg ''system'' (Some (JStr (joinText (rSystem r))))]);
          tools = map chatToolFromIR (rTools r)
      in Inr \<lparr>cqModel = providerModel, cqMessages = sys @ concat mss, cqTools = tools,
           cqToolChoice = chatChoiceFromIR (tcMode (rToolChoice r)) (tcName (rToolChoice r)),
           cqParallelToolCalls = rParallelToolCalls r,
           cqMaxCompletionTokens = positive_tokens (rMaxTokens r), cqMaxTokens = None,
           cqTemperature = rTemperature r, cqTopP = rTopP r,
           cqStop = (if rStop r = [] then None else Some (JArr (map JStr (rStop r)))),
           cqStream = rStream r, cqIncludeUsage = (if rStream r then Some True else None),
           cqResponseFormat = rResponseFormat r,
           cqReasoningEffort = (if tools \<noteq> [] \<and> oTargetIsBedrock opts then ''none'' else [])\<rparr>))"

definition openAIChatRequest_FromIR :: "Request \<Rightarrow> string \<Rightarrow> Options \<Rightarrow> string result" where
  "openAIChatRequest_FromIR r providerModel opts =
     rbind (openAIChatRequest_wire r providerModel opts) (\<lambda>w. Inr (json_text (enc_chatReq w)))"

section \<open>From the wire\<close>

definition chatPartToIR :: "nat \<Rightarrow> chatPart \<Rightarrow> Content result" where
  "chatPartToIR i p =
     (if cpType p = ''text'' then Inr (KindText (cpText p))
      else if cpType p = ''image_url'' then
        Inr (case cpImageURL p of
               None \<Rightarrow> KindImage [] [] []
             | Some u \<Rightarrow> (case parseDataURL u of
                            Some (mt, d) \<Rightarrow> KindImage mt d []
                          | None \<Rightarrow> KindImage [] [] u))
      else Inl (''content['' @ nat_text i @ '']: unsupported part type '' @ quoted (cpType p)))"

definition chatContentToIR :: "json option \<Rightarrow> Content list result" where
  "chatContentToIR raw =
     (case raw of
        None \<Rightarrow> Inr []
      | Some JNull \<Rightarrow> Inr []
      | Some (JStr s) \<Rightarrow> Inr [KindText s]
      | Some j \<Rightarrow>
          (case dec_arr dec_chatPart j of
             None \<Rightarrow> Inl (''content: '' @ json_err)
           | Some parts \<Rightarrow> traverse chatPartToIR parts))"

text \<open>The arguments of a tool call when they are valid JSON, else an empty object.\<close>

definition valid_args :: "string \<Rightarrow> json" where
  "valid_args a = (case json_parse a of None \<Rightarrow> JObj [] | Some j \<Rightarrow> j)"

definition chatToolCallToIR :: "chatToolCall \<Rightarrow> Content" where
  "chatToolCallToIR tc = KindToolUse (ctID tc) (ctName tc) (Some (valid_args (ctArguments tc)))"

definition chatToolText :: "json option \<Rightarrow> string" where
  "chatToolText raw =
     (case raw of
        Some (JStr s) \<Rightarrow> s
      | _ \<Rightarrow> (case chatContentToIR raw of Inl e \<Rightarrow> [] | Inr bs \<Rightarrow> joinText bs))"

text \<open>One message of the loop: the state is \<open>leading\<close>, the system blocks and the messages.\<close>

definition chat_message_in ::
  "nat \<Rightarrow> chatMsg \<Rightarrow> bool \<times> Content list \<times> Message list \<Rightarrow> (bool \<times> Content list \<times> Message list) result" where
  "chat_message_in i m st =
     (let (leading, sys, msgs) = st;
          prefix = ''openai chat request: messages['' @ nat_text i @ '']: '';
          blocks = wrap_err prefix (chatContentToIR (cmContent m))
      in if cmRole m = ''system'' \<or> cmRole m = ''developer'' then
           rbind blocks (\<lambda>bs.
             Inr (if leading then (leading, sys @ bs, msgs)
                  else (leading, sys, msgs @ [\<lparr>mRole = RoleSystem, mContent = bs\<rparr>])))
         else if cmRole m = ''user'' then
           rbind blocks (\<lambda>bs. Inr (False, sys, msgs @ [\<lparr>mRole = RoleUser, mContent = bs\<rparr>]))
         else if cmRole m = ''assistant'' then
           rbind blocks (\<lambda>bs. Inr (False, sys, msgs @
             [\<lparr>mRole = RoleAssistant, mContent = bs @ map chatToolCallToIR (cmToolCalls m)\<rparr>]))
         else if cmRole m = ''tool'' then
           Inr (False, sys, msgs @ [\<lparr>mRole = RoleTool,
             mContent = [KindToolResult (cmToolCallID m) (Some (JStr (chatToolText (cmContent m)))) False]\<rparr>])
         else Inl (prefix @ ''unknown role '' @ quoted (cmRole m)))"

fun chat_messages_in ::
  "nat \<Rightarrow> chatMsg list \<Rightarrow> bool \<times> Content list \<times> Message list \<Rightarrow> (bool \<times> Content list \<times> Message list) result" where
  "chat_messages_in i [] st = Inr st"
| "chat_messages_in i (m # ms) st = rbind (chat_message_in i m st) (chat_messages_in (Suc i) ms)"

definition stop_sequences_in :: "json option \<Rightarrow> string list" where
  "stop_sequences_in raw =
     (case raw of
        None \<Rightarrow> []
      | Some JNull \<Rightarrow> []
      | Some (JStr s) \<Rightarrow> [s]
      | Some (JArr xs) \<Rightarrow> map (\<lambda>x. case dec_str x of None \<Rightarrow> [] | Some s \<Rightarrow> s) xs
      | Some j \<Rightarrow> [])"

definition named_or_unset :: "string \<Rightarrow> ToolChoice" where
  "named_or_unset n = (if n = [] then no_choice else named_choice n)"

definition choice_word :: "string \<Rightarrow> ToolChoice" where
  "choice_word s = (if s = ''none'' then choice ToolChoiceNone
     else if s = ''required'' then choice ToolChoiceRequired else no_choice)"

definition chatChoiceToIR :: "json option \<Rightarrow> ToolChoice" where
  "chatChoiceToIR raw =
     (case raw of
        None \<Rightarrow> no_choice
      | Some JNull \<Rightarrow> no_choice
      | Some (JStr s) \<Rightarrow> choice_word s
      | Some j \<Rightarrow>
          (case do { fs \<leftarrow> dec_obj j; f \<leftarrow> get_val dec_obj [] ''function'' fs; get_str ''name'' f } of
             None \<Rightarrow> no_choice
           | Some n \<Rightarrow> named_or_unset n))"

definition openAIChatRequest_ToIR :: "string \<Rightarrow> Request result" where
  "openAIChatRequest_ToIR body =
     (case unmarshal dec_chatReq body of
        None \<Rightarrow> Inl (''openai chat request: '' @ json_err)
      | Some w \<Rightarrow>
          if cqModel w = [] then Inl ''openai chat request: model is required''
          else rbind (chat_messages_in 0 (cqMessages w) (True, [], [])) (\<lambda>(leading, sys, msgs).
            Inr \<lparr>rModel = cqModel w, rSystem = sys, rMessages = msgs,
                 rTools = map (\<lambda>t. \<lparr>tName = clName t, tDescription = clDescription t,
                                    tSchema = clParameters t\<rparr>)
                   (filter (\<lambda>t. clType t = ''function'' \<or> clType t = []) (cqTools w)),
                 rToolChoice = chatChoiceToIR (cqToolChoice w),
                 rParallelToolCalls = cqParallelToolCalls w,
                 rMaxTokens = (case cqMaxCompletionTokens w of Some v \<Rightarrow> Some v | None \<Rightarrow> cqMaxTokens w),
                 rTemperature = cqTemperature w, rTopP = cqTopP w, rStop = stop_sequences_in (cqStop w),
                 rStream = cqStream w, rResponseFormat = cqResponseFormat w\<rparr>))"

section \<open>The wire structs survive their own text\<close>

lemma dec_enc_chatPart [simp]: "dec_chatPart (enc_chatPart p) = Some p"
  by (cases "cpImageURL p") (simp_all add: dec_chatPart_def enc_chatPart_def dec_imageURL_def struct_dec)

lemma dec_enc_chatToolCall [simp]: "dec_chatToolCall (enc_chatToolCall c) = Some c"
  by (simp add: dec_chatToolCall_def enc_chatToolCall_def struct_dec)

lemma dec_enc_chatMsg [simp]: "dec_chatMsg (enc_chatMsg m) = Some m"
  by (simp add: dec_chatMsg_def enc_chatMsg_def struct_dec cong: if_cong)

lemma dec_enc_chatTool [simp]: "dec_chatTool (enc_chatTool t) = Some t"
  by (simp add: dec_chatTool_def enc_chatTool_def struct_dec)

lemma dec_enc_chatReq: "dec_chatReq (enc_chatReq w) = Some w"
  by (simp add: dec_chatReq_def enc_chatReq_def dec_streamOpts_def struct_dec cong: if_cong option.case_cong)

lemma json_ok_chatMsg [simp]: "json_ok (enc_chatMsg m) = raw_ok (cmContent m)"
  by (auto simp: enc_chatMsg_def enc_chatToolCall_def json_ok_members simp del: json_ok.simps(3))

lemma json_ok_chatPart [simp]: "json_ok (enc_chatPart p)"
  by (cases "cpImageURL p") (simp_all add: enc_chatPart_def json_ok_members del: json_ok.simps(3))

lemma json_ok_chatReq:
  assumes "\<forall>m \<in> set (cqMessages w). raw_ok (cmContent m)" and "\<forall>t \<in> set (cqTools w). raw_ok (clParameters t)"
    and "raw_ok (cqToolChoice w)" and "raw_ok (cqStop w)" and "raw_ok (cqResponseFormat w)"
    and "pred_option num_ok (cqTemperature w)" and "pred_option num_ok (cqTopP w)"
  shows "json_ok (enc_chatReq w)"
proof -
  have num: "pred_option num_ok x \<Longrightarrow> raw_ok (map_option JNum x)" for x by (cases x) simp_all
  have tool: "raw_ok (clParameters t) \<Longrightarrow> json_ok (enc_chatTool t)" for t
    by (simp add: enc_chatTool_def json_ok_members del: json_ok.simps(3))
  have plain: "raw_ok (map_option JBool b)" "raw_ok (map_option num64 n)"
    "raw_ok (map_option (\<lambda>b. JObj [(''include_usage'', JBool b)]) c)" for b n c
    by (cases b; cases n; cases c; simp)+
  show ?thesis
    using assms num tool plain by (auto simp: enc_chatReq_def json_ok_members simp del: json_ok.simps(3))
qed

section \<open>The tool conversation survives\<close>

text \<open>
  What a conversation says about tools, in order: the calls with their id, name and arguments, and
  the results with the id of their call and their text; on the IR and on the wire.
\<close>

datatype tool_event = Called string string json | Answered string string

fun content_event_ir :: "Content \<Rightarrow> tool_event list" where
  "content_event_ir (KindToolUse i n a) = [Called i n (case a of None \<Rightarrow> JObj [] | Some j \<Rightarrow> j)]"
| "content_event_ir (KindToolResult i r e) = [Answered i (error_prefixed e (raw_or_text r))]"
| "content_event_ir _ = []"

definition tool_trace :: "Message list \<Rightarrow> tool_event list" where
  "tool_trace ms = concat (map (\<lambda>m. concat (map content_event_ir (mContent m))) ms)"

definition wire_trace :: "chatMsg list \<Rightarrow> tool_event list" where
  "wire_trace ms = concat (map (\<lambda>m.
     if cmRole m = ''tool'' then [Answered (cmToolCallID m) (chatToolText (cmContent m))]
     else map (\<lambda>c. Called (ctID c) (ctName c) (valid_args (ctArguments c))) (cmToolCalls m)) ms)"

lemma trace_simps [simp]:
  "tool_trace [] = []" "tool_trace (m # ms) = concat (map content_event_ir (mContent m)) @ tool_trace ms"
  "tool_trace (ms @ ns) = tool_trace ms @ tool_trace ns"
  "wire_trace [] = []" "wire_trace (xs @ ys) = wire_trace xs @ wire_trace ys"
  by (simp_all add: tool_trace_def wire_trace_def)

definition tool_input_ok :: "Content \<Rightarrow> bool" where
  "tool_input_ok c \<longleftrightarrow> (case c of KindToolUse i n a \<Rightarrow> raw_ok a | _ \<Rightarrow> True)"

lemma json_text_nonempty: "json_ok j \<Longrightarrow> json_text j \<noteq> []"
  using json_text_hd [of j] by auto

lemma valid_args_text [simp]:
  "raw_ok a \<Longrightarrow> valid_args (text_or_braces a) = (case a of None \<Rightarrow> JObj [] | Some j \<Rightarrow> j)"
proof (cases a)
  case None
  have "json_parse ''{}'' = Some (JObj [])" by code_simp
  with None show ?thesis by (simp add: valid_args_def text_or_braces_def raw_text_def)
next
  case (Some j)
  then show "raw_ok a \<Longrightarrow> ?thesis"
    by (simp add: valid_args_def text_or_braces_def raw_text_def json_text_nonempty json_parse_text)
qed

definition part_ok :: "chatPart \<Rightarrow> bool" where
  "part_ok p \<longleftrightarrow> cpType p = ''text'' \<or> cpType p = ''image_url''"

text \<open>A message that this gateway writes: its content reads back and only assistants call tools.\<close>

definition chat_msg_ok :: "chatMsg \<Rightarrow> bool" where
  "chat_msg_ok m \<longleftrightarrow> raw_ok (cmContent m)
     \<and> (cmRole m = ''tool'' \<or> (\<exists>bs. chatContentToIR (cmContent m) = Inr bs)
         \<and> (cmRole m = ''assistant'' \<or> cmRole m \<in> {''system'', ''user''} \<and> cmToolCalls m = []))"

lemma parts_decode:
  "list_all part_ok ps \<Longrightarrow> \<exists>bs. traverse_from i chatPartToIR ps = Inr bs"
  by (induction ps arbitrary: i) (auto simp: part_ok_def chatPartToIR_def rbind_Inr_iff)

lemma chatContent_ok:
  assumes "list_all part_ok ps"
  shows "raw_ok (Some (chatContent ps)) \<and> (\<exists>bs. chatContentToIR (Some (chatContent ps)) = Inr bs)"
  using parts_decode [OF assms, of 0] by (auto simp: chatContent_def chatContentToIR_def)

lemma parts_no_tools:
  "traverse_from i chatPartToIR ps = Inr bs \<Longrightarrow> concat (map content_event_ir bs) = []"
  by (induction ps arbitrary: i bs)
    (auto simp: rbind_Inr_iff chatPartToIR_def split: if_splits option.splits)

lemma chatContent_no_tools: "chatContentToIR r = Inr bs \<Longrightarrow> concat (map content_event_ir bs) = []"
  using parts_no_tools [of 0 _ bs] by (auto simp: chatContentToIR_def split: option.splits json.splits)

lemma user_split_props:
  "user_split cs = Inr (ps, rs) \<Longrightarrow> list_all part_ok ps
     \<and> concat (map content_event_ir rs) = concat (map content_event_ir cs)"
  by (induction cs arbitrary: ps rs)
    (auto simp: rbind_Inr_iff part_ok_def text_part_def image_part_def split: Content.splits)

lemma assistant_split_props:
  "assistant_split cs = Inr (ps, ts) \<Longrightarrow> \<forall>c \<in> set cs. tool_input_ok c \<Longrightarrow> list_all part_ok ps
     \<and> map (\<lambda>c. Called (ctID c) (ctName c) (valid_args (ctArguments c))) ts = concat (map content_event_ir cs)"
  by (induction cs arbitrary: ps ts)
    (auto simp: rbind_Inr_iff part_ok_def text_part_def tool_input_ok_def split: Content.splits)

lemma tool_results_props:
  "traverse_from i toolResultToChat cs = Inr ms \<Longrightarrow>
   wire_trace ms = concat (map content_event_ir cs) \<and> (\<forall>m \<in> set ms. chat_msg_ok m)"
proof (induction cs arbitrary: i ms)
  case (Cons c cs)
  then obtain m ns where m: "toolResultToChat i c = Inr m" and ns: "traverse_from (Suc i) toolResultToChat cs = Inr ns"
    and ms: "ms = m # ns" by (auto simp: rbind_Inr_iff)
  obtain rid res e where c: "c = KindToolResult rid res e" using m by (cases c) auto
  have "wire_trace [m] = content_event_ir c" "chat_msg_ok m"
    using m c by (auto simp: wire_trace_def chatToolText_def chat_msg_ok_def)
  moreover have "wire_trace ms = wire_trace [m] @ wire_trace ns" by (simp add: ms wire_trace_def)
  ultimately show ?case using Cons.IH [OF ns] ms by simp
qed simp

lemma message_props:
  assumes "irMessageToChat m = Inr ws" and "\<forall>c \<in> set (mContent m). tool_input_ok c"
    and "mRole m = RoleSystem \<Longrightarrow> concat (map content_event_ir (mContent m)) = []"
  shows "wire_trace ws = concat (map content_event_ir (mContent m)) \<and> (\<forall>w \<in> set ws. chat_msg_ok w)"
proof (cases "mRole m")
  case RoleSystem
  with assms show ?thesis
    by (auto simp: irMessageToChat_def wire_trace_def simple_msg_def chat_msg_ok_def chatContentToIR_def)
next
  case RoleUser
  then obtain ps rs tm where sp: "user_split (mContent m) = Inr (ps, rs)" and tm: "toolResultsToChat rs = Inr tm"
    and ws: "ws = tm @ (if ps = [] then [] else [simple_msg ''user'' (Some (chatContent ps))])"
    using assms(1) by (auto simp: irMessageToChat_def rbind_Inr_iff)
  have "chat_msg_ok (simple_msg ''user'' (Some (chatContent ps)))"
    using chatContent_ok [of ps] user_split_props [OF sp] by (simp add: chat_msg_ok_def simple_msg_def)
  with ws tool_results_props [OF tm [unfolded toolResultsToChat_def]] user_split_props [OF sp] show ?thesis
    by (auto simp: wire_trace_def simple_msg_def)
next
  case RoleAssistant
  then obtain ps ts where sp: "assistant_split (mContent m) = Inr (ps, ts)"
    and ws: "ws = [\<lparr>cmRole = ''assistant'', cmContent = (if ps \<noteq> [] then Some (chatContent ps)
       else if ts = [] then Some (JStr []) else None), cmToolCalls = ts, cmToolCallID = []\<rparr>]"
    using assms(1) by (auto simp: irMessageToChat_def rbind_Inr_iff)
  with chatContent_ok [of ps] assistant_split_props [OF sp assms(2)] show ?thesis
    by (auto simp: wire_trace_def chat_msg_ok_def chatContentToIR_def)
next
  case RoleTool
  with assms(1) show ?thesis
    using tool_results_props [of 0 "mContent m" ws] by (simp add: irMessageToChat_def toolResultsToChat_def)
qed

lemma concat_props:
  "traverse_from i (\<lambda>i m. wrap_err (p i) (irMessageToChat m)) ms = Inr wss \<Longrightarrow>
   \<forall>m \<in> set ms. (\<forall>c \<in> set (mContent m). tool_input_ok c)
     \<and> (mRole m = RoleSystem \<longrightarrow> concat (map content_event_ir (mContent m)) = []) \<Longrightarrow>
   wire_trace (concat wss) = tool_trace ms \<and> (\<forall>w \<in> set (concat wss). chat_msg_ok w)"
proof (induction ms arbitrary: i wss)
  case (Cons m ms)
  then obtain ws wss' where ws: "irMessageToChat m = Inr ws" "wss = ws # wss'"
    and rest: "traverse_from (Suc i) (\<lambda>i m. wrap_err (p i) (irMessageToChat m)) ms = Inr wss'"
    by (auto simp: rbind_Inr_iff)
  with message_props [OF ws(1)] Cons.prems(2) Cons.IH [OF rest] show ?case by auto
qed simp

lemma message_in_trace:
  assumes "chat_msg_ok m"
  shows "\<exists>l' s' ms'. chat_message_in i m (l, sys, ms) = Inr (l', s', ms')
    \<and> tool_trace ms' = tool_trace ms @ wire_trace [m]"
proof (cases "cmRole m = ''tool''")
  case True
  then show ?thesis
    by (auto simp: chat_message_in_def Let_def wire_trace_def error_prefixed_def raw_or_text_def)
next
  case False
  with assms obtain bs where bs: "chatContentToIR (cmContent m) = Inr bs"
      "cmRole m = ''assistant'' \<or> cmRole m \<in> {''system'', ''user''} \<and> cmToolCalls m = []"
    by (auto simp: chat_msg_ok_def)
  have "concat (map content_event_ir (map chatToolCallToIR cs))
      = map (\<lambda>c. Called (ctID c) (ctName c) (valid_args (ctArguments c))) cs" for cs
    by (induction cs) (simp_all add: chatToolCallToIR_def)
  then have "concat (map (content_event_ir \<circ> chatToolCallToIR) cs)
      = map (\<lambda>c. Called (ctID c) (ctName c) (valid_args (ctArguments c))) cs" for cs by simp
  with bs chatContent_no_tools [OF bs(1)] show ?thesis
    by (auto simp: chat_message_in_def Let_def wire_trace_def)
qed

lemma messages_in_trace:
  "\<forall>m \<in> set ws. chat_msg_ok m \<Longrightarrow>
   \<exists>l' s' ms'. chat_messages_in i ws (l, sys, ms) = Inr (l', s', ms') \<and> tool_trace ms' = tool_trace ms @ wire_trace ws"
proof (induction ws arbitrary: i l sys ms)
  case (Cons w ws)
  obtain l1 s1 ms1 where 1: "chat_message_in i w (l, sys, ms) = Inr (l1, s1, ms1)"
      "tool_trace ms1 = tool_trace ms @ wire_trace [w]"
    using message_in_trace [of w i l sys ms] Cons.prems by auto
  obtain l2 s2 ms2 where "chat_messages_in (Suc i) ws (l1, s1, ms1) = Inr (l2, s2, ms2)"
      "tool_trace ms2 = tool_trace ms1 @ wire_trace ws"
    using Cons by fastforce
  moreover have "wire_trace (w # ws) = wire_trace [w] @ wire_trace ws" by (simp add: wire_trace_def)
  ultimately show ?case using 1 by simp
qed simp

definition request_printable :: "Request \<Rightarrow> bool" where
  "request_printable r \<longleftrightarrow>
     list_all (\<lambda>m. list_all tool_input_ok (mContent m)
       \<and> (mRole m = RoleSystem \<longrightarrow> concat (map content_event_ir (mContent m)) = [])) (rMessages r)
     \<and> list_all (\<lambda>t. raw_ok (tSchema t)) (rTools r) \<and> raw_ok (rResponseFormat r)
     \<and> pred_option num_ok (rTemperature r) \<and> pred_option num_ok (rTopP r)"

definition schema_or_empty :: "Tool \<Rightarrow> Tool" where
  "schema_or_empty t = t\<lparr>tSchema := Some (case tSchema t of None \<Rightarrow> empty_object_schema | Some j \<Rightarrow> j)\<rparr>"

fun chat_choice_norm :: "ToolChoiceMode \<Rightarrow> string \<Rightarrow> ToolChoice" where
  "chat_choice_norm ToolChoiceRequired n = choice ToolChoiceRequired"
| "chat_choice_norm ToolChoiceNone n = choice ToolChoiceNone"
| "chat_choice_norm ToolChoiceNamed n = named_or_unset n"
| "chat_choice_norm _ n = no_choice"

lemma chat_choice_trip:
  "chatChoiceToIR (chatChoiceFromIR m n) = chat_choice_norm m n \<and> raw_ok (chatChoiceFromIR m n)"
  by (cases m) (simp_all add: chatChoiceToIR_def choice_word_def jmap_def json_dec)

lemma stop_trip: "stop_sequences_in (if xs = [] then None else Some (JArr (map JStr xs))) = xs"
  by (simp add: stop_sequences_in_def comp_def)

text \<open>C28: a request written for Chat Completions always reads back, and nothing about its tools is lost
  or reordered: every call with its id, name and arguments, every result with the id of its call and its
  text (an error marked as such), the tools with their schemas, the choice among them; and the limits,
  the sampling parameters, the stop sequences and the response format stay.\<close>

theorem chat_request_keeps_tools:
  assumes "openAIChatRequest_FromIR r pm opts = Inr out" and "pm \<noteq> []" and "request_printable r"
  shows "\<exists>q. openAIChatRequest_ToIR out = Inr q \<and> rModel q = pm
    \<and> tool_trace (rMessages q) = tool_trace (rMessages r)
    \<and> rTools q = map schema_or_empty (rTools r)
    \<and> rToolChoice q = chat_choice_norm (tcMode (rToolChoice r)) (tcName (rToolChoice r))
    \<and> rMaxTokens q = positive_tokens (rMaxTokens r) \<and> rParallelToolCalls q = rParallelToolCalls r
    \<and> rTemperature q = rTemperature r \<and> rTopP q = rTopP r \<and> rStop q = rStop r \<and> rStream q = rStream r
    \<and> rResponseFormat q = rResponseFormat r"
proof -
  let ?sys = "if rSystem r = [] then [] else [simple_msg ''system'' (Some (JStr (joinText (rSystem r))))]"
  obtain w wss where tr: "traverse (\<lambda>i m. wrap_err (''openai chat request: messages['' @ nat_text i @ '']: '')
        (irMessageToChat m)) (rMessages r) = Inr wss"
    and w: "w = \<lparr>cqModel = pm, cqMessages = ?sys @ concat wss, cqTools = map chatToolFromIR (rTools r),
           cqToolChoice = chatChoiceFromIR (tcMode (rToolChoice r)) (tcName (rToolChoice r)),
           cqParallelToolCalls = rParallelToolCalls r,
           cqMaxCompletionTokens = positive_tokens (rMaxTokens r), cqMaxTokens = None,
           cqTemperature = rTemperature r, cqTopP = rTopP r,
           cqStop = (if rStop r = [] then None else Some (JArr (map JStr (rStop r)))),
           cqStream = rStream r, cqIncludeUsage = (if rStream r then Some True else None),
           cqResponseFormat = rResponseFormat r,
           cqReasoningEffort = (if map chatToolFromIR (rTools r) \<noteq> [] \<and> oTargetIsBedrock opts then ''none'' else [])\<rparr>"
    and out: "out = json_text (enc_chatReq w)"
    using assms(1) unfolding openAIChatRequest_FromIR_def openAIChatRequest_wire_def rbind_Inr_iff Let_def
    by (clarsimp simp del: map_is_Nil_conv)
  have pr: "wire_trace (concat wss) = tool_trace (rMessages r)" "\<forall>w \<in> set (concat wss). chat_msg_ok w"
    using concat_props [OF tr] assms(3) by (auto simp: request_printable_def list_all_iff)
  have sys: "\<forall>w \<in> set ?sys. chat_msg_ok w" "wire_trace ?sys = []"
    by (auto simp: chat_msg_ok_def simple_msg_def chatContentToIR_def wire_trace_def)
  have ok: "json_ok (enc_chatReq w)"
    using pr(2) sys(1) assms(3) chat_choice_trip by (intro json_ok_chatReq)
      (auto simp: w chat_msg_ok_def request_printable_def list_all_iff chatToolFromIR_def empty_object_schema_def
         split: option.splits)
  have "\<exists>l' s' ms'. chat_messages_in 0 (cqMessages w) (True, [], []) = Inr (l', s', ms')
      \<and> tool_trace ms' = tool_trace [] @ wire_trace (cqMessages w)"
    using pr(2) sys(1) by (intro messages_in_trace) (auto simp: w)
  then obtain l' s' ms' where ms: "chat_messages_in 0 (cqMessages w) (True, [], []) = Inr (l', s', ms')"
      "tool_trace ms' = tool_trace (rMessages r)"
    using pr(1) sys(2) by (auto simp: w)
  have tools: "map (\<lambda>t. \<lparr>tName = clName t, tDescription = clDescription t, tSchema = clParameters t\<rparr>)
      (filter (\<lambda>t. clType t = ''function'' \<or> clType t = []) (cqTools w)) = map schema_or_empty (rTools r)"
    by (simp add: w chatToolFromIR_def schema_or_empty_def filter_map comp_def)
  have "openAIChatRequest_ToIR out = Inr
     \<lparr>rModel = pm, rSystem = s', rMessages = ms', rTools = map schema_or_empty (rTools r),
      rToolChoice = chat_choice_norm (tcMode (rToolChoice r)) (tcName (rToolChoice r)),
      rParallelToolCalls = rParallelToolCalls r, rMaxTokens = positive_tokens (rMaxTokens r),
      rTemperature = rTemperature r, rTopP = rTopP r, rStop = rStop r, rStream = rStream r,
      rResponseFormat = rResponseFormat r\<rparr>"
    using assms(2) ms(1) chat_choice_trip stop_trip [of "rStop r"]
    by (simp add: openAIChatRequest_ToIR_def out ok dec_enc_chatReq tools) (simp add: w split: option.split)
  with ms(2) show ?thesis by simp
qed

lemma chat_request_keeps_tools_witness:
  "\<exists>out q. openAIChatRequest_FromIR (plain_request
       [\<lparr>mRole = RoleAssistant, mContent = [KindToolUse ''i'' ''f'' (Some (JObj []))]\<rparr>,
        \<lparr>mRole = RoleUser, mContent = [KindText ''t'', KindToolResult ''i'' (Some (JStr ''no'')) True]\<rparr>]) ''p''
       \<lparr>oDefaultMaxTokens = 1, oTargetIsBedrock = False\<rparr> = Inr out
     \<and> openAIChatRequest_ToIR out = Inr q
     \<and> tool_trace (rMessages q) = [Called ''i'' ''f'' (JObj []), Answered ''i'' ''Error: no'']"
proof -
  let ?r = "plain_request [\<lparr>mRole = RoleAssistant, mContent = [KindToolUse ''i'' ''f'' (Some (JObj []))]\<rparr>,
    \<lparr>mRole = RoleUser, mContent = [KindText ''t'', KindToolResult ''i'' (Some (JStr ''no'')) True]\<rparr>]"
  let ?o = "\<lparr>oDefaultMaxTokens = 1, oTargetIsBedrock = False\<rparr>"
  obtain out where out: "openAIChatRequest_FromIR ?r ''p'' ?o = Inr out"
    by (simp add: openAIChatRequest_FromIR_def openAIChatRequest_wire_def plain_request_def irMessageToChat_def
        toolResultsToChat_def no_choice_def)
  have "request_printable ?r"
    by (simp add: request_printable_def plain_request_def tool_input_ok_def)
  from chat_request_keeps_tools [OF out _ this] out show ?thesis
    by (fastforce simp: plain_request_def error_prefixed_def raw_or_text_def)
qed

end
