(* ===== verification/ReqResponses.thy ===== *)
theory ReqResponses
  imports ReqChat
begin

text \<open>
  \<^verbatim>\<open>translate/openai_responses.go\<close>, the request half: the request codec of the OpenAI Responses
  API. An item keeps its own JSON (\<open>riRaw\<close>), as the code keeps its bytes, so that a reasoning
  item can be replayed as it came.
\<close>

section \<open>Wire types\<close>

record responsesItem =
  riType :: string
  riID :: string
  riRole :: string
  riContent :: "json option"
  riCallID :: string
  riName :: string
  riArguments :: string
  riOutput :: "json option"
  riEncryptedContent :: string
  riSummary :: "json option"
  riStatus :: string
  riRaw :: json

definition dec_responsesItem :: "responsesItem decoder" where
  "dec_responsesItem j = do {
     fs \<leftarrow> dec_obj j;
     t \<leftarrow> get_str ''type'' fs;
     i \<leftarrow> get_str ''id'' fs;
     r \<leftarrow> get_str ''role'' fs;
     c \<leftarrow> get_str ''call_id'' fs;
     n \<leftarrow> get_str ''name'' fs;
     a \<leftarrow> get_str ''arguments'' fs;
     e \<leftarrow> get_str ''encrypted_content'' fs;
     s \<leftarrow> get_str ''status'' fs;
     Some \<lparr>riType = t, riID = i, riRole = r, riContent = get_raw ''content'' fs, riCallID = c,
       riName = n, riArguments = a, riOutput = get_raw ''output'' fs, riEncryptedContent = e,
       riSummary = get_raw ''summary'' fs, riStatus = s, riRaw = j\<rparr> }"

text \<open>\<open>json.Marshal\<close> of an item: the typed fields, without the raw bytes.\<close>

definition enc_responsesItem :: "responsesItem \<Rightarrow> json" where
  "enc_responsesItem it = JObj ([(''type'', JStr (riType it))] @ opt_str ''id'' (riID it)
     @ opt_str ''role'' (riRole it) @ opt_json ''content'' (riContent it)
     @ opt_str ''call_id'' (riCallID it) @ opt_str ''name'' (riName it)
     @ opt_str ''arguments'' (riArguments it) @ opt_json ''output'' (riOutput it)
     @ opt_str ''encrypted_content'' (riEncryptedContent it) @ opt_json ''summary'' (riSummary it)
     @ opt_str ''status'' (riStatus it))"

record responsesPart =
  rpType :: string
  rpText :: string
  rpImageURL :: string
  rpDetail :: string
  rpRefusal :: string

definition dec_responsesPart :: "responsesPart decoder" where
  "dec_responsesPart j = do {
     fs \<leftarrow> dec_obj j;
     t \<leftarrow> get_str ''type'' fs;
     x \<leftarrow> get_str ''text'' fs;
     u \<leftarrow> get_str ''image_url'' fs;
     d \<leftarrow> get_str ''detail'' fs;
     r \<leftarrow> get_str ''refusal'' fs;
     Some \<lparr>rpType = t, rpText = x, rpImageURL = u, rpDetail = d, rpRefusal = r\<rparr> }"

datatype responsesToolDef =
  ToolDef (tdType: string) (tdName: string) (tdDescription: string) (tdParameters: "json option")
    (tdTools: "responsesToolDef list")

lemma jget_size: "jget k fs = Some v \<Longrightarrow> size v < size (JObj fs)"
proof (induction fs)
  case (Cons p fs)
  then show ?case by (cases p) (fastforce simp: jget.simps split: option.splits if_splits)
qed simp

lemma jget_elem_size: "jget k fs = Some (JArr xs) \<Longrightarrow> x \<in> set xs \<Longrightarrow> size x < size (JObj fs)"
  using jget_size [of k fs "JArr xs"] size_list_estimation' [of x xs "size x" size] by simp

function dec_toolDef :: "json \<Rightarrow> responsesToolDef option" where
  "dec_toolDef (JObj fs) =
     Option.bind (get_str ''type'' fs) (\<lambda>t.
     Option.bind (get_str ''name'' fs) (\<lambda>n.
     Option.bind (get_str ''description'' fs) (\<lambda>d.
     Option.bind (get_ptr dec_bool ''strict'' fs) (\<lambda>s.
     Option.bind (case jget ''tools'' fs of
         None \<Rightarrow> Some []
       | Some JNull \<Rightarrow> Some []
       | Some (JArr xs) \<Rightarrow> those (map dec_toolDef xs)
       | Some _ \<Rightarrow> None) (\<lambda>ts.
     Some (ToolDef t n d (get_raw ''parameters'' fs) ts))))))"
| "dec_toolDef JNull = Some (ToolDef [] [] [] None [])"
| "dec_toolDef (JBool b) = None"
| "dec_toolDef (JNum l) = None"
| "dec_toolDef (JStr s) = None"
| "dec_toolDef (JArr xs) = None"
  by pat_completeness auto
termination by (relation "measure size") (auto intro: jget_elem_size simp del: json.size)

record responsesReq =
  sqModel :: string
  sqInstructions :: string
  sqInput :: "json option"
  sqTools :: "json list"
  sqToolChoice :: "json option"
  sqParallelToolCalls :: "bool option"
  sqMaxOutputTokens :: "i64 option"
  sqTemperature :: "string option"
  sqTopP :: "string option"
  sqStream :: bool
  sqStore :: "bool option"
  sqPreviousResponseID :: string
  sqText :: "json option"
  sqInclude :: "string list"

definition dec_responsesReq :: "responsesReq decoder" where
  "dec_responsesReq j = do {
     fs \<leftarrow> dec_obj j;
     m \<leftarrow> get_str ''model'' fs;
     ins \<leftarrow> get_str ''instructions'' fs;
     ts \<leftarrow> get_slice Some ''tools'' fs;
     p \<leftarrow> get_ptr dec_bool ''parallel_tool_calls'' fs;
     mt \<leftarrow> get_ptr dec_i64 ''max_output_tokens'' fs;
     te \<leftarrow> get_ptr dec_num ''temperature'' fs;
     tp \<leftarrow> get_ptr dec_num ''top_p'' fs;
     st \<leftarrow> get_bool ''stream'' fs;
     so \<leftarrow> get_ptr dec_bool ''store'' fs;
     pr \<leftarrow> get_str ''previous_response_id'' fs;
     inc \<leftarrow> get_slice dec_str ''include'' fs;
     Some \<lparr>sqModel = m, sqInstructions = ins, sqInput = get_raw ''input'' fs, sqTools = ts,
       sqToolChoice = get_raw ''tool_choice'' fs, sqParallelToolCalls = p, sqMaxOutputTokens = mt,
       sqTemperature = te, sqTopP = tp, sqStream = st, sqStore = so, sqPreviousResponseID = pr,
       sqText = get_raw ''text'' fs, sqInclude = inc\<rparr> }"

section \<open>From the wire\<close>

definition ErrStatefulResponses :: err where
  "ErrStatefulResponses = ''openai responses request: previous_response_id is not supported by the gateway (stateless translation); send the full conversation in input and set store:false''"

definition responsesPartToIR :: "nat \<Rightarrow> responsesPart \<Rightarrow> Content result" where
  "responsesPartToIR i p =
     (if rpType p = ''input_text'' \<or> rpType p = ''output_text'' \<or> rpType p = ''text''
      then Inr (KindText (rpText p))
      else if rpType p = ''refusal'' then Inr (KindText (rpRefusal p))
      else if rpType p = ''input_image'' then
        Inr (case parseDataURL (rpImageURL p) of
               Some (mt, d) \<Rightarrow> KindImage mt d []
             | None \<Rightarrow> KindImage [] [] (rpImageURL p))
      else Inl (''content['' @ nat_text i @ '']: unsupported part type '' @ quoted (rpType p)))"

definition responsesContentToIR :: "json option \<Rightarrow> Content list result" where
  "responsesContentToIR raw =
     (case raw of
        None \<Rightarrow> Inr []
      | Some JNull \<Rightarrow> Inr []
      | Some (JStr s) \<Rightarrow> Inr [KindText s]
      | Some j \<Rightarrow>
          (case dec_arr dec_responsesPart j of
             None \<Rightarrow> Inl (''content: '' @ json_err)
           | Some parts \<Rightarrow> traverse responsesPartToIR parts))"

definition responsesOutputToIR :: "json option \<Rightarrow> json" where
  "responsesOutputToIR raw =
     (case raw of
        None \<Rightarrow> JStr []
      | Some j \<Rightarrow>
          if j = JNull then JStr []
          else (case j of
                  JStr s \<Rightarrow> j
                | _ \<Rightarrow> (case dec_arr dec_responsesPart j of
                          None \<Rightarrow> j
                        | Some parts \<Rightarrow> JStr (concat (map rpText parts)))))"

definition dec_summaryPart :: "string decoder" where
  "dec_summaryPart j = do { fs \<leftarrow> dec_obj j; get_str ''text'' fs }"

definition reasoningSummaryText :: "json option \<Rightarrow> string" where
  "reasoningSummaryText raw =
     (case raw of
        None \<Rightarrow> []
      | Some j \<Rightarrow> (case dec_arr dec_summaryPart j of None \<Rightarrow> [] | Some ts \<Rightarrow> concat ts))"

definition appendAssistant :: "Message list \<Rightarrow> Content list \<Rightarrow> Message list" where
  "appendAssistant msgs cs =
     (if msgs \<noteq> [] \<and> mRole (last msgs) = RoleAssistant
      then butlast msgs @ [(last msgs)\<lparr>mContent := mContent (last msgs) @ cs\<rparr>]
      else msgs @ [\<lparr>mRole = RoleAssistant, mContent = cs\<rparr>])"

definition responses_item_in :: "nat \<Rightarrow> responsesItem \<Rightarrow> Message list \<Rightarrow> Message list result" where
  "responses_item_in i it msgs =
     (let prefix = ''openai responses request: input['' @ nat_text i @ '']: ''
      in if riType it = ''message'' \<or> riType it = [] then
           rbind (wrap_err prefix (responsesContentToIR (riContent it))) (\<lambda>bs.
             if riRole it = ''developer'' \<or> riRole it = ''system''
             then Inr (msgs @ [\<lparr>mRole = RoleSystem, mContent = bs\<rparr>])
             else if riRole it = ''user'' then Inr (msgs @ [\<lparr>mRole = RoleUser, mContent = bs\<rparr>])
             else if riRole it = ''assistant'' then Inr (appendAssistant msgs bs)
             else Inl (prefix @ ''unknown role '' @ quoted (riRole it)))
         else if riType it = ''function_call'' then
           Inr (appendAssistant msgs
             [KindToolUse (riCallID it) (riName it) (Some (valid_args (riArguments it)))])
         else if riType it = ''function_call_output'' then
           Inr (msgs @ [\<lparr>mRole = RoleTool,
             mContent = [KindToolResult (riCallID it) (Some (responsesOutputToIR (riOutput it))) False]\<rparr>])
         else if riType it = ''reasoning'' then
           Inr (appendAssistant msgs
             [KindThinking (reasoningSummaryText (riSummary it)) [] (Some (riRaw it))])
         else Inl (prefix @ ''unsupported item type '' @ quoted (riType it)))"

fun responses_items_in :: "nat \<Rightarrow> responsesItem list \<Rightarrow> Message list \<Rightarrow> Message list result" where
  "responses_items_in i [] msgs = Inr msgs"
| "responses_items_in i (it # its) msgs =
     rbind (responses_item_in i it msgs) (responses_items_in (Suc i) its)"

definition responses_input_in :: "json option \<Rightarrow> Message list result" where
  "responses_input_in raw =
     (case raw of
        None \<Rightarrow> Inr []
      | Some JNull \<Rightarrow> Inr []
      | Some (JStr s) \<Rightarrow> Inr [\<lparr>mRole = RoleUser, mContent = [KindText s]\<rparr>]
      | Some j \<Rightarrow>
          (case dec_arr dec_responsesItem j of
             None \<Rightarrow> Inl (''openai responses request: input: '' @ json_err)
           | Some items \<Rightarrow> responses_items_in 0 items []))"

function flattenResponsesTools :: "responsesToolDef \<Rightarrow> Tool list" where
  "flattenResponsesTools (ToolDef t n d p ts) =
     (if t = ''function'' then [\<lparr>tName = n, tDescription = d, tSchema = p\<rparr>]
      else if t = ''namespace'' then concat (map flattenResponsesTools ts)
      else [])"
  by pat_completeness auto
termination
  by (relation "measure size") (auto simp: less_Suc_eq_le intro: size_list_estimation')

definition responses_tools_in :: "json list \<Rightarrow> Tool list" where
  "responses_tools_in raws = concat (map (\<lambda>j.
     case dec_toolDef j of None \<Rightarrow> [] | Some td \<Rightarrow> flattenResponsesTools td) raws)"

definition responsesChoiceToIR :: "json option \<Rightarrow> ToolChoice" where
  "responsesChoiceToIR raw =
     (case raw of
        None \<Rightarrow> no_choice
      | Some JNull \<Rightarrow> no_choice
      | Some (JStr s) \<Rightarrow> choice_word s
      | Some j \<Rightarrow>
          (case do { fs \<leftarrow> dec_obj j; t \<leftarrow> get_str ''type'' fs; n \<leftarrow> get_str ''name'' fs; Some (t, n) } of
             None \<Rightarrow> no_choice
           | Some (t, n) \<Rightarrow> if t = ''function'' then named_or_unset n else no_choice))"

definition text_format :: "json option \<Rightarrow> json option" where
  "text_format raw =
     (if raw_set raw
      then (case dec_obj (raw_or_null raw) of
              None \<Rightarrow> None
            | Some fs \<Rightarrow> (let f = get_raw ''format'' fs in if raw_set f then f else None))
      else None)"

definition openAIResponsesRequest_ToIR :: "string \<Rightarrow> Request result" where
  "openAIResponsesRequest_ToIR body =
     (case unmarshal dec_responsesReq body of
        None \<Rightarrow> Inl (''openai responses request: '' @ json_err)
      | Some w \<Rightarrow>
          if sqModel w = [] then Inl ''openai responses request: model is required''
          else if sqPreviousResponseID w \<noteq> [] then Inl ErrStatefulResponses
          else rbind (responses_input_in (sqInput w)) (\<lambda>msgs.
            Inr \<lparr>rModel = sqModel w,
                 rSystem = (if sqInstructions w = [] then [] else [KindText (sqInstructions w)]),
                 rMessages = msgs, rTools = responses_tools_in (sqTools w),
                 rToolChoice = responsesChoiceToIR (sqToolChoice w),
                 rParallelToolCalls = sqParallelToolCalls w, rMaxTokens = sqMaxOutputTokens w,
                 rTemperature = sqTemperature w, rTopP = sqTopP w, rStop = [],
                 rStream = sqStream w, rResponseFormat = text_format (sqText w)\<rparr>))"

section \<open>To the wire\<close>

definition toolResultString :: "json option \<Rightarrow> bool \<Rightarrow> string" where
  "toolResultString res e =
     (case res of Some (JStr s) \<Rightarrow> error_prefixed e s | _ \<Rightarrow> raw_text res)"

definition typed_text :: "string \<Rightarrow> string \<Rightarrow> json" where
  "typed_text t x = jmap [(''type'', JStr t), (''text'', JStr x)]"

definition message_item :: "string \<Rightarrow> json list \<Rightarrow> json" where
  "message_item role parts =
     jmap [(''type'', JStr ''message''), (''role'', JStr role), (''content'', JArr parts)]"

definition message_items :: "string \<Rightarrow> json list \<Rightarrow> json list" where
  "message_items role parts = (if parts = [] then [] else [message_item role parts])"

definition output_item :: "string \<Rightarrow> json option \<Rightarrow> bool \<Rightarrow> json" where
  "output_item rid res e = jmap [(''type'', JStr ''function_call_output''), (''call_id'', JStr rid),
     (''output'', JStr (toolResultString res e))]"

definition call_item :: "string \<Rightarrow> string \<Rightarrow> json option \<Rightarrow> json" where
  "call_item i n a = jmap [(''type'', JStr ''function_call''), (''call_id'', JStr i), (''name'', JStr n),
     (''arguments'', JStr (text_or_braces a))]"

fun user_part :: "Content \<Rightarrow> json list" where
  "user_part (KindText t) = [typed_text ''input_text'' t]"
| "user_part (KindImage m d u) =
     [jmap [(''type'', JStr ''input_image''), (''image_url'', JStr (imageDataURL m d u))]]"
| "user_part _ = []"

fun system_part :: "Content \<Rightarrow> json list" where
  "system_part (KindText t) = [typed_text ''input_text'' t]"
| "system_part _ = []"

fun tool_output :: "Content \<Rightarrow> json list" where
  "tool_output (KindToolResult i r e) = [output_item i r e]"
| "tool_output _ = []"

text \<open>The loop over an assistant message: \<open>parts\<close> is flushed before another item is written.\<close>

fun assistant_items :: "json list \<Rightarrow> Content list \<Rightarrow> json list" where
  "assistant_items parts [] = message_items ''assistant'' parts"
| "assistant_items parts (KindText t # cs) = assistant_items (parts @ [typed_text ''output_text'' t]) cs"
| "assistant_items parts (KindToolUse i n a # cs) =
     message_items ''assistant'' parts @ call_item i n a # assistant_items [] cs"
| "assistant_items parts (KindThinking t s raw # cs) =
     message_items ''assistant'' parts
     @ (if probe_type raw = Some ''reasoning'' then [raw_or_null raw] else []) @ assistant_items [] cs"
| "assistant_items parts (KindToolResult i r e # cs) = assistant_items parts cs"
| "assistant_items parts (KindImage m d u # cs) = assistant_items parts cs"

definition irMessageToResponses :: "Message \<Rightarrow> json list" where
  "irMessageToResponses m =
     (case mRole m of
        RoleSystem \<Rightarrow> message_items ''developer'' (concat (map system_part (mContent m)))
      | RoleUser \<Rightarrow> concat (map tool_output (mContent m))
          @ message_items ''user'' (concat (map user_part (mContent m)))
      | RoleTool \<Rightarrow> concat (map tool_output (mContent m))
      | RoleAssistant \<Rightarrow> assistant_items [] (mContent m))"

definition responsesToolFromIR :: "Tool \<Rightarrow> json" where
  "responsesToolFromIR t = jmap [(''type'', JStr ''function''), (''name'', JStr (tName t)),
     (''description'', JStr (tDescription t)),
     (''parameters'', case tSchema t of None \<Rightarrow> empty_object_schema | Some j \<Rightarrow> j)]"

fun responsesChoiceFromIR :: "ToolChoiceMode \<Rightarrow> string \<Rightarrow> json option" where
  "responsesChoiceFromIR ToolChoiceRequired n = Some (JStr ''required'')"
| "responsesChoiceFromIR ToolChoiceNone n = Some (JStr ''none'')"
| "responsesChoiceFromIR ToolChoiceNamed n = Some (jmap [(''type'', JStr ''function''), (''name'', JStr n)])"
| "responsesChoiceFromIR _ n = None"

definition openAIResponsesRequest_json :: "Request \<Rightarrow> string \<Rightarrow> json" where
  "openAIResponsesRequest_json r providerModel =
     jmap ([(''model'', JStr providerModel), (''store'', JBool False)]
       @ opt_true ''stream'' (rStream r)
       @ opt_json ''max_output_tokens'' (map_option num64 (positive_tokens (rMaxTokens r)))
       @ opt_json ''temperature'' (map_option JNum (rTemperature r))
       @ opt_json ''top_p'' (map_option JNum (rTopP r))
       @ opt_json ''parallel_tool_calls'' (map_option JBool (rParallelToolCalls r))
       @ (if rSystem r = [] then [] else [(''instructions'', JStr (joinText (rSystem r)))])
       @ opt_json ''text'' (map_option (\<lambda>f. JObj [(''format'', f)]) (rResponseFormat r))
       @ [(''input'', JArr (concat (map irMessageToResponses (rMessages r))))]
       @ opt_list ''tools'' (map responsesToolFromIR (rTools r))
       @ opt_json ''tool_choice'' (responsesChoiceFromIR (tcMode (rToolChoice r)) (tcName (rToolChoice r))))"

definition openAIResponsesRequest_FromIR :: "Request \<Rightarrow> string \<Rightarrow> Options \<Rightarrow> string result" where
  "openAIResponsesRequest_FromIR r providerModel opts =
     Inr (json_text (openAIResponsesRequest_json r providerModel))"

end
