(* ===== verification/Responses.thy ===== *)
theory Responses
  imports ReqAnthropic ReqChat ReqResponses
begin

text \<open>
  The codecs of complete responses: \<^verbatim>\<open>translate/response.go\<close> and the response half of
  \<^verbatim>\<open>translate/openai_responses.go\<close>. FromIR takes the environment for ids and the clock and the number of random
  ids drawn so far.
\<close>

section \<open>Stop reasons\<close>

definition anthropicStopToIR :: "string option \<Rightarrow> StopReason" where
  "anthropicStopToIR s =
     (case s of
        None \<Rightarrow> StopOther
      | Some r \<Rightarrow>
          if r = ''end_turn'' then StopEndTurn
          else if r = ''max_tokens'' then StopMaxTokens
          else if r = ''tool_use'' then StopToolUse
          else if r = ''stop_sequence'' then StopStopSequence
          else if r = ''refusal'' then StopContentFilter
          else if r = ''pause_turn'' then StopEndTurn
          else StopOther)"

fun anthropicStopFromIR :: "StopReason \<Rightarrow> string" where
  "anthropicStopFromIR StopEndTurn = ''end_turn''"
| "anthropicStopFromIR StopMaxTokens = ''max_tokens''"
| "anthropicStopFromIR StopToolUse = ''tool_use''"
| "anthropicStopFromIR StopStopSequence = ''stop_sequence''"
| "anthropicStopFromIR StopContentFilter = ''refusal''"
| "anthropicStopFromIR _ = ''end_turn''"

definition chatFinishToIR :: "string option \<Rightarrow> bool \<Rightarrow> StopReason" where
  "chatFinishToIR s hasToolCalls =
     (case s of
        None \<Rightarrow> if hasToolCalls then StopToolUse else StopOther
      | Some r \<Rightarrow>
          if r = ''stop'' then (if hasToolCalls then StopToolUse else StopEndTurn)
          else if r = ''length'' then StopMaxTokens
          else if r = ''tool_calls'' \<or> r = ''function_call'' then StopToolUse
          else if r = ''content_filter'' then StopContentFilter
          else StopOther)"

fun chatFinishFromIR :: "StopReason \<Rightarrow> bool \<Rightarrow> string" where
  "chatFinishFromIR StopToolUse h = ''tool_calls''"
| "chatFinishFromIR StopMaxTokens h = ''length''"
| "chatFinishFromIR StopContentFilter h = ''content_filter''"
| "chatFinishFromIR StopEndTurn h = (if h then ''tool_calls'' else ''stop'')"
| "chatFinishFromIR StopStopSequence h = (if h then ''tool_calls'' else ''stop'')"
| "chatFinishFromIR _ h = (if h then ''tool_calls'' else ''stop'')"

definition responsesStatusToIR :: "string \<Rightarrow> string option \<Rightarrow> bool \<Rightarrow> StopReason" where
  "responsesStatusToIR status inc hasTool =
     (if status = ''completed'' \<or> status = [] then (if hasTool then StopToolUse else StopEndTurn)
      else if status = ''incomplete'' then
        (case inc of
           None \<Rightarrow> StopOther
         | Some r \<Rightarrow> if r = ''max_output_tokens'' then StopMaxTokens
                     else if r = ''content_filter'' then StopContentFilter
                     else StopOther)
      else StopOther)"

fun responsesStatusFromIR :: "StopReason \<Rightarrow> string \<times> json" where
  "responsesStatusFromIR StopMaxTokens = (''incomplete'', JObj [(''reason'', JStr ''max_output_tokens'')])"
| "responsesStatusFromIR StopContentFilter = (''incomplete'', JObj [(''reason'', JStr ''content_filter'')])"
| "responsesStatusFromIR _ = (''completed'', JNull)"

section \<open>Usage on the wire\<close>

definition enc_anthropicUsage :: "i64 \<Rightarrow> i64 \<Rightarrow> i64 \<Rightarrow> i64 \<Rightarrow> json" where
  "enc_anthropicUsage i out r w = JObj [(''input_tokens'', num64 i), (''output_tokens'', num64 out),
     (''cache_read_input_tokens'', num64 r), (''cache_creation_input_tokens'', num64 w)]"

definition anthropicUsageFromIR :: "usage \<Rightarrow> json" where
  "anthropicUsageFromIR u = enc_anthropicUsage (uInput u) (uOutput u) (uCacheRead u) (uCacheWrite u)"

definition pos64 :: "i64 \<Rightarrow> bool" where
  "pos64 w \<longleftrightarrow> 0 < sint w"

definition chatUsageFromIR :: "usage \<Rightarrow> json option" where
  "chatUsageFromIR u =
     (if \<not> uFound u then None
      else (let p = uInput u + uCacheRead u + uCacheWrite u
            in Some (JObj ([(''prompt_tokens'', num64 p), (''completion_tokens'', num64 (uOutput u)),
                 (''total_tokens'', num64 (p + uOutput u))]
               @ (if pos64 (uCacheRead u)
                  then [(''prompt_tokens_details'', JObj [(''cached_tokens'', num64 (uCacheRead u))])] else [])
               @ (if pos64 (uReasoning u)
                  then [(''completion_tokens_details'', JObj [(''reasoning_tokens'', num64 (uReasoning u))])]
                  else [])))))"

definition responsesUsageFromIR :: "usage \<Rightarrow> json" where
  "responsesUsageFromIR u =
     (if \<not> uFound u then JNull
      else (let i = uInput u + uCacheRead u + uCacheWrite u
            in jmap [(''input_tokens'', num64 i), (''output_tokens'', num64 (uOutput u)),
                 (''total_tokens'', num64 (i + uOutput u)),
                 (''input_tokens_details'', jmap [(''cached_tokens'', num64 (uCacheRead u))]),
                 (''output_tokens_details'', jmap [(''reasoning_tokens'', num64 (uReasoning u))])]))"

section \<open>Anthropic Messages\<close>

record anthropicResp =
  apID :: string
  apType :: string
  apRole :: string
  apModel :: string
  apContent :: "anthropicBlock list"
  apStopReason :: "string option"
  apUsage :: "i64 \<times> i64 \<times> i64 \<times> i64"

definition dec_anthropicCounters :: "(i64 \<times> i64 \<times> i64 \<times> i64) decoder" where
  "dec_anthropicCounters j = do {
     fs \<leftarrow> dec_obj j;
     i \<leftarrow> get_i64 ''input_tokens'' fs;
     out \<leftarrow> get_i64 ''output_tokens'' fs;
     r \<leftarrow> get_i64 ''cache_read_input_tokens'' fs;
     w \<leftarrow> get_i64 ''cache_creation_input_tokens'' fs;
     Some (i, out, r, w) }"

definition dec_anthropicResp :: "anthropicResp decoder" where
  "dec_anthropicResp j = do {
     fs \<leftarrow> dec_obj j;
     i \<leftarrow> get_str ''id'' fs;
     t \<leftarrow> get_str ''type'' fs;
     r \<leftarrow> get_str ''role'' fs;
     m \<leftarrow> get_str ''model'' fs;
     c \<leftarrow> get_slice dec_anthropicBlock ''content'' fs;
     s \<leftarrow> get_ptr dec_str ''stop_reason'' fs;
     sq \<leftarrow> get_ptr dec_str ''stop_sequence'' fs;
     u \<leftarrow> get_val dec_anthropicCounters (0, 0, 0, 0) ''usage'' fs;
     Some \<lparr>apID = i, apType = t, apRole = r, apModel = m, apContent = c, apStopReason = s, apUsage = u\<rparr> }"

definition anthropicResponse_ToIR :: "string \<Rightarrow> Response result" where
  "anthropicResponse_ToIR body =
     (case unmarshal dec_anthropicResp body of
        None \<Rightarrow> Inl (''anthropic response: '' @ json_err)
      | Some w \<Rightarrow>
          if apType w \<noteq> [] \<and> apType w \<noteq> ''message''
          then Inl (''anthropic response: unexpected type '' @ quoted (apType w))
          else rbind (wrap_err ''anthropic response: ''
                 (anthropicContentToIR (Some (JArr (map enc_anthropicBlock (apContent w)))))) (\<lambda>content.
            Inr \<lparr>sID = apID w, sModel = apModel w, sContent = content,
                 sStopReason = anthropicStopToIR (apStopReason w), sUsage = ParseUsage Anthropic body\<rparr>))"

definition anthropicResponse_json :: "Response \<Rightarrow> string \<Rightarrow> anthropicBlock list \<Rightarrow> json" where
  "anthropicResponse_json r i blocks = JObj
     [(''id'', JStr i), (''type'', JStr ''message''), (''role'', JStr ''assistant''),
      (''model'', JStr (sModel r)), (''content'', JArr (map enc_anthropicBlock blocks)),
      (''stop_reason'', JStr (anthropicStopFromIR (sStopReason r))), (''stop_sequence'', JNull),
      (''usage'', anthropicUsageFromIR (sUsage r))]"

definition anthropicResponse_FromIR :: "env \<Rightarrow> nat \<Rightarrow> Response \<Rightarrow> string result" where
  "anthropicResponse_FromIR e k r =
     rbind (wrap_err ''anthropic response: '' (irContentToAnthropic (sContent r) False)) (\<lambda>blocks.
       Inr (json_text (anthropicResponse_json r (fst (id_or e ''msg_'' k (sID r))) blocks)))"

section \<open>Chat Completions\<close>

record chatRespMsg =
  csRole :: string
  csContent :: "string option"
  csToolCalls :: "chatToolCall list"
  csRefusal :: "string option"
  csReasoningContent :: "string option"

definition dec_chatRespMsg :: "chatRespMsg decoder" where
  "dec_chatRespMsg j = do {
     fs \<leftarrow> dec_obj j;
     r \<leftarrow> get_str ''role'' fs;
     c \<leftarrow> get_ptr dec_str ''content'' fs;
     t \<leftarrow> get_slice dec_chatToolCall ''tool_calls'' fs;
     f \<leftarrow> get_ptr dec_str ''refusal'' fs;
     g \<leftarrow> get_ptr dec_str ''reasoning_content'' fs;
     Some \<lparr>csRole = r, csContent = c, csToolCalls = t, csRefusal = f, csReasoningContent = g\<rparr> }"

definition enc_chatRespMsg :: "chatRespMsg \<Rightarrow> json" where
  "enc_chatRespMsg m = JObj ([(''role'', JStr (csRole m)),
      (''content'', case csContent m of None \<Rightarrow> JNull | Some s \<Rightarrow> JStr s)]
     @ opt_list ''tool_calls'' (map enc_chatToolCall (csToolCalls m))
     @ opt_json ''refusal'' (map_option JStr (csRefusal m))
     @ opt_json ''reasoning_content'' (map_option JStr (csReasoningContent m)))"

record chatChoice =
  coIndex :: int
  coMessage :: chatRespMsg
  coFinishReason :: "string option"

definition no_respMsg :: chatRespMsg where
  "no_respMsg = \<lparr>csRole = [], csContent = None, csToolCalls = [], csRefusal = None, csReasoningContent = None\<rparr>"

definition dec_chatChoice :: "chatChoice decoder" where
  "dec_chatChoice j = do {
     fs \<leftarrow> dec_obj j;
     i \<leftarrow> get_int ''index'' fs;
     m \<leftarrow> get_val dec_chatRespMsg no_respMsg ''message'' fs;
     f \<leftarrow> get_ptr dec_str ''finish_reason'' fs;
     Some \<lparr>coIndex = i, coMessage = m, coFinishReason = f\<rparr> }"

definition dec_chatUsageTyped :: "unit decoder" where
  "dec_chatUsageTyped j = do {
     fs \<leftarrow> dec_obj j;
     p \<leftarrow> get_i64 ''prompt_tokens'' fs;
     c \<leftarrow> get_i64 ''completion_tokens'' fs;
     t \<leftarrow> get_i64 ''total_tokens'' fs;
     pd \<leftarrow> get_val dec_obj [] ''prompt_tokens_details'' fs;
     ct \<leftarrow> get_i64 ''cached_tokens'' pd;
     cd \<leftarrow> get_val dec_obj [] ''completion_tokens_details'' fs;
     rt \<leftarrow> get_i64 ''reasoning_tokens'' cd;
     Some () }"

record chatResp =
  crID :: string
  crModel :: string
  crChoices :: "chatChoice list"

definition dec_chatResp :: "chatResp decoder" where
  "dec_chatResp j = do {
     fs \<leftarrow> dec_obj j;
     i \<leftarrow> get_str ''id'' fs;
     ob \<leftarrow> get_str ''object'' fs;
     cr \<leftarrow> get_i64 ''created'' fs;
     m \<leftarrow> get_str ''model'' fs;
     cs \<leftarrow> get_slice dec_chatChoice ''choices'' fs;
     u \<leftarrow> get_ptr dec_chatUsageTyped ''usage'' fs;
     Some \<lparr>crID = i, crModel = m, crChoices = cs\<rparr> }"

text \<open>Arguments that are empty or not valid JSON are kept as a string.\<close>

definition args_or_raw :: "string \<Rightarrow> json" where
  "args_or_raw a = (case json_parse a of None \<Rightarrow> jmap [(''_raw'', JStr a)] | Some j \<Rightarrow> j)"

definition nonempty_text :: "string option \<Rightarrow> string list" where
  "nonempty_text s = (case s of None \<Rightarrow> [] | Some t \<Rightarrow> if t = [] then [] else [t])"

definition chatMessage_content :: "chatRespMsg \<Rightarrow> Content list" where
  "chatMessage_content m =
     map (\<lambda>t. KindThinking t [] None) (nonempty_text (csReasoningContent m))
     @ map KindText (nonempty_text (csContent m))
     @ map (\<lambda>tc. KindToolUse (ctID tc) (ctName tc) (Some (args_or_raw (ctArguments tc)))) (csToolCalls m)"

definition openAIChatResponse_ToIR :: "string \<Rightarrow> Response result" where
  "openAIChatResponse_ToIR body =
     (case unmarshal dec_chatResp body of
        None \<Rightarrow> Inl (''openai chat response: '' @ json_err)
      | Some w \<Rightarrow>
          (case crChoices w of
             [] \<Rightarrow> Inl ''openai chat response: no choices''
           | ch # rest \<Rightarrow>
               Inr \<lparr>sID = crID w, sModel = crModel w, sContent = chatMessage_content (coMessage ch),
                    sStopReason = chatFinishToIR (coFinishReason ch) (csToolCalls (coMessage ch) \<noteq> []),
                    sUsage = ParseUsage OpenAIChat body\<rparr>))"

text \<open>The loop over the blocks: the text so far, the tool calls and the last visible reasoning.\<close>

fun chat_collect :: "Content list \<Rightarrow> string option \<times> chatToolCall list \<times> string option
    \<Rightarrow> string option \<times> chatToolCall list \<times> string option" where
  "chat_collect [] st = st"
| "chat_collect (c # cs) (text, calls, reasoning) = chat_collect cs
     (case c of
        KindText t \<Rightarrow> (Some (case text of None \<Rightarrow> t | Some s \<Rightarrow> s @ [CHR 10] @ t), calls, reasoning)
      | KindToolUse i n a \<Rightarrow> (text, calls @
          [\<lparr>ctID = i, ctType = ''function'', ctName = n, ctArguments = text_or_braces a\<rparr>], reasoning)
      | KindThinking t s r \<Rightarrow> (text, calls, if t = [] then reasoning else Some t)
      | _ \<Rightarrow> (text, calls, reasoning))"

definition chatResponse_message :: "Response \<Rightarrow> chatRespMsg" where
  "chatResponse_message r =
     (let (text, calls, reasoning) = chat_collect (sContent r) (None, [], None)
      in \<lparr>csRole = ''assistant'',
          csContent = (case text of
             Some t \<Rightarrow> Some t
           | None \<Rightarrow> if calls = [] then Some [] else None),
          csToolCalls = calls, csRefusal = None, csReasoningContent = reasoning\<rparr>)"

definition chatResponse_json :: "env \<Rightarrow> Response \<Rightarrow> string \<Rightarrow> json" where
  "chatResponse_json e r i =
     (let msg = chatResponse_message r
      in JObj ([(''id'', JStr i), (''object'', JStr ''chat.completion''), (''created'', num_int (eNow e)),
        (''model'', JStr (sModel r)),
        (''choices'', JArr [JObj [(''index'', num_int 0), (''message'', enc_chatRespMsg msg),
          (''finish_reason'', JStr (chatFinishFromIR (sStopReason r) (csToolCalls msg \<noteq> [])))]])]
       @ opt_json ''usage'' (chatUsageFromIR (sUsage r))))"

definition openAIChatResponse_FromIR :: "env \<Rightarrow> nat \<Rightarrow> Response \<Rightarrow> string result" where
  "openAIChatResponse_FromIR e k r =
     Inr (json_text (chatResponse_json e r (fst (id_or e ''chatcmpl-'' k (sID r)))))"

section \<open>Responses\<close>

record responsesResp =
  rsID :: string
  rsModel :: string
  rsStatus :: string
  rsOutput :: "responsesItem list"
  rsIncomplete :: "string option"

definition dec_reason :: "string decoder" where
  "dec_reason j = do { fs \<leftarrow> dec_obj j; get_str ''reason'' fs }"

definition dec_code_message :: "(string \<times> string) decoder" where
  "dec_code_message j = do {
     fs \<leftarrow> dec_obj j;
     c \<leftarrow> get_str ''code'' fs;
     m \<leftarrow> get_str ''message'' fs;
     Some (c, m) }"

definition dec_responsesResp :: "responsesResp decoder" where
  "dec_responsesResp j = do {
     fs \<leftarrow> dec_obj j;
     i \<leftarrow> get_str ''id'' fs;
     ob \<leftarrow> get_str ''object'' fs;
     m \<leftarrow> get_str ''model'' fs;
     s \<leftarrow> get_str ''status'' fs;
     ou \<leftarrow> get_slice dec_responsesItem ''output'' fs;
     inc \<leftarrow> get_ptr dec_reason ''incomplete_details'' fs;
     er \<leftarrow> get_ptr dec_code_message ''error'' fs;
     Some \<lparr>rsID = i, rsModel = m, rsStatus = s, rsOutput = ou, rsIncomplete = inc\<rparr> }"

definition responses_output_content :: "responsesItem \<Rightarrow> Content list result" where
  "responses_output_content it =
     (if riType it = ''message'' then responsesContentToIR (riContent it)
      else if riType it = ''function_call'' then
        Inr [KindToolUse (riCallID it) (riName it) (Some (args_or_raw (riArguments it)))]
      else if riType it = ''reasoning'' then
        Inr [KindThinking (reasoningSummaryText (riSummary it)) [] (Some (riRaw it))]
      else Inr [])"

definition openAIResponsesResponse_ToIR :: "string \<Rightarrow> Response result" where
  "openAIResponsesResponse_ToIR body =
     (case unmarshal dec_responsesResp body of
        None \<Rightarrow> Inl (''openai responses response: '' @ json_err)
      | Some w \<Rightarrow>
          rbind (traverse (\<lambda>i it. wrap_err ''openai responses response: '' (responses_output_content it))
                   (rsOutput w)) (\<lambda>css.
            Inr \<lparr>sID = rsID w, sModel = rsModel w, sContent = concat css,
                 sStopReason = responsesStatusToIR (rsStatus w) (rsIncomplete w)
                   (\<exists>it \<in> set (rsOutput w). riType it = ''function_call''),
                 sUsage = ParseUsage OpenAIResponses body\<rparr>))"

definition annotated_text :: "string \<Rightarrow> json" where
  "annotated_text t = jmap [(''type'', JStr ''output_text''), (''text'', JStr t), (''annotations'', JArr [])]"

definition out_message :: "string \<Rightarrow> json list \<Rightarrow> json" where
  "out_message i parts = jmap [(''type'', JStr ''message''), (''id'', JStr i), (''status'', JStr ''completed''),
     (''role'', JStr ''assistant''), (''content'', JArr parts)]"

definition out_call :: "string \<Rightarrow> string \<Rightarrow> string \<Rightarrow> string \<Rightarrow> json" where
  "out_call i c n a = jmap [(''type'', JStr ''function_call''), (''id'', JStr i), (''status'', JStr ''completed''),
     (''call_id'', JStr c), (''name'', JStr n), (''arguments'', JStr a)]"

definition out_reasoning :: "string \<Rightarrow> string \<Rightarrow> json" where
  "out_reasoning i t = jmap [(''type'', JStr ''reasoning''), (''id'', JStr i),
     (''summary'', JArr [jmap [(''type'', JStr ''summary_text''), (''text'', JStr t)]])]"

definition flush_parts :: "env \<Rightarrow> nat \<Rightarrow> json list \<Rightarrow> json list \<times> nat" where
  "flush_parts e k parts =
     (if parts = [] then ([], k) else ([out_message (''msg_'' @ randomID e k) parts], Suc k))"

fun responses_output :: "env \<Rightarrow> nat \<Rightarrow> json list \<Rightarrow> Content list \<Rightarrow> json list" where
  "responses_output e k parts [] = fst (flush_parts e k parts)"
| "responses_output e k parts (KindText t # cs) = responses_output e k (parts @ [annotated_text t]) cs"
| "responses_output e k parts (KindToolUse i n a # cs) =
     (let (f, k1) = flush_parts e k parts
      in f @ out_call (''fc_'' @ randomID e k1) i n (text_or_braces a) # responses_output e (Suc k1) [] cs)"
| "responses_output e k parts (KindThinking t s raw # cs) =
     (let (f, k1) = flush_parts e k parts
      in if probe_type raw = Some ''reasoning''
         then f @ raw_or_null raw # responses_output e k1 [] cs
         else if t \<noteq> []
         then f @ out_reasoning (''rs_'' @ randomID e k1) t # responses_output e (Suc k1) [] cs
         else f @ responses_output e k1 [] cs)"
| "responses_output e k parts (KindToolResult i r er # cs) = responses_output e k parts cs"
| "responses_output e k parts (KindImage m d u # cs) = responses_output e k parts cs"

definition responsesResponse_json :: "env \<Rightarrow> nat \<Rightarrow> Response \<Rightarrow> string \<Rightarrow> json" where
  "responsesResponse_json e k r i =
     (let (status, incomplete) = responsesStatusFromIR (sStopReason r)
      in jmap [(''id'', JStr i), (''object'', JStr ''response''), (''created_at'', num_int (eNow e)),
         (''status'', JStr status), (''model'', JStr (sModel r)),
         (''output'', JArr (responses_output e k [] (sContent r))), (''error'', JNull),
         (''incomplete_details'', incomplete), (''usage'', responsesUsageFromIR (sUsage r))])"

definition openAIResponsesResponse_FromIR :: "env \<Rightarrow> nat \<Rightarrow> Response \<Rightarrow> string result" where
  "openAIResponsesResponse_FromIR e k r =
     (let (i, k1) = id_or e ''resp_'' k (sID r)
      in Inr (json_text (responsesResponse_json e k1 r i)))"

end
