(* ===== verification/StreamAnthropic.thy ===== *)
theory StreamAnthropic
  imports Responses
begin

text \<open>
  \<^verbatim>\<open>translate/stream_anthropic.go\<close>: Anthropic's server-sent events to IR events, and IR events to
  Anthropic's. A map with integer keys is an association list; the block states of the decoder
  are only reached through the map, so updating one is an update of the map.
\<close>

section \<open>Decoder\<close>

datatype blockKind = BlockNone | BlockText | BlockThinking | BlockToolUse

record anthBlockState =
  bsKind :: blockKind
  bsThinking :: string
  bsSignature :: string
  bsToolID :: string
  bsToolName :: string

definition new_block :: anthBlockState where
  "new_block = \<lparr>bsKind = BlockNone, bsThinking = [], bsSignature = [], bsToolID = [], bsToolName = []\<rparr>"

record anthropicStreamIn =
  aiBlocks :: "(int \<times> anthBlockState) list"
  aiStop :: StopReason
  aiUsage :: usage

definition newAnthropicStreamIn :: anthropicStreamIn where
  "newAnthropicStreamIn = \<lparr>aiBlocks = [], aiStop = StopUnset, aiUsage = no_usage\<rparr>"

record anthDelta =
  adType :: string
  adText :: string
  adThinking :: string
  adPartialJSON :: string
  adSignature :: string
  adStopReason :: "string option"

definition dec_anthDelta :: "anthDelta decoder" where
  "dec_anthDelta j = do {
     fs \<leftarrow> dec_obj j;
     t \<leftarrow> get_str ''type'' fs;
     x \<leftarrow> get_str ''text'' fs;
     th \<leftarrow> get_str ''thinking'' fs;
     p \<leftarrow> get_str ''partial_json'' fs;
     s \<leftarrow> get_str ''signature'' fs;
     r \<leftarrow> get_ptr dec_str ''stop_reason'' fs;
     Some \<lparr>adType = t, adText = x, adThinking = th, adPartialJSON = p, adSignature = s, adStopReason = r\<rparr> }"

definition dec_anthError :: "(string \<times> string) decoder" where
  "dec_anthError j = do {
     fs \<leftarrow> dec_obj j;
     t \<leftarrow> get_str ''type'' fs;
     m \<leftarrow> get_str ''message'' fs;
     Some (t, m) }"

record anthEvent =
  aeType :: string
  aeIndex :: int
  aeMessage :: "anthropicResp option"
  aeContentBlock :: "anthropicBlock option"
  aeDelta :: "anthDelta option"
  aeUsage :: "(i64 \<times> i64 \<times> i64 \<times> i64) option"
  aeError :: "(string \<times> string) option"

definition dec_anthEvent :: "anthEvent decoder" where
  "dec_anthEvent j = do {
     fs \<leftarrow> dec_obj j;
     t \<leftarrow> get_str ''type'' fs;
     i \<leftarrow> get_int ''index'' fs;
     m \<leftarrow> get_ptr dec_anthropicResp ''message'' fs;
     b \<leftarrow> get_ptr dec_anthropicBlock ''content_block'' fs;
     d \<leftarrow> get_ptr dec_anthDelta ''delta'' fs;
     u \<leftarrow> get_ptr dec_anthropicCounters ''usage'' fs;
     e \<leftarrow> get_ptr dec_anthError ''error'' fs;
     Some \<lparr>aeType = t, aeIndex = i, aeMessage = m, aeContentBlock = b, aeDelta = d, aeUsage = u, aeError = e\<rparr> }"

text \<open>The typed counters, marshalled and handed to the usage parser.\<close>

definition counters_usage :: "i64 \<times> i64 \<times> i64 \<times> i64 \<Rightarrow> usage" where
  "counters_usage c = (let (i, out, r, w) = c in
     ParseUsage Anthropic (json_text (jmap [(''usage'', enc_anthropicUsage i out r w)])))"

definition anthropic_block_start ::
  "anthropicStreamIn \<Rightarrow> int \<Rightarrow> anthropicBlock \<Rightarrow> (anthropicStreamIn \<times> StreamEvent list) result" where
  "anthropic_block_start s i b =
     (let put = (\<lambda>st. s\<lparr>aiBlocks := AList.update i st (aiBlocks s)\<rparr>)
      in if abType b = ''text'' then
           Inr (put (new_block\<lparr>bsKind := BlockText\<rparr>),
                if abText b \<noteq> [] then [EventTextDelta i (abText b)] else [])
         else if abType b = ''thinking'' then
           Inr (put (new_block\<lparr>bsKind := BlockThinking, bsThinking := abThinking b,
                  bsSignature := abSignature b\<rparr>), [])
         else if abType b = ''redacted_thinking'' then
           Inr (put (new_block\<lparr>bsKind := BlockThinking\<rparr>),
                [EventThinkingDone i [] [] (Some (redacted_payload (abData b)))])
         else if abType b = ''tool_use'' then
           Inr (put (new_block\<lparr>bsKind := BlockToolUse, bsToolID := abID b, bsToolName := abName b\<rparr>),
                [EventToolUseStart i (abID b) (abName b)])
         else Inl (''anthropic stream: unsupported content_block type '' @ quoted (abType b)))"

definition anthropic_block_delta ::
  "anthropicStreamIn \<Rightarrow> int \<Rightarrow> anthDelta \<Rightarrow> anthropicStreamIn \<times> StreamEvent list" where
  "anthropic_block_delta s i d =
     (let st = map_of (aiBlocks s) i;
          put = (\<lambda>b. s\<lparr>aiBlocks := AList.update i b (aiBlocks s)\<rparr>)
      in if adType d = ''text_delta'' then (s, [EventTextDelta i (adText d)])
         else if adType d = ''thinking_delta'' then
           (case st of None \<Rightarrow> s | Some b \<Rightarrow> put (b\<lparr>bsThinking := bsThinking b @ adThinking d\<rparr>),
            [EventThinkingDelta i (adThinking d)])
         else if adType d = ''signature_delta'' then
           (case st of None \<Rightarrow> s | Some b \<Rightarrow> put (b\<lparr>bsSignature := bsSignature b @ adSignature d\<rparr>), [])
         else if adType d = ''input_json_delta'' then
           (s, [case st of
                  None \<Rightarrow> EventToolInputDelta i [] [] (adPartialJSON d)
                | Some b \<Rightarrow> EventToolInputDelta i (bsToolID b) (bsToolName b) (adPartialJSON d)])
         else (s, []))"

definition anthropic_block_stop ::
  "anthropicStreamIn \<Rightarrow> int \<Rightarrow> anthropicStreamIn \<times> StreamEvent list" where
  "anthropic_block_stop s i =
     (s\<lparr>aiBlocks := AList.delete i (aiBlocks s)\<rparr>,
      case map_of (aiBlocks s) i of
        None \<Rightarrow> []
      | Some b \<Rightarrow>
          (case bsKind b of
             BlockThinking \<Rightarrow> [EventThinkingDone i (bsThinking b) (bsSignature b) None]
           | BlockToolUse \<Rightarrow> [EventToolUseStop i (bsToolID b) (bsToolName b)]
           | _ \<Rightarrow> []))"

definition merge_delta_usage :: "usage \<Rightarrow> i64 \<times> i64 \<times> i64 \<times> i64 \<Rightarrow> usage" where
  "merge_delta_usage old c =
     (let (i, out, r, w) = c; u = counters_usage c
      in if i = 0 \<and> r = 0 \<and> w = 0
         then u\<lparr>uInput := uInput old, uCacheRead := uCacheRead old, uCacheWrite := uCacheWrite old\<rparr>
         else u)"

definition anthropicStreamIn_ToIR ::
  "anthropicStreamIn \<Rightarrow> string \<Rightarrow> (anthropicStreamIn \<times> StreamEvent list) result" where
  "anthropicStreamIn_ToIR s data =
     (if data = [] then Inr (s, [])
      else (case unmarshal dec_anthEvent data of
        None \<Rightarrow> Inl (''anthropic stream: '' @ json_err)
      | Some ev \<Rightarrow>
          if aeType ev = ''message_start'' then
            (case aeMessage ev of
               None \<Rightarrow> Inr (s, [EventMessageStart [] [] no_usage])
             | Some m \<Rightarrow>
                 (let u = counters_usage (apUsage m)
                  in Inr (s\<lparr>aiUsage := u\<rparr>, [EventMessageStart (apID m) (apModel m) u])))
          else if aeType ev = ''content_block_start'' then
            (case aeContentBlock ev of None \<Rightarrow> Inr (s, []) | Some b \<Rightarrow> anthropic_block_start s (aeIndex ev) b)
          else if aeType ev = ''content_block_delta'' then
            (case aeDelta ev of None \<Rightarrow> Inr (s, []) | Some d \<Rightarrow> Inr (anthropic_block_delta s (aeIndex ev) d))
          else if aeType ev = ''content_block_stop'' then Inr (anthropic_block_stop s (aeIndex ev))
          else if aeType ev = ''message_delta'' then
            (let s1 = (case aeDelta ev of None \<Rightarrow> s | Some d \<Rightarrow> s\<lparr>aiStop := anthropicStopToIR (adStopReason d)\<rparr>)
             in Inr (case aeUsage ev of None \<Rightarrow> s1 | Some c \<Rightarrow> s1\<lparr>aiUsage := merge_delta_usage (aiUsage s1) c\<rparr>, []))
          else if aeType ev = ''message_stop'' then
            Inr (s, [EventMessageStop (if aiStop s = StopUnset then StopEndTurn else aiStop s) (aiUsage s)])
          else if aeType ev = ''error'' then
            Inr (s, [EventError (case aeError ev of
               None \<Rightarrow> ''upstream error'' | Some (t, m) \<Rightarrow> t @ '': '' @ m)])
          else Inr (s, [])))"

section \<open>Encoder\<close>

text \<open>\<open>aoOpenIdx = -1\<close> when no block is open, \<open>aoOpenSrc = -1\<close> when the open block is no tool.\<close>

record anthropicStreamOut =
  aoStarted :: bool
  aoNextIndex :: int
  aoOpenIdx :: int
  aoOpenKind :: blockKind
  aoOpenSrc :: int
  aoSrcToOut :: "(int \<times> int) list"
  aoModel :: string
  aoID :: string
  aoUsage0 :: usage
  aoDraws :: nat

definition newAnthropicStreamOut :: anthropicStreamOut where
  "newAnthropicStreamOut = \<lparr>aoStarted = False, aoNextIndex = 0, aoOpenIdx = -1, aoOpenKind = BlockNone,
     aoOpenSrc = -1, aoSrcToOut = [], aoModel = [], aoID = [], aoUsage0 = no_usage, aoDraws = 0\<rparr>"

definition sse :: "string \<Rightarrow> (string \<times> json) list \<Rightarrow> frame" where
  "sse event fs = Named event (jmap fs)"

definition block_start_frame :: "int \<Rightarrow> json \<Rightarrow> frame" where
  "block_start_frame i b = sse ''content_block_start''
     [(''type'', JStr ''content_block_start''), (''index'', num_int i), (''content_block'', b)]"

definition block_delta_frame :: "int \<Rightarrow> (string \<times> json) list \<Rightarrow> frame" where
  "block_delta_frame i d = sse ''content_block_delta''
     [(''type'', JStr ''content_block_delta''), (''index'', num_int i), (''delta'', jmap d)]"

definition block_stop_frame :: "int \<Rightarrow> frame" where
  "block_stop_frame i = sse ''content_block_stop''
     [(''type'', JStr ''content_block_stop''), (''index'', num_int i)]"

definition aclose :: "anthropicStreamOut \<Rightarrow> anthropicStreamOut \<times> frame list" where
  "aclose s =
     (if aoOpenIdx s < 0 then (s, [])
      else (s\<lparr>aoSrcToOut := (if aoOpenKind s = BlockToolUse \<and> aoOpenSrc s \<ge> 0
                            then AList.delete (aoOpenSrc s) (aoSrcToOut s) else aoSrcToOut s),
             aoOpenIdx := -1, aoOpenKind := BlockNone, aoOpenSrc := -1\<rparr>,
           [block_stop_frame (aoOpenIdx s)]))"

definition open_block_json :: "blockKind \<Rightarrow> json" where
  "open_block_json k =
     (if k = BlockText then jmap [(''type'', JStr ''text''), (''text'', JStr [])]
      else if k = BlockThinking
      then jmap [(''type'', JStr ''thinking''), (''thinking'', JStr []), (''signature'', JStr [])]
      else JNull)"

definition ensureOpen :: "blockKind \<Rightarrow> anthropicStreamOut \<Rightarrow> anthropicStreamOut \<times> frame list" where
  "ensureOpen k s =
     (if aoOpenIdx s \<ge> 0 \<and> aoOpenKind s = k then (s, [])
      else (let (s1, out) = aclose s; idx = aoNextIndex s1
            in (s1\<lparr>aoNextIndex := idx + 1, aoOpenIdx := idx, aoOpenKind := k\<rparr>,
                out @ [block_start_frame idx (open_block_json k)])))"

definition tool_start :: "env \<Rightarrow> anthropicStreamOut \<Rightarrow> int \<Rightarrow> string \<Rightarrow> string
    \<Rightarrow> anthropicStreamOut \<times> frame list" where
  "tool_start e s src callID name =
     (let (s1, out) = aclose s; idx = aoNextIndex s1;
          (i, k) = id_or e ''toolu_'' (aoDraws s1) callID
      in (s1\<lparr>aoNextIndex := idx + 1, aoOpenIdx := idx, aoOpenKind := BlockToolUse, aoOpenSrc := src,
             aoSrcToOut := AList.update src idx (aoSrcToOut s1), aoDraws := k\<rparr>,
          out @ [block_start_frame idx (jmap [(''type'', JStr ''tool_use''), (''id'', JStr i),
             (''name'', JStr name), (''input'', JObj [])])]))"

definition message_start_frame :: "string \<Rightarrow> string \<Rightarrow> usage \<Rightarrow> frame" where
  "message_start_frame i m u = sse ''message_start'' [(''type'', JStr ''message_start''), (''message'',
     jmap [(''id'', JStr i), (''type'', JStr ''message''), (''role'', JStr ''assistant''), (''model'', JStr m),
       (''content'', JArr []), (''stop_reason'', JNull), (''stop_sequence'', JNull),
       (''usage'', enc_anthropicUsage (uInput u) 0 (uCacheRead u) (uCacheWrite u))])]"

definition message_stop_frames :: "StopReason \<Rightarrow> usage \<Rightarrow> frame list" where
  "message_stop_frames r u =
     [sse ''message_delta'' [(''type'', JStr ''message_delta''),
        (''delta'', jmap [(''stop_reason'', JStr (anthropicStopFromIR r)), (''stop_sequence'', JNull)]),
        (''usage'', anthropicUsageFromIR u)],
      sse ''message_stop'' [(''type'', JStr ''message_stop'')]]"

definition error_frame :: "err \<Rightarrow> frame" where
  "error_frame m = sse ''error'' [(''type'', JStr ''error''),
     (''error'', jmap [(''type'', JStr ''api_error''), (''message'', JStr m)])]"

definition input_delta_frame :: "int \<Rightarrow> string \<Rightarrow> frame" where
  "input_delta_frame i d = block_delta_frame i [(''type'', JStr ''input_json_delta''), (''partial_json'', JStr d)]"

fun anthropicStreamOut_FromIR :: "env \<Rightarrow> anthropicStreamOut \<Rightarrow> StreamEvent
    \<Rightarrow> anthropicStreamOut \<times> frame list" where
  "anthropicStreamOut_FromIR e s (EventMessageStart i m u) =
     (let (i', k) = id_or e ''msg_'' (aoDraws s) i
      in (s\<lparr>aoStarted := True, aoID := i', aoModel := m, aoUsage0 := u, aoDraws := k\<rparr>,
          [message_start_frame i' m u]))"
| "anthropicStreamOut_FromIR e s (EventTextDelta i t) =
     (let (s1, out) = ensureOpen BlockText s
      in (s1, out @ [block_delta_frame (aoOpenIdx s1) [(''type'', JStr ''text_delta''), (''text'', JStr t)]]))"
| "anthropicStreamOut_FromIR e s (EventThinkingDelta i t) =
     (let (s1, out) = ensureOpen BlockThinking s
      in (s1, out @ [block_delta_frame (aoOpenIdx s1)
            [(''type'', JStr ''thinking_delta''), (''thinking'', JStr t)]]))"
| "anthropicStreamOut_FromIR e s (EventThinkingDone i t sig raw) =
     (if raw \<noteq> None then
        (case probe_data raw of
           None \<Rightarrow> (s, [])
         | Some (ty, d) \<Rightarrow>
             if ty = ''redacted_thinking'' then
               (let (s1, out) = aclose s; idx = aoNextIndex s1
                in (s1\<lparr>aoNextIndex := idx + 1\<rparr>,
                    out @ [block_start_frame idx (jmap [(''type'', JStr ''redacted_thinking''), (''data'', JStr d)]),
                           block_stop_frame idx]))
             else (s, []))
      else if aoOpenKind s = BlockThinking \<and> aoOpenIdx s \<ge> 0 then
        (let sg = (if sig \<noteq> [] then [block_delta_frame (aoOpenIdx s)
                     [(''type'', JStr ''signature_delta''), (''signature'', JStr sig)]] else []);
             (s1, out) = aclose s
         in (s1, sg @ out))
      else (s, []))"
| "anthropicStreamOut_FromIR e s (EventToolUseStart i c n) = tool_start e s i c n"
| "anthropicStreamOut_FromIR e s (EventToolInputDelta i c n d) =
     (case map_of (aoSrcToOut s) i of
        Some idx \<Rightarrow> (s, [input_delta_frame idx d])
      | None \<Rightarrow>
          (let (s1, out) = tool_start e s i c n;
               idx = (case map_of (aoSrcToOut s1) i of Some x \<Rightarrow> x | None \<Rightarrow> 0)
           in (s1, out @ [input_delta_frame idx d])))"
| "anthropicStreamOut_FromIR e s (EventToolUseStop i c n) =
     (case map_of (aoSrcToOut s) i of
        None \<Rightarrow> (s, [])
      | Some idx \<Rightarrow>
          (let s1 = s\<lparr>aoSrcToOut := AList.delete i (aoSrcToOut s)\<rparr>
           in (if aoOpenIdx s = idx then s1\<lparr>aoOpenIdx := -1, aoOpenKind := BlockNone, aoOpenSrc := -1\<rparr> else s1,
               [block_stop_frame idx])))"
| "anthropicStreamOut_FromIR e s (EventMessageStop r u) =
     (let (s1, out) = aclose s
      in (s1, out @ message_stop_frames r (if uFound u then u else aoUsage0 s1)))"
| "anthropicStreamOut_FromIR e s (EventError m) =
     (let (s1, out) = aclose s in (s1, out @ [error_frame m]))"

section \<open>Blocks are well bracketed\<close>

text \<open>
  What an Anthropic client expects of the blocks: they start with consecutive indices, one at a
  time; a delta and a stop name the open block; the message ends with no block open. The state
  is the open index and the next one.
\<close>

fun frame_index :: "json \<Rightarrow> json option" where
  "frame_index (JObj fs) = map_of fs ''index''"
| "frame_index _ = None"

fun block_client :: "int option \<times> int \<Rightarrow> frame \<Rightarrow> (int option \<times> int) option" where
  "block_client (op, n) (Named e j) =
     (if e = ''content_block_start'' then
        (if op = None \<and> frame_index j = Some (num_int n) then Some (Some n, n + 1) else None)
      else if e = ''content_block_delta'' then
        (case op of None \<Rightarrow> None | Some i \<Rightarrow> if frame_index j = Some (num_int i) then Some (op, n) else None)
      else if e = ''content_block_stop'' then
        (case op of None \<Rightarrow> None | Some i \<Rightarrow> if frame_index j = Some (num_int i) then Some (None, n) else None)
      else if e = ''message_delta'' \<or> e = ''message_stop'' \<or> e = ''error'' then
        (if op = None then Some (op, n) else None)
      else if e = ''message_start'' then Some (op, n)
      else None)"
| "block_client c _ = None"

lemma block_client_frames [simp]:
  "block_client (op, n) (block_start_frame i b) =
     (if op = None \<and> num_int i = num_int n then Some (Some n, n + 1) else None)"
  "block_client (op, n) (block_delta_frame i d) =
     (case op of None \<Rightarrow> None | Some x \<Rightarrow> if num_int i = num_int x then Some (op, n) else None)"
  "block_client (op, n) (input_delta_frame i y) =
     (case op of None \<Rightarrow> None | Some x \<Rightarrow> if num_int i = num_int x then Some (op, n) else None)"
  "block_client (op, n) (block_stop_frame i) =
     (case op of None \<Rightarrow> None | Some x \<Rightarrow> if num_int i = num_int x then Some (None, n) else None)"
  "block_client (op, n) (message_start_frame a m u) = Some (op, n)"
  "block_client (op, n) (error_frame t) = (if op = None then Some (op, n) else None)"
  by (simp_all add: block_start_frame_def block_delta_frame_def input_delta_frame_def block_stop_frame_def
      message_start_frame_def error_frame_def sse_def jmap_def split: option.split)

lemma block_client_stop [simp]:
  "client_run block_client (op, n) (message_stop_frames r u) = (if op = None then Some (op, n) else None)"
  by (simp add: message_stop_frames_def sse_def jmap_def)

definition block_rel :: "anthropicStreamOut \<Rightarrow> int option \<times> int \<Rightarrow> bool" where
  "block_rel s c \<longleftrightarrow>
     c = (if aoOpenIdx s < 0 then None else Some (aoOpenIdx s), aoNextIndex s) \<and> 0 \<le> aoNextIndex s
     \<and> aoSrcToOut s = (if 0 \<le> aoOpenIdx s \<and> aoOpenKind s = BlockToolUse then [(aoOpenSrc s, aoOpenIdx s)] else [])
     \<and> (0 \<le> aoOpenIdx s \<and> aoOpenKind s = BlockToolUse \<longrightarrow> 0 \<le> aoOpenSrc s)"

fun tool_index_ok :: "StreamEvent \<Rightarrow> bool" where
  "tool_index_ok (EventToolUseStart i c n) = (0 \<le> i)"
| "tool_index_ok (EventToolInputDelta i c n d) = (0 \<le> i)"
| "tool_index_ok _ = True"

lemma aclose_rel:
  "block_rel s c \<Longrightarrow> client_run block_client c (snd (aclose s)) = Some (None, aoNextIndex s)
     \<and> block_rel (fst (aclose s)) (None, aoNextIndex s)
     \<and> aoNextIndex (fst (aclose s)) = aoNextIndex s \<and> aoOpenIdx (fst (aclose s)) < 0
     \<and> aoSrcToOut (fst (aclose s)) = []"
  by (auto simp: block_rel_def aclose_def)

lemma acloseE:
  assumes "block_rel s c"
  obtains s1 out where "aclose s = (s1, out)"
    and "client_run block_client c out = Some (None, aoNextIndex s)"
    and "aoNextIndex s1 = aoNextIndex s" and "0 \<le> aoNextIndex s" and "aoOpenIdx s1 < 0" and "aoSrcToOut s1 = []"
proof (rule that [of "fst (aclose s)" "snd (aclose s)"])
  show "0 \<le> aoNextIndex s" using assms by (simp add: block_rel_def)
qed (use aclose_rel [OF assms] in simp_all)

lemma tool_start_rel:
  assumes "block_rel s c" and "0 \<le> i"
  shows "client_run block_client c (snd (tool_start e s i cid n)) = Some (Some (aoNextIndex s), aoNextIndex s + 1)
     \<and> block_rel (fst (tool_start e s i cid n)) (Some (aoNextIndex s), aoNextIndex s + 1)
     \<and> aoSrcToOut (fst (tool_start e s i cid n)) = [(i, aoNextIndex s)]"
proof -
  obtain s1 out where s1: "aclose s = (s1, out)"
      "client_run block_client c out = Some (None, aoNextIndex s)"
      "aoNextIndex s1 = aoNextIndex s" "0 \<le> aoNextIndex s" "aoOpenIdx s1 < 0" "aoSrcToOut s1 = []"
    using assms(1) by (rule acloseE)
  obtain x k where x: "id_or e ''toolu_'' (aoDraws s1) cid = (x, k)" by fastforce
  show ?thesis
    unfolding tool_start_def s1(1) Let_def prod.case x using s1(2-6) assms(2)
    by (simp add: block_rel_def)
qed

lemma ensureOpen_rel:
  assumes "block_rel s c" and "k \<noteq> BlockToolUse"
  shows "\<exists>c'. client_run block_client c (snd (ensureOpen k s)) = Some c' \<and> block_rel (fst (ensureOpen k s)) c'
     \<and> 0 \<le> aoOpenIdx (fst (ensureOpen k s))"
proof (cases "aoOpenIdx s \<ge> 0 \<and> aoOpenKind s = k")
  case True
  with assms show ?thesis by (simp add: ensureOpen_def)
next
  case False
  obtain s1 out where s1: "aclose s = (s1, out)"
      "client_run block_client c out = Some (None, aoNextIndex s)"
      "aoNextIndex s1 = aoNextIndex s" "0 \<le> aoNextIndex s" "aoOpenIdx s1 < 0" "aoSrcToOut s1 = []"
    using assms(1) by (rule acloseE)
  show ?thesis
    unfolding ensureOpen_def s1(1) Let_def prod.case if_not_P [OF False] using s1(2-6) assms(2)
    by (simp add: block_rel_def)
qed

lemma input_delta_rel:
  assumes "block_rel s c" and "map_of (aoSrcToOut s) i = Some idx"
  shows "client_run block_client c [input_delta_frame idx d] = Some c"
  using assms by (auto simp: block_rel_def split: if_splits)

lemma block_simulation:
  assumes "block_rel s c" and "tool_index_ok ev"
  shows "\<exists>c'. client_run block_client c (snd (anthropicStreamOut_FromIR e s ev)) = Some c'
    \<and> block_rel (fst (anthropicStreamOut_FromIR e s ev)) c'"
proof -
  obtain op n where c: "c = (op, n)" by fastforce
  obtain s1 out where s1: "aclose s = (s1, out)"
      "client_run block_client c out = Some (None, aoNextIndex s)"
      "aoNextIndex s1 = aoNextIndex s" "0 \<le> aoNextIndex s" "aoOpenIdx s1 < 0" "aoSrcToOut s1 = []"
    using assms(1) by (rule acloseE)
  show ?thesis
  proof (cases ev)
    case (EventMessageStart i m u)
    obtain i' k where "id_or e ''msg_'' (aoDraws s) i = (i', k)" by fastforce
    with assms(1) c EventMessageStart show ?thesis by (simp add: block_rel_def)
  next
    case (EventTextDelta i t)
    from ensureOpen_rel [OF assms(1), of BlockText] obtain c' where
      "client_run block_client c (snd (ensureOpen BlockText s)) = Some c'"
      "block_rel (fst (ensureOpen BlockText s)) c'" "0 \<le> aoOpenIdx (fst (ensureOpen BlockText s))" by auto
    with EventTextDelta show ?thesis
      by (cases "ensureOpen BlockText s") (auto simp: block_rel_def)
  next
    case (EventThinkingDelta i t)
    from ensureOpen_rel [OF assms(1), of BlockThinking] obtain c' where
      "client_run block_client c (snd (ensureOpen BlockThinking s)) = Some c'"
      "block_rel (fst (ensureOpen BlockThinking s)) c'" "0 \<le> aoOpenIdx (fst (ensureOpen BlockThinking s))" by auto
    with EventThinkingDelta show ?thesis
      by (cases "ensureOpen BlockThinking s") (auto simp: block_rel_def)
  next
    case (EventThinkingDone i t sig raw)
    show ?thesis
    proof (cases raw)
      case None
      show ?thesis
      proof (cases "aoOpenKind s = BlockThinking \<and> aoOpenIdx s \<ge> 0")
        case True
        then have "client_run block_client c [block_delta_frame (aoOpenIdx s) y] = Some c" for y
          using assms(1) by (auto simp: block_rel_def)
        with True None EventThinkingDone s1 show ?thesis by (simp add: block_rel_def)
      next
        case False
        then have "anthropicStreamOut_FromIR e s ev = (s, [])"
          using None EventThinkingDone by auto
        with assms(1) show ?thesis by simp
      qed
    next
      case (Some j)
      show ?thesis
      proof (cases "\<exists>d. probe_data raw = Some (''redacted_thinking'', d)")
        case True
        with Some EventThinkingDone s1 show ?thesis by (auto simp: block_rel_def Let_def)
      next
        case False
        then have "anthropicStreamOut_FromIR e s ev = (s, [])"
          using Some EventThinkingDone by (auto split: option.split)
        with assms(1) show ?thesis by simp
      qed
    qed
  next
    case (EventToolUseStart i cid nm)
    with tool_start_rel [OF assms(1)] assms(2) show ?thesis by simp
  next
    case (EventToolInputDelta i cid nm d)
    show ?thesis
    proof (cases "map_of (aoSrcToOut s) i")
      case None
      from tool_start_rel [OF assms(1), of i e cid nm] assms(2) EventToolInputDelta None show ?thesis
        by (cases "tool_start e s i cid nm") simp
    next
      case (Some idx)
      with input_delta_rel [OF assms(1) Some] assms(1) EventToolInputDelta show ?thesis by simp
    qed
  next
    case (EventToolUseStop i cid nm)
    show ?thesis
    proof (cases "map_of (aoSrcToOut s) i")
      case (Some idx)
      with assms(1) have "idx = aoOpenIdx s" "0 \<le> aoOpenIdx s" "aoSrcToOut s = [(i, idx)]"
        by (auto simp: block_rel_def split: if_splits)
      with Some assms(1) EventToolUseStop show ?thesis by (simp add: block_rel_def)
    qed (use EventToolUseStop assms(1) in simp)
  next
    case (EventMessageStop r u)
    with s1 show ?thesis by (simp add: block_rel_def)
  next
    case (EventError t)
    with s1 show ?thesis by (simp add: block_rel_def)
  qed
qed

interpretation anthropic_out: stream_encoder "anthropicStreamOut_FromIR e" block_client tool_index_ok block_rel
  for e
  by unfold_locales (rule block_simulation)

lemma new_block_rel: "block_rel newAnthropicStreamOut (None, 0)"
  by (simp add: block_rel_def newAnthropicStreamOut_def)

text \<open>C20: whatever sequence of IR events reaches the Anthropic encoder, overlapping or repeated
  tool calls included, as long as tool indices are not negative, the client sees blocks with consecutive
  indices that are opened once, receive their deltas while they are open and are closed once;
  and when the message ends, by a stop or an error, no block is left open.\<close>

theorem anthropic_blocks_bracketed:
  assumes "\<forall>ev \<in> set evs. tool_index_ok ev" and "final = EventMessageStop r u \<or> final = EventError m"
  shows "\<exists>n. client_run block_client (None, 0)
     (snd (encode_all (anthropicStreamOut_FromIR e) newAnthropicStreamOut (evs @ [final]))) = Some (None, n)"
proof -
  have g: "\<forall>ev \<in> set (evs @ [final]). tool_index_ok ev" using assms by auto
  have "\<exists>c'. client_run block_client (None, 0)
      (snd (encode_all (anthropicStreamOut_FromIR e) newAnthropicStreamOut (evs @ [final]))) = Some c' \<and> fst c' = None"
  proof (rule anthropic_out.accepted_then [OF new_block_rel g])
    fix s c c' assume rel: "block_rel s c"
      and run: "client_run block_client c (snd (anthropicStreamOut_FromIR e s final)) = Some c'"
    obtain s1 out where "aclose s = (s1, out)"
        "client_run block_client c out = Some (None, aoNextIndex s)"
      using rel by (rule acloseE)
    with run assms(2) show "fst c' = None" by auto
  qed
  then show ?thesis by auto
qed

lemma anthropic_blocks_bracketed_witness:
  "\<exists>n. client_run block_client (None, 0)
     (snd (encode_all (anthropicStreamOut_FromIR \<lparr>eRand = \<lambda>k. [], eNow = 0\<rparr>) newAnthropicStreamOut
       ([EventToolUseStart 1 ''a'' ''f'', EventToolUseStart 2 ''b'' ''g'', EventToolInputDelta 1 ''a'' ''f'' ''{'']
        @ [EventMessageStop StopToolUse no_usage]))) = Some (None, n)"
  by (rule anthropic_blocks_bracketed) simp_all

section \<open>Where the decoder parts with its documentation\<close>

definition tool_block_start :: "int \<Rightarrow> string" where
  "tool_block_start i = json_text (JObj [(''type'', JStr ''content_block_start''), (''index'', num_int i),
     (''content_block'', JObj [(''type'', JStr ''tool_use''), (''id'', JStr ''t''), (''name'', JStr ''f'')])])"

lemma unmarshal_tool_block_start:
  "in_i64 i \<Longrightarrow> unmarshal dec_anthEvent (tool_block_start i) = Some \<lparr>aeType = ''content_block_start'', aeIndex = i,
     aeMessage = None, aeContentBlock = Some ((no_block ''tool_use'')\<lparr>abID := ''t'', abName := ''f''\<rparr>),
     aeDelta = None, aeUsage = None, aeError = None\<rparr>"
  by (simp add: tool_block_start_def dec_anthEvent_def dec_anthropicBlock_def no_block_def json_dec)

lemma tool_block_start_text [simp]: "tool_block_start i \<noteq> []"
  by (simp add: tool_block_start_def json_text.simps)

text \<open>The contract of the IR says a decoder emits a tool's stop before the next start; the
  Anthropic decoder does not see to it: two blocks the upstream opens without closing the first
  become two overlapping tool starts.\<close>

theorem anthropic_decoder_forwards_overlap:
  "contract_run (1, None) (fst (decode_all anthropicStreamIn_ToIR newAnthropicStreamIn
     [tool_block_start 0, tool_block_start 1])) = None"
proof -
  have "in_i64 0" "in_i64 1" by (simp_all add: in_i64_def)
  then show ?thesis
    by (simp add: anthropicStreamIn_ToIR_def unmarshal_tool_block_start anthropic_block_start_def no_block_def)
qed

definition sample_message_start :: string where
  "sample_message_start = json_text (JObj [(''type'', JStr ''message_start''), (''message'',
     JObj [(''usage'', JObj [(''input_tokens'', num64 10), (''cache_read_input_tokens'', num64 500)])])])"

definition sample_message_delta :: string where
  "sample_message_delta = json_text (JObj [(''type'', JStr ''message_delta''),
     (''usage'', JObj [(''input_tokens'', num64 10), (''output_tokens'', num64 7)])])"

definition sample_stop :: string where
  "sample_stop = json_text (JObj [(''type'', JStr ''message_stop'')])"

lemma counters_usage_clamp:
  "counters_usage (i, out, r, w) = clamp \<lparr>uInput = i, uOutput = out, uCacheRead = r, uCacheWrite = w,
     uReasoning = 0, uFound = True\<rparr>"
  by (simp add: counters_usage_def enc_anthropicUsage_def jmap_def ParseUsage_def
      parseAnthropicMessageUsage_def dec_anthropic_usage_def dec_anthropicUsage_def json_dec)

lemma sample_messages:
  "unmarshal dec_anthEvent sample_message_start = Some \<lparr>aeType = ''message_start'', aeIndex = 0,
     aeMessage = Some \<lparr>apID = [], apType = [], apRole = [], apModel = [], apContent = [], apStopReason = None,
       apUsage = (10, 0, 500, 0)\<rparr>,
     aeContentBlock = None, aeDelta = None, aeUsage = None, aeError = None\<rparr>"
  "unmarshal dec_anthEvent sample_message_delta = Some \<lparr>aeType = ''message_delta'', aeIndex = 0,
     aeMessage = None, aeContentBlock = None, aeDelta = None, aeUsage = Some (10, 7, 0, 0), aeError = None\<rparr>"
  by (simp_all add: sample_message_start_def sample_message_delta_def dec_anthEvent_def
      dec_anthropicResp_def dec_anthropicCounters_def json_dec)

lemma sample_messages_text [simp]: "sample_message_start \<noteq> []" "sample_message_delta \<noteq> []" "sample_stop \<noteq> []"
  by (simp_all add: sample_message_start_def sample_message_delta_def sample_stop_def json_text.simps)

lemma sample_metered:
  "unmarshal dec_anthropic_event sample_message_start = Some (''message_start'',
     Some (Some \<lparr>auInputTokens = Some 10, auOutputTokens = None, auCacheRead = Some 500, auCacheCreation = None\<rparr>), None)"
  "unmarshal dec_anthropic_event sample_message_delta = Some (''message_delta'', None,
     Some \<lparr>auInputTokens = Some 10, auOutputTokens = Some 7, auCacheRead = None, auCacheCreation = None\<rparr>)"
  by (simp_all add: sample_message_start_def sample_message_delta_def dec_anthropic_event_def
      dec_anthropic_usage_def dec_anthropicUsage_def json_dec)

lemma sample_counters [simp]:
  "zero_neg 10 = 10" "zero_neg 500 = 500" "zero_neg 7 = 7" "zero_neg 0 = 0"
  by (simp_all add: zero_neg_def neg64_def)

lemma unmarshal_sample_stop:
  "unmarshal dec_anthEvent sample_stop = Some \<lparr>aeType = ''message_stop'', aeIndex = 0, aeMessage = None,
     aeContentBlock = None, aeDelta = None, aeUsage = None, aeError = None\<rparr>"
  by (simp add: sample_stop_def dec_anthEvent_def json_dec)

text \<open>The client is not always told what is billed: when a message_delta repeats the input count but
  leaves out the cache counters, metering keeps the cache reads of message_start while the
  decoder's final usage has lost them.\<close>

theorem anthropic_usage_differs_from_metering:
  "\<exists>u. last (fst (decode_all anthropicStreamIn_ToIR newAnthropicStreamIn
         [sample_message_start, sample_message_delta, sample_stop])) = EventMessageStop StopEndTurn u
     \<and> uCacheRead u = 0
     \<and> uCacheRead (parser_Usage (fold (\<lambda>d t. parser_Feed t [] d)
         [sample_message_start, sample_message_delta, sample_stop] (NewStreamParser Anthropic))) = 500"
proof -
  have m: "unmarshal dec_anthropic_event sample_stop = Some (''message_stop'', None, None)"
    by (simp add: sample_stop_def dec_anthropic_event_def json_dec)
  have "uCacheRead (parser_Usage (fold (\<lambda>d t. parser_Feed t [] d)
      [sample_message_start, sample_message_delta, sample_stop] (NewStreamParser Anthropic))) = 500"
    by (simp add: NewStreamParser_def anthropicStream_Feed_def sample_metered m no_usage_def clamp_def)
  moreover have "fst (decode_all anthropicStreamIn_ToIR newAnthropicStreamIn
      [sample_message_start, sample_message_delta, sample_stop])
    = [EventMessageStart [] [] (counters_usage (10, 0, 500, 0)),
       EventMessageStop StopEndTurn (merge_delta_usage (counters_usage (10, 0, 500, 0)) (10, 7, 0, 0))]"
    by (simp add: anthropicStreamIn_ToIR_def sample_messages unmarshal_sample_stop newAnthropicStreamIn_def Let_def)
  moreover have "uCacheRead (merge_delta_usage (counters_usage (10, 0, 500, 0)) (10, 7, 0, 0)) = 0"
    by (simp add: merge_delta_usage_def counters_usage_clamp clamp_def Let_def)
  ultimately show ?thesis by simp
qed

end
