(* ===== verification/StreamChat.thy ===== *)
theory StreamChat
  imports Responses
begin

text \<open>
  \<^verbatim>\<open>translate/stream_openai_chat.go\<close>: the chunks of a Chat Completions stream to IR events, and
  IR events to chunks.
\<close>

section \<open>Decoder\<close>

datatype toolLife = toolUnseen | toolOpen | toolClosed

record chatStreamIn =
  ciStarted :: bool
  ciFinish :: "string option"
  ciHasTools :: bool
  ciToolState :: "(int \<times> toolLife) list"
  ciCurTool :: int
  ciToolIDs :: "(int \<times> string) list"
  ciToolNames :: "(int \<times> string) list"
  ciUsage :: usage
  ciStopSent :: bool
  ciReasonOpen :: bool

definition newChatStreamIn :: chatStreamIn where
  "newChatStreamIn = \<lparr>ciStarted = False, ciFinish = None, ciHasTools = False, ciToolState = [],
     ciCurTool = -1, ciToolIDs = [], ciToolNames = [], ciUsage = no_usage, ciStopSent = False,
     ciReasonOpen = False\<rparr>"

text \<open>Reading a map gives the zero value for a key that is absent.\<close>

definition tool_state :: "chatStreamIn \<Rightarrow> int \<Rightarrow> toolLife" where
  "tool_state s i = (case map_of (ciToolState s) i of None \<Rightarrow> toolUnseen | Some l \<Rightarrow> l)"

definition look_str :: "(int \<times> string) list \<Rightarrow> int \<Rightarrow> string" where
  "look_str m i = (case map_of m i of None \<Rightarrow> [] | Some x \<Rightarrow> x)"

record toolFragment =
  tfIndex :: int
  tfID :: string
  tfName :: string
  tfArguments :: string

record chunkChoice =
  ccIndex :: int
  ccFinishReason :: "string option"
  ccContent :: "string option"
  ccReasoningContent :: "string option"
  ccToolCalls :: "toolFragment list"

record chatChunk =
  ckID :: string
  ckModel :: string
  ckChoices :: "chunkChoice list"
  ckUsage :: "json option"
  ckError :: "(string \<times> string) option"

definition dec_toolFragment :: "toolFragment decoder" where
  "dec_toolFragment j = do {
     fs \<leftarrow> dec_obj j;
     i \<leftarrow> get_int ''index'' fs;
     d \<leftarrow> get_str ''id'' fs;
     t \<leftarrow> get_str ''type'' fs;
     f \<leftarrow> get_val dec_obj [] ''function'' fs;
     n \<leftarrow> get_str ''name'' f;
     a \<leftarrow> get_str ''arguments'' f;
     Some \<lparr>tfIndex = i, tfID = d, tfName = n, tfArguments = a\<rparr> }"

definition dec_chunkChoice :: "chunkChoice decoder" where
  "dec_chunkChoice j = do {
     fs \<leftarrow> dec_obj j;
     i \<leftarrow> get_int ''index'' fs;
     f \<leftarrow> get_ptr dec_str ''finish_reason'' fs;
     d \<leftarrow> get_val dec_obj [] ''delta'' fs;
     r \<leftarrow> get_str ''role'' d;
     c \<leftarrow> get_ptr dec_str ''content'' d;
     g \<leftarrow> get_ptr dec_str ''reasoning_content'' d;
     t \<leftarrow> get_slice dec_toolFragment ''tool_calls'' d;
     Some \<lparr>ccIndex = i, ccFinishReason = f, ccContent = c, ccReasoningContent = g, ccToolCalls = t\<rparr> }"

definition dec_chunkError :: "(string \<times> string) decoder" where
  "dec_chunkError j = do {
     fs \<leftarrow> dec_obj j;
     m \<leftarrow> get_str ''message'' fs;
     t \<leftarrow> get_str ''type'' fs;
     Some (t, m) }"

definition dec_chatChunk :: "chatChunk decoder" where
  "dec_chatChunk j = do {
     fs \<leftarrow> dec_obj j;
     i \<leftarrow> get_str ''id'' fs;
     m \<leftarrow> get_str ''model'' fs;
     cs \<leftarrow> get_slice dec_chunkChoice ''choices'' fs;
     e \<leftarrow> get_ptr dec_chunkError ''error'' fs;
     Some \<lparr>ckID = i, ckModel = m, ckChoices = cs, ckUsage = get_raw ''usage'' fs, ckError = e\<rparr> }"

definition hasUsage :: "chatChunk \<Rightarrow> bool" where
  "hasUsage c = raw_set (ckUsage c)"

definition closeCurrentTool :: "chatStreamIn \<Rightarrow> chatStreamIn \<times> StreamEvent list" where
  "closeCurrentTool s =
     (if ciCurTool s < 0 then (s, [])
      else (let i = ciCurTool s
            in (s\<lparr>ciCurTool := -1, ciToolState := AList.update i toolClosed (ciToolState s)\<rparr>,
                [EventToolUseStop (wrap64 (i + 1)) (look_str (ciToolIDs s) i) (look_str (ciToolNames s) i)])))"

definition close_reasoning :: "chatStreamIn \<Rightarrow> chatStreamIn \<times> StreamEvent list" where
  "close_reasoning s =
     (if ciReasonOpen s then (s\<lparr>ciReasonOpen := False\<rparr>, [EventThinkingDone (-1) [] [] None]) else (s, []))"

definition finishIfNeeded :: "chatStreamIn \<Rightarrow> chatStreamIn \<times> StreamEvent list" where
  "finishIfNeeded s =
     (if ciStopSent s \<or> \<not> ciStarted s then (s, [])
      else (let (s1, o1) = closeCurrentTool (s\<lparr>ciStopSent := True\<rparr>);
                (s2, o2) = close_reasoning s1
            in (s2, o1 @ o2 @ [EventMessageStop (chatFinishToIR (ciFinish s2) (ciHasTools s2)) (ciUsage s2)])))"

text \<open>One element of \<open>tool_calls\<close>.\<close>

definition fragment_open :: "chatStreamIn \<Rightarrow> toolFragment \<Rightarrow> chatStreamIn \<times> StreamEvent list" where
  "fragment_open s tc =
     (let (s1, o1) = closeCurrentTool s;
          s2 = s1\<lparr>ciToolState := AList.update (tfIndex tc) toolOpen (ciToolState s1),
                  ciCurTool := tfIndex tc,
                  ciToolIDs := AList.update (tfIndex tc) (tfID tc) (ciToolIDs s1),
                  ciToolNames := AList.update (tfIndex tc) (tfName tc) (ciToolNames s1)\<rparr>;
          (s3, o3) = close_reasoning s2
      in (s3, o1 @ o3 @ [EventToolUseStart (wrap64 (tfIndex tc + 1)) (tfID tc) (tfName tc)]))"

definition fragment_fill :: "chatStreamIn \<Rightarrow> toolFragment \<Rightarrow> chatStreamIn" where
  "fragment_fill s tc =
     s\<lparr>ciToolIDs := (if look_str (ciToolIDs s) (tfIndex tc) = [] \<and> tfID tc \<noteq> []
                     then AList.update (tfIndex tc) (tfID tc) (ciToolIDs s) else ciToolIDs s),
       ciToolNames := (if look_str (ciToolNames s) (tfIndex tc) = [] \<and> tfName tc \<noteq> []
                     then AList.update (tfIndex tc) (tfName tc) (ciToolNames s) else ciToolNames s)\<rparr>"

definition tool_fragment ::
  "chatStreamIn \<Rightarrow> toolFragment \<Rightarrow> (chatStreamIn \<times> StreamEvent list) result" where
  "tool_fragment s0 tc =
     (let s = s0\<lparr>ciHasTools := True\<rparr>; i = tfIndex tc
      in if tool_state s i = toolClosed then
           Inl (''openai chat stream: tool index '' @ int_text i
             @ '' got a fragment after it was closed (interleaved tool calls unsupported)'')
         else
           (let (s1, o1) = (if tool_state s i = toolUnseen then fragment_open s tc
                            else (fragment_fill s tc, []))
            in Inr (s1, o1 @ (if tfArguments tc \<noteq> []
                 then [EventToolInputDelta (wrap64 (i + 1)) (look_str (ciToolIDs s1) i) (look_str (ciToolNames s1) i)
                         (tfArguments tc)] else []))))"

fun tool_fragments ::
  "chatStreamIn \<Rightarrow> toolFragment list \<Rightarrow> (chatStreamIn \<times> StreamEvent list) result" where
  "tool_fragments s [] = Inr (s, [])"
| "tool_fragments s (tc # tcs) =
     rbind (tool_fragment s tc) (\<lambda>(s1, o1).
     rbind (tool_fragments s1 tcs) (\<lambda>(s2, o2). Inr (s2, o1 @ o2)))"

definition chunk_reasoning :: "chatStreamIn \<Rightarrow> string option \<Rightarrow> chatStreamIn \<times> StreamEvent list" where
  "chunk_reasoning s r =
     (case r of
        None \<Rightarrow> (s, [])
      | Some t \<Rightarrow> if t = [] then (s, []) else (s\<lparr>ciReasonOpen := True\<rparr>, [EventThinkingDelta (-1) t]))"

definition chunk_text :: "chatStreamIn \<Rightarrow> string option \<Rightarrow> chatStreamIn \<times> StreamEvent list" where
  "chunk_text s c =
     (case c of
        None \<Rightarrow> (s, [])
      | Some t \<Rightarrow>
          if t = [] then (s, [])
          else (let (s1, o1) = close_reasoning s in (s1, o1 @ [EventTextDelta 0 t])))"

definition chunk_finish :: "chatStreamIn \<Rightarrow> string option \<Rightarrow> chatStreamIn \<times> StreamEvent list" where
  "chunk_finish s f =
     (case f of
        None \<Rightarrow> (s, [])
      | Some r \<Rightarrow> if r = [] then (s, []) else closeCurrentTool (s\<lparr>ciFinish := Some r\<rparr>))"

definition chunk_choice ::
  "chatStreamIn \<Rightarrow> chunkChoice \<Rightarrow> (chatStreamIn \<times> StreamEvent list) result" where
  "chunk_choice s ch =
     (if ccIndex ch \<noteq> 0 then Inr (s, [])
      else (let (s1, o1) = chunk_reasoning s (ccReasoningContent ch);
                (s2, o2) = chunk_text s1 (ccContent ch)
            in rbind (tool_fragments s2 (ccToolCalls ch)) (\<lambda>(s3, o3).
               let (s4, o4) = chunk_finish s3 (ccFinishReason ch)
               in Inr (s4, o1 @ o2 @ o3 @ o4))))"

fun chunk_choices ::
  "chatStreamIn \<Rightarrow> chunkChoice list \<Rightarrow> (chatStreamIn \<times> StreamEvent list) result" where
  "chunk_choices s [] = Inr (s, [])"
| "chunk_choices s (c # cs) =
     rbind (chunk_choice s c) (\<lambda>(s1, o1).
     rbind (chunk_choices s1 cs) (\<lambda>(s2, o2). Inr (s2, o1 @ o2)))"

definition chunk_start :: "chatStreamIn \<Rightarrow> chatChunk \<Rightarrow> chatStreamIn \<times> StreamEvent list" where
  "chunk_start s c =
     (if ciStarted s then (s, [])
      else (s\<lparr>ciStarted := True\<rparr>, [EventMessageStart (ckID c) (ckModel c) no_usage]))"

definition chunk_usage :: "chatStreamIn \<Rightarrow> chatChunk \<Rightarrow> chatStreamIn" where
  "chunk_usage s c =
     (if hasUsage c
      then s\<lparr>ciUsage := ParseUsage OpenAIChat (json_text (JObj [(''usage'', raw_or_null (ckUsage c))]))\<rparr>
      else s)"

definition chatChunk_ToIR :: "chatStreamIn \<Rightarrow> chatChunk \<Rightarrow> (chatStreamIn \<times> StreamEvent list) result" where
  "chatChunk_ToIR s c =
     (case ckError c of
        Some (t, m) \<Rightarrow> Inr (s, [EventError (t @ '': '' @ m)])
      | None \<Rightarrow>
          (let (s1, o1) = chunk_start s c
           in rbind (chunk_choices (chunk_usage s1 c) (ckChoices c)) (\<lambda>(s2, o2).
              let (s3, o3) = (if ciFinish s2 \<noteq> None \<and> hasUsage c then finishIfNeeded s2 else (s2, []))
              in Inr (s3, o1 @ o2 @ o3))))"

definition chatStreamIn_ToIR :: "chatStreamIn \<Rightarrow> string \<Rightarrow> (chatStreamIn \<times> StreamEvent list) result" where
  "chatStreamIn_ToIR s data =
     (if data = [] then Inr (s, [])
      else if data = DONE then Inr (finishIfNeeded s)
      else (case unmarshal dec_chatChunk data of
              None \<Rightarrow> Inl (''openai chat stream: '' @ json_err)
            | Some c \<Rightarrow> chatChunk_ToIR s c))"

section \<open>Encoder\<close>

record chatStreamOut =
  csoID :: string
  csoModel :: string
  csoCreated :: int
  csoToolIdx :: "(int \<times> int) list"
  csoNextTool :: int
  csoHasTools :: bool
  csoDraws :: nat

definition newChatStreamOut :: chatStreamOut where
  "newChatStreamOut = \<lparr>csoID = [], csoModel = [], csoCreated = 0, csoToolIdx = [], csoNextTool = 0,
     csoHasTools = False, csoDraws = 0\<rparr>"

definition chunk :: "chatStreamOut \<Rightarrow> (string \<times> json) list option \<Rightarrow> string option \<Rightarrow> json option \<Rightarrow> frame" where
  "chunk s delta finish usage =
     (let ch = (if delta = None \<and> finish = None then []
                else [jmap [(''index'', num_int 0),
                   (''delta'', jmap (case delta of None \<Rightarrow> [] | Some d \<Rightarrow> d)),
                   (''finish_reason'', case finish of None \<Rightarrow> JNull | Some f \<Rightarrow> JStr f)]])
      in Data (jmap ([(''id'', JStr (csoID s)), (''object'', JStr ''chat.completion.chunk''),
           (''created'', num_int (csoCreated s)), (''model'', JStr (csoModel s)), (''choices'', JArr ch)]
           @ opt_json ''usage'' usage)))"

definition tool_calls_delta :: "json \<Rightarrow> (string \<times> json) list" where
  "tool_calls_delta c = [(''tool_calls'', JArr [c])]"

definition chat_tool_start :: "env \<Rightarrow> chatStreamOut \<Rightarrow> int \<Rightarrow> string \<Rightarrow> string \<Rightarrow> chatStreamOut \<times> frame list" where
  "chat_tool_start e s src callID name =
     (let idx = csoNextTool s; (i, k) = id_or e ''call_'' (csoDraws s) callID;
          s1 = s\<lparr>csoHasTools := True, csoNextTool := idx + 1, csoToolIdx := AList.update src idx (csoToolIdx s),
                 csoDraws := k\<rparr>
      in (s1, [chunk s1 (Some (tool_calls_delta (jmap [(''index'', num_int idx), (''id'', JStr i),
             (''type'', JStr ''function''),
             (''function'', jmap [(''name'', JStr name), (''arguments'', JStr [])])]))) None None]))"

definition chat_args_chunk :: "chatStreamOut \<Rightarrow> int \<Rightarrow> string \<Rightarrow> frame" where
  "chat_args_chunk s idx d = chunk s (Some (tool_calls_delta (jmap [(''index'', num_int idx),
     (''function'', jmap [(''arguments'', JStr d)])]))) None None"

fun chatStreamOut_FromIR :: "env \<Rightarrow> chatStreamOut \<Rightarrow> StreamEvent \<Rightarrow> chatStreamOut \<times> frame list" where
  "chatStreamOut_FromIR e s (EventMessageStart i m u) =
     (let (i', k) = id_or e ''chatcmpl-'' (csoDraws s) i;
          s1 = s\<lparr>csoID := i', csoModel := m, csoCreated := eNow e, csoDraws := k\<rparr>
      in (s1, [chunk s1 (Some [(''role'', JStr ''assistant''), (''content'', JStr [])]) None None]))"
| "chatStreamOut_FromIR e s (EventTextDelta i t) = (s, [chunk s (Some [(''content'', JStr t)]) None None])"
| "chatStreamOut_FromIR e s (EventThinkingDelta i t) =
     (s, if t = [] then [] else [chunk s (Some [(''reasoning_content'', JStr t)]) None None])"
| "chatStreamOut_FromIR e s (EventThinkingDone i t sig raw) = (s, [])"
| "chatStreamOut_FromIR e s (EventToolUseStart i c n) = chat_tool_start e s i c n"
| "chatStreamOut_FromIR e s (EventToolInputDelta i c n d) =
     (case map_of (csoToolIdx s) i of
        None \<Rightarrow>
          (let (s1, out) = chat_tool_start e s i c n;
               idx = (case map_of (csoToolIdx s1) i of Some x \<Rightarrow> x | None \<Rightarrow> 0)
           in (s1, out @ [chat_args_chunk s1 idx d]))
      | Some idx \<Rightarrow> (s, if d = [] then [] else [chat_args_chunk s idx d]))"
| "chatStreamOut_FromIR e s (EventToolUseStop i c n) = (s, [])"
| "chatStreamOut_FromIR e s (EventMessageStop r u) =
     (s, [chunk s (Some []) (Some (chatFinishFromIR r (csoHasTools s))) None]
         @ (case chatUsageFromIR u of None \<Rightarrow> [] | Some cu \<Rightarrow> [chunk s None None (Some cu)])
         @ [DoneFrame])"
| "chatStreamOut_FromIR e s (EventError m) =
     (s, [Data (jmap [(''error'', jmap [(''message'', JStr m), (''type'', JStr ''api_error'')])])])"

section \<open>The decoder keeps the contract\<close>

definition chat_rel :: "chatStreamIn \<Rightarrow> nat \<times> int option \<Rightarrow> bool" where
  "chat_rel s c \<longleftrightarrow>
     c = (if \<not> ciStarted s then 0 else if ciStopSent s then 2 else 1,
          if ciCurTool s < 0 then None else Some (wrap64 (ciCurTool s + 1)))
     \<and> (ciStarted s \<or> \<not> ciStopSent s \<and> ciCurTool s < 0)
     \<and> (\<forall>i. tool_state s i = toolOpen \<longrightarrow> i = ciCurTool s \<and> 0 \<le> i)"

text \<open>A step that keeps the contract between its state and its events.\<close>

definition keeps :: "chatStreamIn \<Rightarrow> chatStreamIn \<times> StreamEvent list \<Rightarrow> bool" where
  "keeps s r \<longleftrightarrow> (\<forall>c. chat_rel s c \<longrightarrow> ciStarted s \<longrightarrow>
     (\<exists>c'. contract_run c (snd r) = Some c' \<and> chat_rel (fst r) c') \<and> ciStarted (fst r))"

lemma keepsD:
  "keeps s (s1, evs) \<Longrightarrow> chat_rel s c \<Longrightarrow> ciStarted s \<Longrightarrow>
   \<exists>c'. contract_run c evs = Some c' \<and> chat_rel s1 c' \<and> ciStarted s1"
  unfolding keeps_def by (metis fst_conv snd_conv)

lemma keeps_seq: "keeps s (s1, o1) \<Longrightarrow> keeps s1 (s2, o2) \<Longrightarrow> keeps s (s2, o1 @ o2)"
  unfolding keeps_def by (metis bind.bind_lunit contract_run_append fst_conv snd_conv)

lemma keeps_refl: "keeps s (s, [])"
  by (simp add: keeps_def)

lemma tool_state_update:
  "tool_state (s\<lparr>ciToolState := AList.update i l (ciToolState s)\<rparr>) j = (if j = i then l else tool_state s j)"
  by (simp add: tool_state_def update_conv')

lemma keeps_closeCurrentTool: "keeps s (closeCurrentTool s)"
  by (auto simp: keeps_def closeCurrentTool_def chat_rel_def Let_def tool_state_def update_conv' split: if_splits)

lemma closeCurrentTool_cur: "ciCurTool (fst (closeCurrentTool s)) < 0"
  by (simp add: closeCurrentTool_def Let_def)

lemma keeps_close_reasoning: "keeps s (close_reasoning s)"
  by (auto simp: keeps_def close_reasoning_def chat_rel_def tool_state_def)

lemma keeps_chunk_reasoning: "keeps s (chunk_reasoning s r)"
  by (auto simp: keeps_def chunk_reasoning_def chat_rel_def tool_state_def split: option.splits if_splits)

lemma keeps_chunk_text: "keeps s (chunk_text s t)"
proof -
  obtain s1 o1 where s1: "close_reasoning s = (s1, o1)" by fastforce
  have "keeps s1 (s1, [EventTextDelta 0 x])" for x
    by (auto simp: keeps_def chat_rel_def)
  then have "keeps s (s1, o1 @ [EventTextDelta 0 x])" for x
    using keeps_close_reasoning [of s] s1 keeps_seq by metis
  then show ?thesis
    using s1 by (auto simp: chunk_text_def keeps_refl split: option.split)
qed

lemma keeps_fragment_open:
  assumes "0 \<le> tfIndex tc"
  shows "keeps s (fragment_open s tc)"
proof -
  obtain s1 o1 where s1: "closeCurrentTool s = (s1, o1)" by fastforce
  have cur: "ciCurTool s1 < 0" using closeCurrentTool_cur [of s] s1 by simp
  define s2 where "s2 = s1\<lparr>ciToolState := AList.update (tfIndex tc) toolOpen (ciToolState s1),
                  ciCurTool := tfIndex tc,
                  ciToolIDs := AList.update (tfIndex tc) (tfID tc) (ciToolIDs s1),
                  ciToolNames := AList.update (tfIndex tc) (tfName tc) (ciToolNames s1)\<rparr>"
  obtain s3 o3 where s3: "close_reasoning s2 = (s3, o3)" by fastforce
  have open_eq: "fragment_open s tc = (s3, o1 @ o3 @ [EventToolUseStart (wrap64 (tfIndex tc + 1)) (tfID tc) (tfName tc)])"
    by (simp add: fragment_open_def s1 Let_def s2_def [symmetric] s3)
  have "keeps s1 (s3, o3 @ [EventToolUseStart (wrap64 (tfIndex tc + 1)) (tfID tc) (tfName tc)])"
    using assms cur s3
    by (auto simp: keeps_def chat_rel_def s2_def close_reasoning_def tool_state_def update_conv'
        split: if_splits)
  with keeps_closeCurrentTool [of s] s1 have
    "keeps s (s3, o1 @ o3 @ [EventToolUseStart (wrap64 (tfIndex tc + 1)) (tfID tc) (tfName tc)])"
    using keeps_seq by metis
  then show ?thesis unfolding open_eq .
qed

lemma fragment_open_cur:
  "ciCurTool (fst (fragment_open s tc)) = tfIndex tc"
  by (simp add: fragment_open_def close_reasoning_def Let_def split: prod.split)

lemma keeps_input_delta: "ciCurTool s = i \<Longrightarrow> 0 \<le> i \<Longrightarrow> keeps s (s, [EventToolInputDelta (wrap64 (i + 1)) a b d])"
  by (auto simp: keeps_def chat_rel_def)

lemma keeps_tool_fragment:
  assumes "0 \<le> tfIndex tc" and "tool_fragment s tc = Inr r"
  shows "keeps s r"
proof -
  let ?s = "s\<lparr>ciHasTools := True\<rparr>"
  have flag: "keeps s (?s, [])" by (auto simp: keeps_def chat_rel_def tool_state_def)
  obtain s1 o1 where s1: "(if tool_state ?s (tfIndex tc) = toolUnseen then fragment_open ?s tc
      else (fragment_fill ?s tc, [])) = (s1, o1)" by fastforce
  have ts: "tool_state ?s (tfIndex tc) \<noteq> toolClosed"
    using assms(2) by (auto simp: tool_fragment_def Let_def)
  have r: "r = (s1, o1 @ (if tfArguments tc \<noteq> []
      then [EventToolInputDelta (wrap64 (tfIndex tc + 1)) (look_str (ciToolIDs s1) (tfIndex tc))
              (look_str (ciToolNames s1) (tfIndex tc)) (tfArguments tc)] else []))"
    using assms(2) ts s1 by (simp add: tool_fragment_def Let_def split: prod.splits)
  show ?thesis
  proof (cases "tool_state ?s (tfIndex tc) = toolUnseen")
    case True
    then have "fragment_open ?s tc = (s1, o1)" using s1 by simp
    with keeps_fragment_open [OF assms(1), of ?s] fragment_open_cur [of ?s tc]
    have "keeps ?s (s1, o1)" "ciCurTool s1 = tfIndex tc" by simp_all
    then have "keeps ?s r"
      unfolding r using keeps_input_delta assms(1) keeps_seq keeps_refl by auto
    with flag show ?thesis using keeps_seq [of s ?s "[]" "fst r" "snd r"] by simp
  next
    case False
    with ts have op: "tool_state s (tfIndex tc) = toolOpen"
      by (cases "tool_state s (tfIndex tc)") (auto simp: tool_state_def)
    from False s1 have "s1 = fragment_fill ?s tc" "o1 = []" by auto
    with r op assms(1) show ?thesis
      by (auto simp: keeps_def chat_rel_def fragment_fill_def tool_state_def)
  qed
qed

lemma keeps_tool_fragments:
  "\<forall>tc \<in> set tcs. 0 \<le> tfIndex tc \<Longrightarrow> tool_fragments s tcs = Inr r \<Longrightarrow> keeps s r"
proof (induction tcs arbitrary: s r)
  case (Cons tc tcs)
  then obtain s1 o1 s2 o2 where "tool_fragment s tc = Inr (s1, o1)" "tool_fragments s1 tcs = Inr (s2, o2)"
      "r = (s2, o1 @ o2)" by (auto simp: rbind_Inr_iff)
  with Cons keeps_tool_fragment [of tc s] show ?case by (auto intro: keeps_seq)
qed (auto simp: keeps_refl)

lemma keeps_chunk_finish: "keeps s (chunk_finish s f)"
proof -
  have "keeps s (s\<lparr>ciFinish := Some x\<rparr>, [])" for x
    by (auto simp: keeps_def chat_rel_def tool_state_def)
  then have "keeps s (closeCurrentTool (s\<lparr>ciFinish := Some x\<rparr>))" for x
    using keeps_seq [of s "s\<lparr>ciFinish := Some x\<rparr>" "[]"] keeps_closeCurrentTool [of "s\<lparr>ciFinish := Some x\<rparr>"]
    by (metis append_Nil prod.collapse)
  then show ?thesis by (auto simp: chunk_finish_def keeps_refl split: option.split)
qed

definition indices_ok :: "chunkChoice \<Rightarrow> bool" where
  "indices_ok ch \<longleftrightarrow> (\<forall>tc \<in> set (ccToolCalls ch). 0 \<le> tfIndex tc)"

lemma keeps_chunk_choice:
  assumes "indices_ok ch" and "chunk_choice s ch = Inr r"
  shows "keeps s r"
proof (cases "ccIndex ch = 0")
  case True
  obtain s1 o1 where s1: "chunk_reasoning s (ccReasoningContent ch) = (s1, o1)" by fastforce
  obtain s2 o2 where s2: "chunk_text s1 (ccContent ch) = (s2, o2)" by fastforce
  obtain s3 o3 where s3: "tool_fragments s2 (ccToolCalls ch) = Inr (s3, o3)"
    using True assms(2) s1 s2 by (auto simp: chunk_choice_def rbind_Inr_iff)
  obtain s4 o4 where s4: "chunk_finish s3 (ccFinishReason ch) = (s4, o4)" by fastforce
  have r: "r = (s4, o1 @ o2 @ o3 @ o4)"
    using True assms(2) s1 s2 s3 s4 by (auto simp: chunk_choice_def)
  have "keeps s2 (s3, o3)"
    using assms(1) s3 by (intro keeps_tool_fragments) (auto simp: indices_ok_def)
  then show ?thesis unfolding r
    using keeps_chunk_reasoning [of s "ccReasoningContent ch"] keeps_chunk_text [of s1 "ccContent ch"]
      keeps_chunk_finish [of s3 "ccFinishReason ch"] s1 s2 s4 by (metis keeps_seq)
qed (use assms(2) in \<open>auto simp: chunk_choice_def keeps_refl\<close>)

lemma keeps_chunk_choices:
  "\<forall>ch \<in> set chs. indices_ok ch \<Longrightarrow> chunk_choices s chs = Inr r \<Longrightarrow> keeps s r"
proof (induction chs arbitrary: s r)
  case (Cons ch chs)
  then obtain s1 o1 s2 o2 where "chunk_choice s ch = Inr (s1, o1)" "chunk_choices s1 chs = Inr (s2, o2)"
      "r = (s2, o1 @ o2)" by (auto simp: rbind_Inr_iff)
  with Cons keeps_chunk_choice [of ch s] show ?case by (auto intro: keeps_seq)
qed (auto simp: keeps_refl)

lemma finish_contract:
  assumes "chat_rel s c"
  shows "\<exists>c'. contract_run c (snd (finishIfNeeded s)) = Some c' \<and> chat_rel (fst (finishIfNeeded s)) c'"
  using assms
  by (auto simp: finishIfNeeded_def closeCurrentTool_def close_reasoning_def chat_rel_def tool_state_def
      update_conv' Let_def split: if_splits)

lemma chunk_start_contract:
  assumes "chat_rel s c"
  shows "\<exists>c'. contract_run c (snd (chunk_start s k)) = Some c' \<and> chat_rel (fst (chunk_start s k)) c'
    \<and> ciStarted (fst (chunk_start s k))"
  using assms by (auto simp: chunk_start_def chat_rel_def tool_state_def)

lemma chunk_usage_rel [simp]: "chat_rel (chunk_usage s k) c = chat_rel s c" "ciStarted (chunk_usage s k) = ciStarted s"
  by (auto simp: chunk_usage_def chat_rel_def tool_state_def)

lemma chatChunk_contract:
  assumes rel: "chat_rel s c" and ok: "\<forall>ch \<in> set (ckChoices k). indices_ok ch"
    and res: "chatChunk_ToIR s k = Inr (s', evs)"
  shows "\<exists>c'. contract_run c evs = Some c' \<and> chat_rel s' c'"
proof (cases "ckError k")
  case None
  obtain s1 o1 where s1: "chunk_start s k = (s1, o1)" by fastforce
  obtain c1 where c1: "contract_run c o1 = Some c1" "chat_rel s1 c1" "ciStarted s1"
    using chunk_start_contract [OF rel, of k] s1 by auto
  obtain s2 o2 where s2: "chunk_choices (chunk_usage s1 k) (ckChoices k) = Inr (s2, o2)"
    using res None s1 by (auto simp: chatChunk_ToIR_def rbind_Inr_iff)
  obtain c2 where c2: "contract_run c1 o2 = Some c2" "chat_rel s2 c2"
    using keepsD [OF keeps_chunk_choices [OF ok s2], of c1] c1(2,3) by auto
  obtain s3 o3 where s3: "(if ciFinish s2 \<noteq> None \<and> hasUsage k then finishIfNeeded s2 else (s2, [])) = (s3, o3)"
    by fastforce
  have "\<exists>c3. contract_run c2 o3 = Some c3 \<and> chat_rel s3 c3"
    using finish_contract [OF c2(2)] c2(2) s3 by (auto simp del: split_paired_Ex split: if_splits)
  then obtain c3 where c3: "contract_run c2 o3 = Some c3" "chat_rel s3 c3" by blast
  have "s' = s3" "evs = o1 @ o2 @ o3"
    using res None s1 s2 s3 by (auto simp: chatChunk_ToIR_def)
  with c1 c2 c3 show ?thesis by simp
next
  case (Some p)
  with res rel show ?thesis by (cases p; cases c) (auto simp: chatChunk_ToIR_def)
qed

text \<open>Upstream data whose tool fragments have indices that are not negative, as the protocol says.\<close>

definition chat_data_ok :: "string \<Rightarrow> bool" where
  "chat_data_ok d \<longleftrightarrow> (case unmarshal dec_chatChunk d of
     None \<Rightarrow> True | Some k \<Rightarrow> list_all indices_ok (ckChoices k))"

text \<open>
  Data whose indices also leave room for the slot of the text: the code adds 1 to an index, and the largest int becomes
  negative.
\<close>

definition index_fits :: "toolFragment \<Rightarrow> bool" where
  "index_fits tc \<longleftrightarrow> 0 \<le> tfIndex tc \<and> tfIndex tc < 2 ^ 63 - 1"

definition indices_fit :: "chunkChoice \<Rightarrow> bool" where
  "indices_fit ch \<longleftrightarrow> (\<forall>tc \<in> set (ccToolCalls ch). index_fits tc)"

definition chat_data_fits :: "string \<Rightarrow> bool" where
  "chat_data_fits d \<longleftrightarrow> (case unmarshal dec_chatChunk d of
     None \<Rightarrow> True | Some k \<Rightarrow> list_all indices_fit (ckChoices k))"

lemma index_fits_slot: "index_fits tc \<Longrightarrow> 0 \<le> wrap64 (tfIndex tc + 1)"
  by (simp add: index_fits_def in_i64_def)

lemma chat_decoder_contract:
  "chat_rel s c \<Longrightarrow> chat_data_ok d \<Longrightarrow> chatStreamIn_ToIR s d = Inr (s', evs) \<Longrightarrow>
   \<exists>c'. contract_run c evs = Some c' \<and> chat_rel s' c'"
  using finish_contract [of s c] chatChunk_contract [of s c]
  by (cases "finishIfNeeded s")
    (auto simp: chatStreamIn_ToIR_def chat_data_ok_def list_all_iff simp del: split_paired_Ex
      split: if_splits option.splits)

interpretation chat_in: stream_decoder chatStreamIn_ToIR chat_data_ok chat_rel
  by unfold_locales (rule chat_decoder_contract)

lemma new_chat_rel: "chat_rel newChatStreamIn (0, None)"
  by (simp add: chat_rel_def newChatStreamIn_def tool_state_def)

text \<open>C18: the Chat Completions decoder keeps the contract of the IR for every upstream, however
  malformed its stream is, up to the point where it stops with an error: one MessageStart before
  everything else, at most one MessageStop, every tool block closed before the next one opens
  and before the message stops, and argument fragments only inside their tool's block.\<close>

theorem chat_decoder_keeps_contract:
  assumes "\<forall>d \<in> set ds. chat_data_ok d"
  shows "contract_run (0, None) (fst (decode_all chatStreamIn_ToIR newChatStreamIn ds)) \<noteq> None"
  using chat_in.decode_contract [OF new_chat_rel assms] by auto

definition chat_tool_chunk :: "int \<Rightarrow> string \<Rightarrow> string" where
  "chat_tool_chunk i a = json_text (JObj [(''choices'', JArr [JObj [(''delta'', JObj [(''tool_calls'',
     JArr [JObj [(''index'', num_int i), (''id'', JStr ''c''),
       (''function'', JObj [(''name'', JStr ''f''), (''arguments'', JStr a)])]])])]])])"

lemma dec_chat_tool_chunk:
  "in_i64 i \<Longrightarrow> unmarshal dec_chatChunk (chat_tool_chunk i a) = Some
     \<lparr>ckID = [], ckModel = [], ckChoices = [\<lparr>ccIndex = 0, ccFinishReason = None, ccContent = None,
        ccReasoningContent = None, ccToolCalls = [\<lparr>tfIndex = i, tfID = ''c'', tfName = ''f'', tfArguments = a\<rparr>]\<rparr>],
      ckUsage = None, ckError = None\<rparr>"
  by (simp add: chat_tool_chunk_def dec_chatChunk_def dec_chunkChoice_def dec_toolFragment_def json_dec)

lemma chat_tool_chunk_text [simp]: "chat_tool_chunk i a \<noteq> []" "chat_tool_chunk i a \<noteq> DONE"
  by (simp_all add: chat_tool_chunk_def json_text.simps DONE_def)

lemma chat_decoder_keeps_contract_witness:
  "contract_run (0, None) (fst (decode_all chatStreamIn_ToIR newChatStreamIn
     [chat_tool_chunk 0 ''{'', chat_tool_chunk 1 ''x'', DONE])) \<noteq> None"
proof (rule chat_decoder_keeps_contract)
  have "unmarshal dec_chatChunk DONE = None" by code_simp
  then show "\<forall>d \<in> set [chat_tool_chunk 0 ''{'', chat_tool_chunk 1 ''x'', DONE]. chat_data_ok d"
    by (simp add: chat_data_ok_def dec_chat_tool_chunk indices_ok_def in_i64_def)
qed

section \<open>A closed tool stays closed\<close>

definition closed_in :: "int \<Rightarrow> chatStreamIn \<Rightarrow> bool" where
  "closed_in i s \<longleftrightarrow> tool_state s i = toolClosed"

lemma closed_flags [simp]:
  "closed_in i (s\<lparr>ciHasTools := b\<rparr>) = closed_in i s" "closed_in i (s\<lparr>ciFinish := f\<rparr>) = closed_in i s"
  "closed_in i (s\<lparr>ciStopSent := b\<rparr>) = closed_in i s" "closed_in i (s\<lparr>ciReasonOpen := b\<rparr>) = closed_in i s"
  "closed_in i (s\<lparr>ciUsage := u\<rparr>) = closed_in i s" "closed_in i (s\<lparr>ciStarted := b\<rparr>) = closed_in i s"
  by (simp_all add: closed_in_def tool_state_def)

lemma closed_small [simp]:
  "closed_in i (fst (chunk_start s k)) = closed_in i s" "closed_in i (chunk_usage s k) = closed_in i s"
  "closed_in i (fst (close_reasoning s)) = closed_in i s"
  "closed_in i (fst (chunk_reasoning s r)) = closed_in i s"
  "closed_in i (fst (chunk_text s t)) = closed_in i s"
  by (auto simp: chunk_start_def chunk_usage_def close_reasoning_def chunk_reasoning_def chunk_text_def Let_def
      split: option.split)

lemma closed_closeCurrentTool: "closed_in i s \<Longrightarrow> closed_in i (fst (closeCurrentTool s))"
  by (simp add: closeCurrentTool_def closed_in_def tool_state_def update_conv' Let_def)

lemma closed_chunk_finish: "closed_in i s \<Longrightarrow> closed_in i (fst (chunk_finish s f))"
  by (auto simp: chunk_finish_def closed_closeCurrentTool split: option.split)

lemma closed_fragment_open:
  assumes "closed_in i s" and "i \<noteq> tfIndex tc"
  shows "closed_in i (fst (fragment_open s tc))"
  using closed_closeCurrentTool [OF assms(1)] assms(2)
  by (auto simp: fragment_open_def close_reasoning_def closed_in_def tool_state_def update_conv' Let_def
      split: prod.split)

lemma closed_tool_fragment:
  assumes "closed_in i s" and "tool_fragment s tc = Inr r"
  shows "tfIndex tc \<noteq> i \<and> closed_in i (fst r)"
proof
  show ne: "tfIndex tc \<noteq> i"
    using assms by (auto simp: tool_fragment_def closed_in_def tool_state_def Let_def)
  have "closed_in i (fst (fragment_open (s\<lparr>ciHasTools := True\<rparr>) tc))"
    using assms(1) ne by (intro closed_fragment_open) auto
  moreover have "closed_in i (fragment_fill (s\<lparr>ciHasTools := True\<rparr>) tc)"
    using assms(1) by (simp add: fragment_fill_def closed_in_def tool_state_def)
  moreover have "fst r = fst (fragment_open (s\<lparr>ciHasTools := True\<rparr>) tc)
      \<or> fst r = fragment_fill (s\<lparr>ciHasTools := True\<rparr>) tc"
    using assms(2) by (auto simp: tool_fragment_def Let_def split_beta split: if_splits)
  ultimately show "closed_in i (fst r)" by auto
qed

lemma closed_tool_fragments:
  "closed_in i s \<Longrightarrow> tool_fragments s tcs = Inr r \<Longrightarrow>
   (\<forall>tc \<in> set tcs. tfIndex tc \<noteq> i) \<and> closed_in i (fst r)"
proof (induction tcs arbitrary: s r)
  case (Cons tc tcs)
  then obtain s1 o1 s2 o2 where "tool_fragment s tc = Inr (s1, o1)" "tool_fragments s1 tcs = Inr (s2, o2)"
      "r = (s2, o1 @ o2)" by (auto simp: rbind_Inr_iff)
  with Cons closed_tool_fragment [of i s tc] show ?case by auto
qed auto

definition choice_mentions :: "int \<Rightarrow> chunkChoice \<Rightarrow> bool" where
  "choice_mentions i ch \<longleftrightarrow> ccIndex ch = 0 \<and> (\<exists>tc \<in> set (ccToolCalls ch). tfIndex tc = i)"

lemma closed_chunk_choice:
  assumes "closed_in i s" and "chunk_choice s ch = Inr r"
  shows "\<not> choice_mentions i ch \<and> closed_in i (fst r)"
proof (cases "ccIndex ch = 0")
  case True
  let ?s2 = "fst (chunk_text (fst (chunk_reasoning s (ccReasoningContent ch))) (ccContent ch))"
  obtain s3 o3 where s3: "tool_fragments ?s2 (ccToolCalls ch) = Inr (s3, o3)"
    using True assms(2) by (auto simp: chunk_choice_def rbind_Inr_iff split_beta)
  moreover have "fst r = fst (chunk_finish s3 (ccFinishReason ch))"
    using True assms(2) s3 by (auto simp: chunk_choice_def split_beta)
  moreover have "closed_in i ?s2" using assms(1) by simp
  ultimately show ?thesis
    using closed_tool_fragments [of i ?s2] closed_chunk_finish [of i s3] by (fastforce simp: choice_mentions_def)
qed (use assms in \<open>auto simp: chunk_choice_def choice_mentions_def\<close>)

lemma closed_chunk_choices:
  "closed_in i s \<Longrightarrow> chunk_choices s chs = Inr r \<Longrightarrow>
   (\<forall>ch \<in> set chs. \<not> choice_mentions i ch) \<and> closed_in i (fst r)"
proof (induction chs arbitrary: s r)
  case (Cons ch chs)
  then obtain s1 o1 s2 o2 where "chunk_choice s ch = Inr (s1, o1)" "chunk_choices s1 chs = Inr (s2, o2)"
      "r = (s2, o1 @ o2)" by (auto simp: rbind_Inr_iff)
  with Cons closed_chunk_choice [of i s ch] show ?case by auto
qed auto

lemma closed_finish: "closed_in i s \<Longrightarrow> closed_in i (fst (finishIfNeeded s))"
  using closed_closeCurrentTool [of i "s\<lparr>ciStopSent := True\<rparr>"]
  by (auto simp: finishIfNeeded_def close_reasoning_def Let_def split_beta)

definition data_mentions :: "int \<Rightarrow> string \<Rightarrow> bool" where
  "data_mentions i d \<longleftrightarrow> d \<noteq> [] \<and> d \<noteq> DONE \<and> (case unmarshal dec_chatChunk d of
     None \<Rightarrow> False | Some k \<Rightarrow> ckError k = None \<and> (\<exists>ch \<in> set (ckChoices k). choice_mentions i ch))"

lemma closed_decoder_step:
  assumes "closed_in i s" and "chatStreamIn_ToIR s d = Inr r"
  shows "\<not> data_mentions i d \<and> closed_in i (fst r)"
proof (cases "d = [] \<or> d = DONE")
  case True
  then show ?thesis using assms closed_finish by (auto simp: chatStreamIn_ToIR_def data_mentions_def split: if_splits)
next
  case False
  then obtain k where k: "unmarshal dec_chatChunk d = Some k" "chatChunk_ToIR s k = Inr r"
    using assms(2) by (auto simp: chatStreamIn_ToIR_def split: option.splits)
  show ?thesis
  proof (cases "ckError k")
    case None
    let ?s = "chunk_usage (fst (chunk_start s k)) k"
    obtain s2 o2 where s2: "chunk_choices ?s (ckChoices k) = Inr (s2, o2)"
      using k(2) None by (auto simp: chatChunk_ToIR_def rbind_Inr_iff split_beta)
    then have "fst r = s2 \<or> fst r = fst (finishIfNeeded s2)"
      using k(2) None by (auto simp: chatChunk_ToIR_def split_beta)
    then show ?thesis
      using closed_chunk_choices [OF _ s2, of i] closed_finish [of i s2] assms(1) k(1)
      by (auto simp: data_mentions_def)
  qed (use k assms(1) in \<open>auto simp: chatChunk_ToIR_def data_mentions_def\<close>)
qed

text \<open>Arguments are never split over two blocks: once the decoder has closed a tool, because
  another tool began or the choice ended, a later chunk with a fragment for that index makes the
  stream fail with an error, whatever chunks come in between.\<close>

theorem interleaved_fragment_refused:
  assumes "tool_state s i = toolClosed" and "d \<in> set ds" and "data_mentions i d"
  shows "snd (decode_all chatStreamIn_ToIR s ds) \<noteq> None"
  using assms(1,2)
proof (induction ds arbitrary: s)
  case (Cons x ds)
  show ?case
  proof (cases "chatStreamIn_ToIR s x")
    case (Inr r)
    with closed_decoder_step [of i s x r] Cons.prems assms(3)
    have "tool_state (fst r) i = toolClosed" "d \<in> set ds" by (auto simp: closed_in_def)
    with Cons.IH [of "fst r"] Inr show ?thesis by (simp add: split_beta)
  qed simp
qed simp

lemma interleaved_fragment_refused_witness:
  "snd (decode_all chatStreamIn_ToIR
     (fst (closeCurrentTool (newChatStreamIn\<lparr>ciCurTool := 0\<rparr>))) [chat_tool_chunk 0 ''{'']) \<noteq> None"
proof (rule interleaved_fragment_refused [where i = 0 and d = "chat_tool_chunk 0 ''{''"])
  show "data_mentions 0 (chat_tool_chunk 0 ''{'')"
    by (simp add: data_mentions_def choice_mentions_def dec_chat_tool_chunk in_i64_def)
qed (simp_all add: closeCurrentTool_def newChatStreamIn_def tool_state_def)

text \<open>The premise of \<open>chat_decoder_keeps_contract\<close> on the indices is needed: the decoder marks \<open>no open tool\<close> by the
  index -1, so after a fragment with that index the next tool opens while the first one is
  still open, and the contract is broken.\<close>

theorem negative_index_overlaps:
  "contract_run (0, None) (fst (decode_all chatStreamIn_ToIR newChatStreamIn
     [chat_tool_chunk (- 1) ''{'', chat_tool_chunk 0 ''{''])) = None"
proof -
  have r: "in_i64 (- 1)" "in_i64 0" by (simp_all add: in_i64_def)
  show ?thesis
    by (simp add: chatStreamIn_ToIR_def dec_chat_tool_chunk r chatChunk_ToIR_def chunk_start_def
        chunk_usage_def hasUsage_def raw_set_def chunk_choice_def chunk_reasoning_def chunk_text_def
        tool_fragment_def tool_state_def fragment_open_def closeCurrentTool_def close_reasoning_def
        newChatStreamIn_def chunk_finish_def Let_def)
qed

section \<open>The client sees what metering bills\<close>

lemma usage_small [simp]:
  "ciUsage (fst (chunk_start s k)) = ciUsage s" "ciUsage (fst (close_reasoning s)) = ciUsage s"
  "ciUsage (fst (chunk_reasoning s r)) = ciUsage s" "ciUsage (fst (chunk_text s t)) = ciUsage s"
  "ciUsage (fst (closeCurrentTool s)) = ciUsage s" "ciUsage (fst (chunk_finish s f)) = ciUsage s"
  by (auto simp: chunk_start_def close_reasoning_def chunk_reasoning_def chunk_text_def closeCurrentTool_def
      chunk_finish_def Let_def split: option.split)

lemma usage_fragment_open [simp]: "ciUsage (fst (fragment_open s tc)) = ciUsage s"
  by (simp add: fragment_open_def Let_def split_beta)

lemma usage_tool_fragment: "tool_fragment s tc = Inr r \<Longrightarrow> ciUsage (fst r) = ciUsage s"
  by (auto simp: tool_fragment_def fragment_fill_def Let_def split_beta split: if_splits)

lemma usage_tool_fragments: "tool_fragments s tcs = Inr r \<Longrightarrow> ciUsage (fst r) = ciUsage s"
  by (induction tcs arbitrary: s r) (fastforce simp: rbind_Inr_iff dest: usage_tool_fragment)+

lemma usage_chunk_choice: "chunk_choice s ch = Inr r \<Longrightarrow> ciUsage (fst r) = ciUsage s"
  by (auto simp: chunk_choice_def rbind_Inr_iff Let_def split_beta dest!: usage_tool_fragments split: if_splits)

lemma usage_chunk_choices: "chunk_choices s chs = Inr r \<Longrightarrow> ciUsage (fst r) = ciUsage s"
  by (induction chs arbitrary: s r) (fastforce simp: rbind_Inr_iff dest: usage_chunk_choice)+

lemma usage_finish:
  "ciUsage (fst (finishIfNeeded s)) = ciUsage s
   \<and> (\<forall>r u. EventMessageStop r u \<in> set (snd (finishIfNeeded s)) \<longrightarrow> u = ciUsage s)"
  by (auto simp: finishIfNeeded_def closeCurrentTool_def close_reasoning_def Let_def)

definition no_stop :: "StreamEvent list \<Rightarrow> bool" where
  "no_stop evs \<longleftrightarrow> (\<forall>r u. EventMessageStop r u \<notin> set evs)"

lemma no_stop_simps [simp]:
  "no_stop []" "no_stop (xs @ ys) \<longleftrightarrow> no_stop xs \<and> no_stop ys"
  "no_stop (snd (chunk_start s k))" "no_stop (snd (close_reasoning s))"
  "no_stop (snd (chunk_reasoning s r))" "no_stop (snd (closeCurrentTool s))"
  "no_stop [EventToolInputDelta i c n d]" "no_stop [EventToolUseStart i c n]" "no_stop [EventTextDelta i t]"
  by (auto simp: no_stop_def chunk_start_def close_reasoning_def chunk_reasoning_def closeCurrentTool_def
      Let_def split: option.splits if_splits)

lemma no_stop_more [simp]:
  "no_stop (snd (chunk_text s t))" "no_stop (snd (chunk_finish s f))" "no_stop (snd (fragment_open s tc))"
  by (auto simp: chunk_text_def chunk_finish_def fragment_open_def Let_def split_beta split: option.split)

lemma no_stop_tool_fragment: "tool_fragment s tc = Inr r \<Longrightarrow> no_stop (snd r)"
  by (auto simp: tool_fragment_def Let_def split_beta split: if_splits)

lemma no_stop_tool_fragments: "tool_fragments s tcs = Inr r \<Longrightarrow> no_stop (snd r)"
  by (induction tcs arbitrary: s r) (fastforce simp: rbind_Inr_iff dest: no_stop_tool_fragment)+

lemma no_stop_chunk_choice: "chunk_choice s ch = Inr r \<Longrightarrow> no_stop (snd r)"
  by (auto simp: chunk_choice_def rbind_Inr_iff Let_def split_beta dest!: no_stop_tool_fragments split: if_splits)

lemma no_stop_chunk_choices: "chunk_choices s chs = Inr r \<Longrightarrow> no_stop (snd r)"
  by (induction chs arbitrary: s r) (fastforce simp: rbind_Inr_iff dest: no_stop_chunk_choice)+

text \<open>A chunk is plain when it is no error and its usage object, if any, has integer counters.\<close>

definition plain_chunk :: "string \<Rightarrow> bool" where
  "plain_chunk d \<longleftrightarrow> (case unmarshal dec_chatChunk d of
     None \<Rightarrow> False
   | Some k \<Rightarrow> d \<noteq> [] \<and> d \<noteq> DONE \<and> ckError k = None
       \<and> (\<not> hasUsage k \<or> dec_openAIUsage (raw_or_null (ckUsage k)) \<noteq> None))"

lemma chunk_usage_metered:
  assumes "unmarshal dec_chatChunk d = Some k" and "plain_chunk d" and "ciUsage s = parser_Usage (ChatParser m)"
  shows "ciUsage (chunk_usage s k) = parser_Usage (parser_Feed (ChatParser m) e d)"
proof -
  obtain j where j: "json_parse d = Some j" "dec_chatChunk j = Some k"
    using assms(1) by (auto simp: unmarshal_def Option.bind_eq_Some_conv)
  obtain fs where fs: "dec_obj j = Some fs" "ckUsage k = jget ''usage'' fs"
    using j(2) by (auto simp: dec_chatChunk_def Option.bind_eq_Some_conv)
  have d: "d \<noteq> []" "d \<noteq> DONE" using assms(1,2) by (simp_all add: plain_chunk_def)
  have feed: "parser_Feed (ChatParser m) e d = ChatParser (case get_ptr dec_openAIUsage ''usage'' fs of
      Some (Some u) \<Rightarrow> openAI_normalize u | _ \<Rightarrow> m)"
    using d j(1) fs(1) by (simp add: openAIChatStream_Feed_def unmarshal_def dec_chat_usage_def)
  show ?thesis
  proof (cases "hasUsage k")
    case True
    then obtain raw where raw: "jget ''usage'' fs = Some raw" "raw \<noteq> JNull"
      using fs(2) by (auto simp: hasUsage_def raw_set_def)
    obtain u where u: "dec_openAIUsage raw = Some u"
      using assms(1,2) True raw fs(2) by (auto simp: plain_chunk_def raw_or_null_def)
    have "json_ok raw"
      using jget_ok raw(1) dec_obj_ok [OF json_parse_ok [OF j(1)] fs(1)] by blast
    then have "ParseUsage OpenAIChat (json_text (JObj [(''usage'', raw)])) = clamp (openAI_normalize u)"
      using raw(2) u by (simp add: ParseUsage_def parseOpenAIChatUsage_def dec_chat_usage_def get_ptr_def jget_parts)
    with True feed raw u fs(2) show ?thesis
      by (simp add: chunk_usage_def get_ptr_def jget_parts raw_or_null_def)
  next
    case False
    then have "jget ''usage'' fs = None \<or> jget ''usage'' fs = Some JNull"
      using fs(2) by (auto simp: hasUsage_def raw_set_def)
    with False feed assms(3) show ?thesis by (auto simp: chunk_usage_def get_ptr_def)
  qed
qed

text \<open>One chunk: the usage of the decoder stays that of the metering parser, and a MessageStop carries it.\<close>

lemma chat_usage_step:
  assumes "ciUsage s = parser_Usage (ChatParser m)" and "plain_chunk d \<or> d = DONE"
    and "chatStreamIn_ToIR s d = Inr (s', evs)"
  shows "ciUsage s' = parser_Usage (parser_Feed (ChatParser m) e d)
    \<and> (\<forall>r u. EventMessageStop r u \<in> set evs \<longrightarrow> u = parser_Usage (parser_Feed (ChatParser m) e d))"
proof (cases "d = DONE")
  case True
  have "DONE \<noteq> []" by (simp add: DONE_def)
  with True assms(3) have "finishIfNeeded s = (s', evs)" by (simp add: chatStreamIn_ToIR_def)
  with True usage_finish [of s] assms(1) show ?thesis by (simp add: openAIChatStream_Feed_def)
next
  case False
  then have plain: "plain_chunk d" using assms(2) by simp
  then obtain k where k: "unmarshal dec_chatChunk d = Some k" "ckError k = None" "d \<noteq> []"
    by (auto simp: plain_chunk_def split: option.splits)
  let ?u = "chunk_usage (fst (chunk_start s k)) k"
  have u: "ciUsage ?u = parser_Usage (parser_Feed (ChatParser m) e d)"
    using assms(1) by (intro chunk_usage_metered [OF k(1) plain]) simp
  obtain s2 o2 where s2: "chunk_choices ?u (ckChoices k) = Inr (s2, o2)"
    using assms(3) False k by (auto simp: chatStreamIn_ToIR_def chatChunk_ToIR_def rbind_Inr_iff Let_def split_beta)
  obtain s3 o3 where s3: "(if ciFinish s2 \<noteq> None \<and> hasUsage k then finishIfNeeded s2 else (s2, [])) = (s3, o3)"
    by fastforce
  have res: "s' = s3" "evs = snd (chunk_start s k) @ o2 @ o3"
    using assms(3) False k s2 s3 by (auto simp: chatStreamIn_ToIR_def chatChunk_ToIR_def Let_def split_beta)
  have "ciUsage s2 = ciUsage ?u" "no_stop o2"
    using usage_chunk_choices [OF s2] no_stop_chunk_choices [OF s2] by simp_all
  moreover have "ciUsage s3 = ciUsage s2 \<and> (\<forall>r u. EventMessageStop r u \<in> set o3 \<longrightarrow> u = ciUsage s2)"
    using usage_finish [of s2] s3 by (auto split: if_splits)
  moreover have "no_stop (snd (chunk_start s k))" by simp
  ultimately show ?thesis using u unfolding res no_stop_def by auto
qed

text \<open>An event that a Chat Completions stream without errors may hold: nothing, the terminator or a plain chunk.\<close>

definition plain_event :: "string \<times> string \<Rightarrow> bool" where
  "plain_event p \<longleftrightarrow> snd p = [] \<or> snd p = DONE \<or> plain_chunk (snd p)"

lemma chat_usage_event:
  assumes "ciUsage s = parser_Usage (ChatParser m)" and "plain_event p" and "chatStreamIn_ToIR s (snd p) = Inr (s', evs)"
  shows "ciUsage s' = parser_Usage (parser_Feed (ChatParser m) (fst p) (snd p))
    \<and> (\<forall>r u. EventMessageStop r u \<in> set evs \<longrightarrow> u = parser_Usage (parser_Feed (ChatParser m) (fst p) (snd p)))"
proof (cases "snd p = []")
  case True
  with assms(1,3) show ?thesis by (simp add: chatStreamIn_ToIR_def openAIChatStream_Feed_def)
next
  case False
  with assms chat_usage_step [of s m "snd p"] show ?thesis by (auto simp: plain_event_def)
qed

lemma stop_usage:
  "list_all plain_event (evs @ [p]) \<Longrightarrow> ciUsage s = parser_Usage (ChatParser m) \<Longrightarrow>
   no_stop (fst (decode_all chatStreamIn_ToIR s (map snd evs))) \<Longrightarrow>
   EventMessageStop r u \<in> set (fst (decode_all chatStreamIn_ToIR s (map snd (evs @ [p])))) \<Longrightarrow>
   u = parser_Usage (fold (\<lambda>(e, d) t. parser_Feed t e d) (evs @ [p]) (ChatParser m))"
proof (induction evs arbitrary: s m)
  case Nil
  then obtain s1 o1 where d: "chatStreamIn_ToIR s (snd p) = Inr (s1, o1)" "EventMessageStop r u \<in> set o1"
    by (cases "chatStreamIn_ToIR s (snd p)") auto
  with chat_usage_event [OF Nil.prems(2) _ d(1)] Nil.prems(1) show ?case by (simp add: split_beta)
next
  case (Cons q qs)
  then obtain s1 o1 where d: "chatStreamIn_ToIR s (snd q) = Inr (s1, o1)"
    by (cases "chatStreamIn_ToIR s (snd q)") auto
  obtain m1 where m1: "parser_Feed (ChatParser m) (fst q) (snd q) = ChatParser m1" by simp
  have "ciUsage s1 = parser_Usage (ChatParser m1)"
    using chat_usage_event [OF Cons.prems(2) _ d] Cons.prems(1) m1 by simp
  moreover have "no_stop o1" "no_stop (fst (decode_all chatStreamIn_ToIR s1 (map snd qs)))"
    using Cons.prems(3) d by (simp_all add: split_beta)
  moreover from this(1) have "EventMessageStop r u \<in> set (fst (decode_all chatStreamIn_ToIR s1 (map snd (qs @ [p]))))"
    using Cons.prems(4) d by (auto simp: split_beta no_stop_def)
  ultimately have "u = parser_Usage (fold (\<lambda>(e, d) t. parser_Feed t e d) (qs @ [p]) (ChatParser m1))"
    using Cons.IH [of s1 m1] Cons.prems(1) by simp
  with m1 show ?case by (cases q) simp
qed

text \<open>C31: from a Chat Completions upstream the client is told the counters that metering bills: the MessageStop that an
  event of a stream causes carries exactly the usage that the metering parser has from all events up to this one,
  in a stream that has no error chunk up to there and whose usage objects have integer counters.\<close>

theorem chat_usage_is_metered_usage:
  assumes "list_all plain_event (evs @ [p])"
    and "no_stop (fst (decode_all chatStreamIn_ToIR newChatStreamIn (map snd evs)))"
    and "EventMessageStop r u \<in> set (fst (decode_all chatStreamIn_ToIR newChatStreamIn (map snd (evs @ [p]))))"
  shows "u = parser_Usage (fold (\<lambda>(e, d) t. parser_Feed t e d) (evs @ [p]) (NewStreamParser OpenAIChat))"
proof -
  have "ciUsage newChatStreamIn = parser_Usage (ChatParser no_usage)" by (simp add: newChatStreamIn_def)
  moreover have "NewStreamParser OpenAIChat = ChatParser no_usage" by (simp add: NewStreamParser_def Anthropic_def OpenAIChat_def)
  ultimately show ?thesis using stop_usage [OF assms(1) _ assms(2,3)] by simp
qed

definition sample_usage_chunk :: string where
  "sample_usage_chunk = json_text (JObj [(''choices'', JArr []), (''usage'',
     JObj [(''prompt_tokens'', num64 9), (''completion_tokens'', num64 2)])])"

lemma chat_usage_is_metered_usage_witness:
  "\<exists>r u. EventMessageStop r u \<in> set (fst (decode_all chatStreamIn_ToIR newChatStreamIn [sample_usage_chunk, DONE]))
     \<and> u = parser_Usage (fold (\<lambda>(e, d) t. parser_Feed t e d) [([], sample_usage_chunk), ([], DONE)] (NewStreamParser OpenAIChat))"
proof -
  have k: "unmarshal dec_chatChunk sample_usage_chunk = Some \<lparr>ckID = [], ckModel = [], ckChoices = [],
      ckUsage = Some (JObj [(''prompt_tokens'', num64 9), (''completion_tokens'', num64 2)]), ckError = None\<rparr>"
    by (simp add: sample_usage_chunk_def dec_chatChunk_def json_dec)
  have t: "sample_usage_chunk \<noteq> []" "sample_usage_chunk \<noteq> DONE" "DONE \<noteq> []"
    by (simp_all add: sample_usage_chunk_def json_text.simps DONE_def)
  have "plain_chunk sample_usage_chunk"
    using k t by (simp add: plain_chunk_def raw_or_null_def dec_openAIUsage_def json_dec)
  then have plain: "list_all plain_event ([([], sample_usage_chunk)] @ [([], DONE)])" by (simp add: plain_event_def)
  let ?s = "\<lambda>c. chunk_usage (fst (chunk_start newChatStreamIn c)) c"
  have finish: "ciFinish (?s c) = None" "ciStarted (?s c)" "\<not> ciStopSent (?s c)" for c
    by (simp_all add: newChatStreamIn_def chunk_start_def chunk_usage_def Let_def split: option.split)
  have stop: "\<exists>r u. EventMessageStop r u \<in> set (snd (finishIfNeeded s))" if "ciStarted s" "\<not> ciStopSent s" for s
    using that by (auto simp: finishIfNeeded_def Let_def split_beta)
  have run: "no_stop (fst (decode_all chatStreamIn_ToIR newChatStreamIn (map snd [([] :: string, sample_usage_chunk)])))"
    using k t by (simp add: chatStreamIn_ToIR_def chatChunk_ToIR_def split_beta finish)
  let ?k = "\<lparr>ckID = [], ckModel = [], ckChoices = [],
      ckUsage = Some (JObj [(''prompt_tokens'', num64 9), (''completion_tokens'', num64 2)]), ckError = None\<rparr>"
  obtain r u where "EventMessageStop r u \<in> set (snd (finishIfNeeded (?s ?k)))" using stop [OF finish(2,3)] by blast
  then have "EventMessageStop r u
      \<in> set (fst (decode_all chatStreamIn_ToIR newChatStreamIn (map snd ([([] :: string, sample_usage_chunk)] @ [([], DONE)]))))"
    using k t finish by (simp add: chatStreamIn_ToIR_def chatChunk_ToIR_def split_beta)
  with chat_usage_is_metered_usage [OF plain run] show ?thesis by auto
qed

end
