(* ===== verification/StreamResponses.thy ===== *)
theory StreamResponses
  imports Responses
begin

text \<open>
  \<^verbatim>\<open>translate/stream_openai_responses.go\<close>: the events of a Responses stream to IR events, and IR
  events to Responses events. The encoder's output items are shared between \<open>open\<close> and
  \<open>srcToItem\<close> through pointers and are changed through either, so they live in a store
  (\<open>roItems\<close>) and a pointer is a position in it.
\<close>

section \<open>Decoder\<close>

datatype itemKind = ItemNone | ItemText | ItemThinking | ItemTool

record respItemState =
  itKind :: itemKind
  itCallID :: string
  itName :: string

record responsesStreamIn =
  siStarted :: bool
  siID :: string
  siModel :: string
  siItems :: "(int \<times> respItemState) list"
  siByID :: "(string \<times> int) list"
  siHasTool :: bool
  siStopped :: bool

definition newResponsesStreamIn :: responsesStreamIn where
  "newResponsesStreamIn = \<lparr>siStarted = False, siID = [], siModel = [], siItems = [], siByID = [],
     siHasTool = False, siStopped = False\<rparr>"

record respResponse =
  rvID :: string
  rvModel :: string
  rvStatus :: string
  rvIncomplete :: "string option"
  rvError :: "(string \<times> string) option"

record respEvent =
  evType :: string
  evOutputIndex :: int
  evItemID :: string
  evDelta :: string
  evItem :: "responsesItem option"
  evResponse :: "respResponse option"
  evError :: "(string \<times> string) option"

definition dec_respResponse :: "respResponse decoder" where
  "dec_respResponse j = do {
     fs \<leftarrow> dec_obj j;
     i \<leftarrow> get_str ''id'' fs;
     m \<leftarrow> get_str ''model'' fs;
     s \<leftarrow> get_str ''status'' fs;
     inc \<leftarrow> get_ptr dec_reason ''incomplete_details'' fs;
     e \<leftarrow> get_ptr dec_code_message ''error'' fs;
     Some \<lparr>rvID = i, rvModel = m, rvStatus = s, rvIncomplete = inc, rvError = e\<rparr> }"

definition dec_respEvent :: "respEvent decoder" where
  "dec_respEvent j = do {
     fs \<leftarrow> dec_obj j;
     t \<leftarrow> get_str ''type'' fs;
     oi \<leftarrow> get_int ''output_index'' fs;
     ii \<leftarrow> get_str ''item_id'' fs;
     d \<leftarrow> get_str ''delta'' fs;
     it \<leftarrow> get_ptr dec_responsesItem ''item'' fs;
     r \<leftarrow> get_ptr dec_respResponse ''response'' fs;
     e \<leftarrow> get_ptr dec_code_message ''error'' fs;
     Some \<lparr>evType = t, evOutputIndex = oi, evItemID = ii, evDelta = d, evItem = it, evResponse = r, evError = e\<rparr> }"

definition indexFor :: "responsesStreamIn \<Rightarrow> respEvent \<Rightarrow> int" where
  "indexFor s ev =
     (if evItemID ev \<noteq> [] then
        (case map_of (siByID s) (evItemID ev) of Some i \<Rightarrow> i | None \<Rightarrow> evOutputIndex ev)
      else evOutputIndex ev)"

text \<open>\<open>wrapResponseForUsage\<close>: the usage of the terminal event at the place ParseUsage expects it.\<close>

definition dec_terminal_usage :: "json option decoder" where
  "dec_terminal_usage j = do {
     fs \<leftarrow> dec_obj j;
     r \<leftarrow> get_val dec_obj [] ''response'' fs;
     Some (get_raw ''usage'' r) }"

definition wrapResponseForUsage :: "string \<Rightarrow> string" where
  "wrapResponseForUsage data =
     (case unmarshal dec_terminal_usage data of
        Some (Some u) \<Rightarrow> json_text (JObj [(''usage'', u)])
      | _ \<Rightarrow> ''{}'')"

definition responses_item_added ::
  "responsesStreamIn \<Rightarrow> respEvent \<Rightarrow> responsesItem \<Rightarrow> responsesStreamIn \<times> StreamEvent list" where
  "responses_item_added s ev it =
     (let i = evOutputIndex ev;
          kind = (if riType it = ''message'' then ItemText
                  else if riType it = ''function_call'' then ItemTool
                  else if riType it = ''reasoning'' then ItemThinking
                  else ItemNone);
          s1 = s\<lparr>siItems := AList.update i \<lparr>itKind = kind, itCallID = riCallID it, itName = riName it\<rparr> (siItems s),
                 siByID := (if riID it \<noteq> [] then AList.update (riID it) i (siByID s) else siByID s),
                 siHasTool := siHasTool s \<or> kind = ItemTool\<rparr>
      in (s1, if kind = ItemTool then [EventToolUseStart i (riCallID it) (riName it)] else []))"

definition fill_str :: "string \<Rightarrow> string \<Rightarrow> string" where
  "fill_str a b = (if a = [] then b else a)"

definition responses_item_done ::
  "responsesStreamIn \<Rightarrow> int \<Rightarrow> respItemState \<Rightarrow> responsesItem \<Rightarrow> responsesStreamIn \<times> StreamEvent list" where
  "responses_item_done s i st it =
     (case itKind st of
        ItemTool \<Rightarrow>
          (let st' = st\<lparr>itCallID := fill_str (itCallID st) (riCallID it), itName := fill_str (itName st) (riName it)\<rparr>
           in (s\<lparr>siItems := AList.update i st' (siItems s)\<rparr>, [EventToolUseStop i (itCallID st') (itName st')]))
      | ItemThinking \<Rightarrow>
          (s, [EventThinkingDone i (reasoningSummaryText (riSummary it)) [] (Some (enc_responsesItem it))])
      | _ \<Rightarrow> (s, []))"

definition responses_terminal ::
  "responsesStreamIn \<Rightarrow> respEvent \<Rightarrow> string \<Rightarrow> responsesStreamIn \<times> StreamEvent list" where
  "responses_terminal s ev data =
     (if siStopped s then (s, [])
      else (let s1 = s\<lparr>siStopped := True\<rparr>;
                usage = ParseUsage OpenAIResponses (wrapResponseForUsage data)
            in case evResponse ev of
                 None \<Rightarrow> (s1, [EventMessageStop (if siHasTool s then StopToolUse else StopEndTurn) usage])
               | Some r \<Rightarrow>
                   (case (if evType ev = ''response.failed'' then rvError r else None) of
                      Some (c, m) \<Rightarrow> (s1, [EventError (c @ '': '' @ m)])
                    | None \<Rightarrow> (s1, [EventMessageStop
                        (responsesStatusToIR (rvStatus r) (rvIncomplete r) (siHasTool s)) usage]))))"

definition responsesEvent_ToIR ::
  "responsesStreamIn \<Rightarrow> respEvent \<Rightarrow> string \<Rightarrow> responsesStreamIn \<times> StreamEvent list" where
  "responsesEvent_ToIR s ev data =
     (let t = evType ev; idx = indexFor s ev
      in if t = ''response.created'' then
           (if siStarted s then (s, [])
            else (let s1 = (case evResponse ev of
                              None \<Rightarrow> s\<lparr>siStarted := True\<rparr>
                            | Some r \<Rightarrow> s\<lparr>siStarted := True, siID := rvID r, siModel := rvModel r\<rparr>)
                  in (s1, [EventMessageStart (siID s1) (siModel s1) no_usage])))
         else if t = ''response.output_item.added'' then
           (case evItem ev of None \<Rightarrow> (s, []) | Some it \<Rightarrow> responses_item_added s ev it)
         else if t = ''response.output_text.delta'' then (s, [EventTextDelta idx (evDelta ev)])
         else if t = ''response.reasoning_summary_text.delta'' \<or> t = ''response.reasoning_text.delta'' then
           (s, [EventThinkingDelta idx (evDelta ev)])
         else if t = ''response.function_call_arguments.delta'' then
           (s, [case map_of (siItems s) idx of
                  None \<Rightarrow> EventToolInputDelta idx [] [] (evDelta ev)
                | Some st \<Rightarrow> EventToolInputDelta idx (itCallID st) (itName st) (evDelta ev)])
         else if t = ''response.output_item.done'' then
           (case (map_of (siItems s) idx, evItem ev) of
              (Some st, Some it) \<Rightarrow> responses_item_done s idx st it
            | _ \<Rightarrow> (s, []))
         else if is_terminal_response t then responses_terminal s ev data
         else if t = ''error'' then
           (s, [EventError (case evError ev of None \<Rightarrow> ''upstream error'' | Some (c, m) \<Rightarrow> c @ '': '' @ m)])
         else (s, []))"

definition responsesStreamIn_ToIR ::
  "responsesStreamIn \<Rightarrow> string \<Rightarrow> (responsesStreamIn \<times> StreamEvent list) result" where
  "responsesStreamIn_ToIR s data =
     (if data = [] \<or> data = DONE then Inr (s, [])
      else (case unmarshal dec_respEvent data of
              None \<Rightarrow> Inl (''openai responses stream: '' @ json_err)
            | Some ev \<Rightarrow> Inr (responsesEvent_ToIR s ev data)))"

section \<open>Encoder\<close>

record respOutItem =
  oiKind :: itemKind
  oiOutIdx :: int
  oiItemID :: string
  oiCallID :: string
  oiName :: string
  oiText :: string
  oiArgs :: string
  oiSrcIdx :: int

record responsesStreamOut =
  roID :: string
  roModel :: string
  roCreated :: int
  roSeq :: int
  roNextOut :: int
  roOpen :: "nat option"
  roSrcToItem :: "(int \<times> nat) list"
  roOutput :: "json list"
  roItems :: "respOutItem list"
  roDraws :: nat

definition newResponsesStreamOut :: responsesStreamOut where
  "newResponsesStreamOut = \<lparr>roID = [], roModel = [], roCreated = 0, roSeq = 0, roNextOut = 0,
     roOpen = None, roSrcToItem = [], roOutput = [], roItems = [], roDraws = 0\<rparr>"

definition rframe :: "responsesStreamOut \<Rightarrow> (string \<times> json) list \<Rightarrow> responsesStreamOut \<times> frame list" where
  "rframe s v = (s\<lparr>roSeq := roSeq s + 1\<rparr>, [Data (jmap (v @ [(''sequence_number'', num_int (roSeq s))]))])"

fun rframes :: "responsesStreamOut \<Rightarrow> (string \<times> json) list list \<Rightarrow> responsesStreamOut \<times> frame list" where
  "rframes s [] = (s, [])"
| "rframes s (v # vs) = (let (s1, o1) = rframe s v; (s2, o2) = rframes s1 vs in (s2, o1 @ o2))"

definition responseObj :: "responsesStreamOut \<Rightarrow> string \<Rightarrow> json \<Rightarrow> json \<Rightarrow> json \<Rightarrow> json" where
  "responseObj s status usage err incomplete =
     jmap [(''id'', JStr (roID s)), (''object'', JStr ''response''), (''created_at'', num_int (roCreated s)),
       (''status'', JStr status), (''model'', JStr (roModel s)), (''output'', JArr (roOutput s)),
       (''usage'', usage), (''error'', err), (''incomplete_details'', incomplete)]"

definition ev_json :: "string \<Rightarrow> (string \<times> json) list \<Rightarrow> (string \<times> json) list" where
  "ev_json t fs = (''type'', JStr t) # fs"

definition item_added :: "int \<Rightarrow> json \<Rightarrow> (string \<times> json) list" where
  "item_added i it = ev_json ''response.output_item.added'' [(''output_index'', num_int i), (''item'', it)]"

definition item_done :: "int \<Rightarrow> json \<Rightarrow> (string \<times> json) list" where
  "item_done i it = ev_json ''response.output_item.done'' [(''output_index'', num_int i), (''item'', it)]"

definition content_event :: "string \<Rightarrow> int \<Rightarrow> string \<Rightarrow> (string \<times> json) list \<Rightarrow> (string \<times> json) list" where
  "content_event t i itemID fs =
     ev_json t ([(''output_index'', num_int i), (''item_id'', JStr itemID)] @ fs)"

definition part_index :: "string \<times> json" where
  "part_index = (''content_index'', num_int 0)"

definition closeTool :: "responsesStreamOut \<Rightarrow> respOutItem \<Rightarrow> responsesStreamOut \<times> frame list" where
  "closeTool s it =
     (let args = (if oiArgs it = [] then ''{}'' else oiArgs it);
          item = out_call (oiItemID it) (oiCallID it) (oiName it) args
      in rframes (s\<lparr>roOutput := roOutput s @ [item]\<rparr>)
           [content_event ''response.function_call_arguments.done'' (oiOutIdx it) (oiItemID it)
              [(''arguments'', JStr args)],
            item_done (oiOutIdx it) item])"

definition rclose :: "responsesStreamOut \<Rightarrow> responsesStreamOut \<times> frame list" where
  "rclose s =
     (case roOpen s of
        None \<Rightarrow> (s, [])
      | Some p \<Rightarrow>
          (let it = roItems s ! p; s1 = s\<lparr>roOpen := None\<rparr>
           in case oiKind it of
                ItemText \<Rightarrow>
                  (let item = out_message (oiItemID it) [annotated_text (oiText it)]
                   in rframes (s1\<lparr>roOutput := roOutput s1 @ [item]\<rparr>)
                        [content_event ''response.output_text.done'' (oiOutIdx it) (oiItemID it)
                           [part_index, (''text'', JStr (oiText it))],
                         content_event ''response.content_part.done'' (oiOutIdx it) (oiItemID it)
                           [part_index, (''part'', annotated_text (oiText it))],
                         item_done (oiOutIdx it) item])
              | ItemThinking \<Rightarrow>
                  (let item = out_reasoning (oiItemID it) (oiText it)
                   in rframes (s1\<lparr>roOutput := roOutput s1 @ [item]\<rparr>) [item_done (oiOutIdx it) item])
              | ItemTool \<Rightarrow> closeTool (s1\<lparr>roSrcToItem := AList.delete (oiSrcIdx it) (roSrcToItem s1)\<rparr>) it
              | ItemNone \<Rightarrow> (s1, [])))"

text \<open>A new item at the end of the store becomes the open one.\<close>

definition alloc_item :: "responsesStreamOut \<Rightarrow> respOutItem \<Rightarrow> responsesStreamOut" where
  "alloc_item s it = s\<lparr>roItems := roItems s @ [it], roOpen := Some (length (roItems s)),
     roNextOut := roNextOut s + 1\<rparr>"

definition open_is :: "responsesStreamOut \<Rightarrow> itemKind \<Rightarrow> bool" where
  "open_is s k = (case roOpen s of None \<Rightarrow> False | Some p \<Rightarrow> oiKind (roItems s ! p) = k)"

definition open_text :: "env \<Rightarrow> responsesStreamOut \<Rightarrow> responsesStreamOut \<times> frame list" where
  "open_text e s =
     (if open_is s ItemText then (s, [])
      else (let (s1, o1) = rclose s; iid = ''msg_'' @ randomID e (roDraws s1); i = roNextOut s1;
                s2 = alloc_item (s1\<lparr>roDraws := Suc (roDraws s1)\<rparr>)
                  \<lparr>oiKind = ItemText, oiOutIdx = i, oiItemID = iid, oiCallID = [], oiName = [], oiText = [],
                   oiArgs = [], oiSrcIdx = 0\<rparr>;
                (s3, o3) = rframes s2
                  [item_added i (jmap [(''type'', JStr ''message''), (''id'', JStr iid),
                     (''status'', JStr ''in_progress''), (''role'', JStr ''assistant''), (''content'', JArr [])]),
                   content_event ''response.content_part.added'' i iid [part_index, (''part'', annotated_text [])]]
            in (s3, o1 @ o3)))"

definition open_thinking :: "env \<Rightarrow> responsesStreamOut \<Rightarrow> responsesStreamOut \<times> frame list" where
  "open_thinking e s =
     (if open_is s ItemThinking then (s, [])
      else (let (s1, o1) = rclose s; iid = ''rs_'' @ randomID e (roDraws s1); i = roNextOut s1;
                s2 = alloc_item (s1\<lparr>roDraws := Suc (roDraws s1)\<rparr>)
                  \<lparr>oiKind = ItemThinking, oiOutIdx = i, oiItemID = iid, oiCallID = [], oiName = [], oiText = [],
                   oiArgs = [], oiSrcIdx = 0\<rparr>;
                (s3, o3) = rframes s2
                  [item_added i (jmap [(''type'', JStr ''reasoning''), (''id'', JStr iid), (''summary'', JArr [])])]
            in (s3, o1 @ o3)))"

definition add_text :: "responsesStreamOut \<Rightarrow> string \<Rightarrow> responsesStreamOut" where
  "add_text s t = (case roOpen s of
     None \<Rightarrow> s
   | Some p \<Rightarrow> s\<lparr>roItems := (roItems s)[p := (roItems s ! p)\<lparr>oiText := oiText (roItems s ! p) @ t\<rparr>]\<rparr>)"

definition rtool_start :: "env \<Rightarrow> responsesStreamOut \<Rightarrow> int \<Rightarrow> string \<Rightarrow> string
    \<Rightarrow> responsesStreamOut \<times> frame list" where
  "rtool_start e s src callID name =
     (let (s1, o1) = rclose s; (cid, k) = id_or e ''call_'' (roDraws s1) callID;
          iid = ''fc_'' @ randomID e k; i = roNextOut s1; p = length (roItems s1);
          s2 = alloc_item (s1\<lparr>roDraws := Suc k\<rparr>)
            \<lparr>oiKind = ItemTool, oiOutIdx = i, oiItemID = iid, oiCallID = cid, oiName = name, oiText = [],
             oiArgs = [], oiSrcIdx = src\<rparr>;
          (s3, o3) = rframes (s2\<lparr>roSrcToItem := AList.update src p (roSrcToItem s2)\<rparr>)
            [item_added i (jmap [(''type'', JStr ''function_call''), (''id'', JStr iid),
               (''status'', JStr ''in_progress''), (''call_id'', JStr cid), (''name'', JStr name),
               (''arguments'', JStr [])])]
      in (s3, o1 @ o3))"

definition tool_args :: "responsesStreamOut \<Rightarrow> nat \<Rightarrow> string \<Rightarrow> responsesStreamOut \<times> frame list" where
  "tool_args s p d =
     (if d = [] then (s, [])
      else (let it = roItems s ! p
            in rframes (s\<lparr>roItems := (roItems s)[p := it\<lparr>oiArgs := oiArgs it @ d\<rparr>]\<rparr>)
                 [content_event ''response.function_call_arguments.delta'' (oiOutIdx it) (oiItemID it)
                    [(''delta'', JStr d)]]))"

definition open_item :: "responsesStreamOut \<Rightarrow> respOutItem" where
  "open_item s = roItems s ! the (roOpen s)"

fun responsesStreamOut_FromIR :: "env \<Rightarrow> responsesStreamOut \<Rightarrow> StreamEvent
    \<Rightarrow> responsesStreamOut \<times> frame list" where
  "responsesStreamOut_FromIR e s (EventMessageStart i m u) =
     (let (i', k) = id_or e ''resp_'' (roDraws s) i;
          s1 = s\<lparr>roID := i', roModel := m, roCreated := eNow e, roDraws := k\<rparr>;
          r = responseObj s1 ''in_progress'' JNull JNull JNull
      in rframes s1 [ev_json ''response.created'' [(''response'', r)],
                     ev_json ''response.in_progress'' [(''response'', r)]])"
| "responsesStreamOut_FromIR e s (EventTextDelta i t) =
     (let (s1, o1) = open_text e s; s2 = add_text s1 t; it = open_item s2;
          (s3, o3) = rframes s2 [content_event ''response.output_text.delta'' (oiOutIdx it) (oiItemID it)
             [part_index, (''delta'', JStr t)]]
      in (s3, o1 @ o3))"
| "responsesStreamOut_FromIR e s (EventThinkingDelta i t) =
     (let (s1, o1) = open_thinking e s; s2 = add_text s1 t; it = open_item s2;
          (s3, o3) = rframes s2 [content_event ''response.reasoning_summary_text.delta'' (oiOutIdx it) (oiItemID it)
             [(''summary_index'', num_int 0), (''delta'', JStr t)]]
      in (s3, o1 @ o3))"
| "responsesStreamOut_FromIR e s (EventThinkingDone i t sig raw) =
     (if raw \<noteq> None \<and> probe_type raw = Some ''reasoning'' then
        (let (s1, o1) = rclose s; idx = roNextOut s1; item = raw_or_null raw;
             (s2, o2) = rframes (s1\<lparr>roNextOut := idx + 1\<rparr>) [item_added idx item, item_done idx item]
         in (s2\<lparr>roOutput := roOutput s2 @ [item]\<rparr>, o1 @ o2))
      else if open_is s ItemThinking then rclose s
      else (s, []))"
| "responsesStreamOut_FromIR e s (EventToolUseStart i c n) = rtool_start e s i c n"
| "responsesStreamOut_FromIR e s (EventToolInputDelta i c n d) =
     (case map_of (roSrcToItem s) i of
        Some p \<Rightarrow> tool_args s p d
      | None \<Rightarrow>
          (let (s1, o1) = rtool_start e s i c n;
               (s2, o2) = (case map_of (roSrcToItem s1) i of None \<Rightarrow> (s1, []) | Some p \<Rightarrow> tool_args s1 p d)
           in (s2, o1 @ o2)))"
| "responsesStreamOut_FromIR e s (EventToolUseStop i c n) =
     (case map_of (roSrcToItem s) i of
        None \<Rightarrow> (s, [])
      | Some p \<Rightarrow> closeTool (s\<lparr>roSrcToItem := AList.delete i (roSrcToItem s),
                              roOpen := (if roOpen s = Some p then None else roOpen s)\<rparr>) (roItems s ! p))"
| "responsesStreamOut_FromIR e s (EventMessageStop r u) =
     (let (s1, o1) = rclose s; (status, incomplete) = responsesStatusFromIR r;
          typ = (if status = ''incomplete'' then ''response.incomplete'' else ''response.completed'');
          (s2, o2) = rframes s1 [ev_json typ [(''response'',
             responseObj s1 status (responsesUsageFromIR u) JNull incomplete)]]
      in (s2, o1 @ o2))"
| "responsesStreamOut_FromIR e s (EventError m) =
     (let (s1, o1) = rclose s;
          (s2, o2) = rframes s1 [ev_json ''response.failed'' [(''response'',
             responseObj s1 ''failed'' JNull
               (jmap [(''code'', JStr ''server_error''), (''message'', JStr m)]) JNull)]]
      in (s2, o1 @ o2))"

section \<open>What a Responses client sees\<close>

text \<open>
  The client's bookkeeping: the next sequence number, the output index of the item in progress,
  the next output index and the items that are done. Items are added with consecutive indices, one at a
  time; every other item event names the item in progress; and the final response lists exactly
  the items that were done.
\<close>

record rclient =
  kSeq :: int
  kOpen :: "int option"
  kNext :: int
  kDone :: "json list"

definition response_output :: "json option \<Rightarrow> json option" where
  "response_output r = (case r of Some (JObj fs) \<Rightarrow> map_of fs ''output'' | _ \<Rightarrow> None)"

definition is_final :: "json option \<Rightarrow> bool" where
  "is_final t \<longleftrightarrow> t = Some (JStr ''response.completed'') \<or> t = Some (JStr ''response.incomplete'')
     \<or> t = Some (JStr ''response.failed'')"

definition is_opening :: "json option \<Rightarrow> bool" where
  "is_opening t \<longleftrightarrow> t = Some (JStr ''response.created'') \<or> t = Some (JStr ''response.in_progress'')"

definition client_event :: "rclient \<Rightarrow> (string \<Rightarrow> json option) \<Rightarrow> rclient option" where
  "client_event c f =
     (let t = f ''type''; oi = f ''output_index''; c1 = c\<lparr>kSeq := kSeq c + 1\<rparr>
      in if f ''sequence_number'' \<noteq> Some (num_int (kSeq c)) then None
         else if t = Some (JStr ''response.output_item.added'') then
           (if kOpen c = None \<and> oi = Some (num_int (kNext c))
            then Some (c1\<lparr>kOpen := Some (kNext c), kNext := kNext c + 1\<rparr>) else None)
         else if t = Some (JStr ''response.output_item.done'') then
           (case (kOpen c, f ''item'') of
              (Some i, Some it) \<Rightarrow>
                if oi = Some (num_int i) then Some (c1\<lparr>kOpen := None, kDone := kDone c @ [it]\<rparr>) else None
            | _ \<Rightarrow> None)
         else if is_final t then
           (if kOpen c = None \<and> response_output (f ''response'') = Some (JArr (kDone c)) then Some c1 else None)
         else if is_opening t then Some c1
         else (case kOpen c of None \<Rightarrow> None | Some i \<Rightarrow> if oi = Some (num_int i) then Some c1 else None))"

fun responses_client :: "rclient \<Rightarrow> frame \<Rightarrow> rclient option" where
  "responses_client c (Data (JObj fs)) = client_event c (map_of fs)"
| "responses_client c _ = None"

lemma responses_client_jmap:
  "distinct (map fst v) \<Longrightarrow> responses_client c (Data (jmap v)) = client_event c (map_of v)"
  by (simp add: jmap_def)

text \<open>One frame of the encoder, read by a client that is in step with it.\<close>

lemma client_rframe:
  assumes "kSeq c = roSeq s" and "distinct (map fst v)" and "''sequence_number'' \<notin> fst ` set v"
  shows "client_run responses_client c (snd (rframe s v)) = client_event c ((map_of v)(''sequence_number'' \<mapsto> num_int (roSeq s)))"
proof -
  have "map_of (v @ [(''sequence_number'', num_int (roSeq s))]) = (map_of v)(''sequence_number'' \<mapsto> num_int (roSeq s))"
    using assms(3) by (auto simp: fun_eq_iff map_add_def split: option.split)
      (metis map_of_eq_None_iff option.distinct(1))
  moreover have "distinct (map fst (v @ [(''sequence_number'', num_int (roSeq s))]))"
    using assms(2,3) by auto
  ultimately show ?thesis
    by (simp add: rframe_def responses_client_jmap del: map_append)
qed

lemma rframe_state [simp]: "fst (rframe s v) = s\<lparr>roSeq := roSeq s + 1\<rparr>"
  by (simp add: rframe_def)

definition ev_step :: "rclient \<Rightarrow> (string \<times> json) list \<Rightarrow> rclient option" where
  "ev_step c v = client_event c ((map_of v)(''sequence_number'' \<mapsto> num_int (kSeq c)))"

fun ev_steps :: "rclient \<Rightarrow> (string \<times> json) list list \<Rightarrow> rclient option" where
  "ev_steps c [] = Some c"
| "ev_steps c (v # vs) = Option.bind (ev_step c v) (\<lambda>c1. ev_steps c1 vs)"

definition ev_wf :: "(string \<times> json) list \<Rightarrow> bool" where
  "ev_wf v \<longleftrightarrow> distinct (map fst v) \<and> ''sequence_number'' \<notin> fst ` set v"

lemma ev_step_seq: "ev_step c v = Some c1 \<Longrightarrow> kSeq c1 = kSeq c + 1"
  by (auto simp: ev_step_def client_event_def Let_def split: if_splits option.splits)

lemma client_rframes:
  "\<forall>v \<in> set vs. ev_wf v \<Longrightarrow> kSeq c = roSeq s \<Longrightarrow>
   client_run responses_client c (snd (rframes s vs)) = ev_steps c vs"
proof (induction vs arbitrary: c s)
  case (Cons v vs)
  have 1: "client_run responses_client c (snd (rframe s v)) = ev_step c v"
    using Cons.prems client_rframe [of c s v] by (simp add: ev_wf_def ev_step_def)
  have 2: "client_run responses_client c1 (snd (rframes (s\<lparr>roSeq := roSeq s + 1\<rparr>) vs)) = ev_steps c1 vs"
    if "ev_step c v = Some c1" for c1
    using Cons.prems ev_step_seq [OF that] by (intro Cons.IH) auto
  have "snd (rframes s (v # vs)) = snd (rframe s v) @ snd (rframes (s\<lparr>roSeq := roSeq s + 1\<rparr>) vs)"
    by (simp add: Let_def split_beta)
  with 1 2 show ?case by (cases "ev_step c v") (simp_all del: rframes.simps)
qed simp

lemma rframes_state [simp]: "fst (rframes s vs) = s\<lparr>roSeq := roSeq s + int (length vs)\<rparr>"
  by (induction vs arbitrary: s) (simp_all add: Let_def split_beta algebra_simps)

declare rframes.simps [simp del]

lemma ev_wf_simps [simp]:
  "ev_wf (item_added i it)" "ev_wf (item_done i it)" "ev_wf (ev_json t [(''response'', r)])"
  "ev_wf (content_event t i iid [part_index, (''delta'', x)])"
  "ev_wf (content_event t i iid [part_index, (''text'', x)])"
  "ev_wf (content_event t i iid [part_index, (''part'', x)])"
  "ev_wf (content_event t i iid [(''arguments'', x)])" "ev_wf (content_event t i iid [(''delta'', x)])"
  "ev_wf (content_event t i iid [(''summary_index'', y), (''delta'', x)])"
  by (simp_all add: ev_wf_def item_added_def item_done_def ev_json_def content_event_def part_index_def)

lemma ev_step_simps [simp]:
  "kOpen c = None \<Longrightarrow> kNext c = i \<Longrightarrow>
   ev_step c (item_added i it) = Some (c\<lparr>kSeq := kSeq c + 1, kOpen := Some i, kNext := i + 1\<rparr>)"
  "kOpen c = Some i \<Longrightarrow>
   ev_step c (item_done i it) = Some (c\<lparr>kSeq := kSeq c + 1, kOpen := None, kDone := kDone c @ [it]\<rparr>)"
  by (simp_all add: ev_step_def client_event_def item_added_def item_done_def ev_json_def is_final_def
      is_opening_def)

definition mid_event :: "string \<Rightarrow> bool" where
  "mid_event t \<longleftrightarrow> t \<notin> {''response.output_item.added'', ''response.output_item.done'',
     ''response.completed'', ''response.incomplete'', ''response.failed'', ''response.created'',
     ''response.in_progress''}"

lemma ev_step_content [simp]:
  "kOpen c = Some i \<Longrightarrow> mid_event t \<Longrightarrow>
   ev_step c (content_event t i iid fs) = Some (c\<lparr>kSeq := kSeq c + 1\<rparr>)"
  by (simp add: ev_step_def client_event_def content_event_def ev_json_def mid_event_def is_final_def
      is_opening_def Let_def)

lemma mid_events [simp]:
  "mid_event ''response.output_text.done''" "mid_event ''response.content_part.done''"
  "mid_event ''response.content_part.added''" "mid_event ''response.output_text.delta''"
  "mid_event ''response.reasoning_summary_text.delta''" "mid_event ''response.function_call_arguments.delta''"
  "mid_event ''response.function_call_arguments.done''"
  by (simp_all add: mid_event_def)

lemma ev_step_opening [simp]:
  "ev_step c (ev_json ''response.created'' [(''response'', r)]) = Some (c\<lparr>kSeq := kSeq c + 1\<rparr>)"
  "ev_step c (ev_json ''response.in_progress'' [(''response'', r)]) = Some (c\<lparr>kSeq := kSeq c + 1\<rparr>)"
  by (simp_all add: ev_step_def client_event_def ev_json_def is_final_def is_opening_def)

lemma ev_step_final [simp]:
  "kOpen c = None \<Longrightarrow> kDone c = roOutput s \<Longrightarrow>
   t \<in> {''response.completed'', ''response.incomplete'', ''response.failed''} \<Longrightarrow>
   ev_step c (ev_json t [(''response'', responseObj s st u er inc)]) = Some (c\<lparr>kSeq := kSeq c + 1\<rparr>)"
  by (auto simp: ev_step_def client_event_def ev_json_def is_final_def responseObj_def response_output_def
      jmap_def)

section \<open>The encoder and its client stay in step\<close>

definition item_rel :: "responsesStreamOut \<Rightarrow> int option \<Rightarrow> bool" where
  "item_rel s op \<longleftrightarrow>
     (case roOpen s of
        None \<Rightarrow> op = None \<and> roSrcToItem s = []
      | Some p \<Rightarrow> p < length (roItems s) \<and> op = Some (oiOutIdx (roItems s ! p))
          \<and> oiKind (roItems s ! p) \<noteq> ItemNone
          \<and> roSrcToItem s = (if oiKind (roItems s ! p) = ItemTool then [(oiSrcIdx (roItems s ! p), p)] else []))"

definition rrel :: "responsesStreamOut \<Rightarrow> rclient \<Rightarrow> bool" where
  "rrel s c \<longleftrightarrow> kSeq c = roSeq s \<and> kNext c = roNextOut s \<and> kDone c = roOutput s \<and> item_rel s (kOpen c)"

lemma closeTool_client:
  assumes "kSeq c = roSeq s" and "kOpen c = Some (oiOutIdx it)" and "kDone c = roOutput s"
    and "kNext c = roNextOut s" and "roOpen s = None" and "roSrcToItem s = []"
  shows "\<exists>c1. client_run responses_client c (snd (closeTool s it)) = Some c1 \<and> rrel (fst (closeTool s it)) c1
    \<and> kOpen c1 = None \<and> roOpen (fst (closeTool s it)) = None"
  using assms by (simp add: closeTool_def Let_def client_rframes rrel_def item_rel_def)

lemma rclose_client:
  assumes "rrel s c"
  shows "\<exists>c1. client_run responses_client c (snd (rclose s)) = Some c1 \<and> rrel (fst (rclose s)) c1
    \<and> kOpen c1 = None \<and> roOpen (fst (rclose s)) = None"
proof (cases "roOpen s")
  case None
  with assms show ?thesis by (auto simp: rclose_def rrel_def item_rel_def)
next
  case (Some p)
  note op = this
  show ?thesis
  proof (cases "oiKind (roItems s ! p)")
    case ItemTool
    let ?it = "roItems s ! p"
    have "rclose s = closeTool (s\<lparr>roOpen := None, roSrcToItem := AList.delete (oiSrcIdx ?it) (roSrcToItem s)\<rparr>) ?it"
      using op ItemTool by (simp add: rclose_def Let_def)
    moreover have "AList.delete (oiSrcIdx ?it) (roSrcToItem s) = []"
      using assms op ItemTool by (simp add: rrel_def item_rel_def)
    ultimately show ?thesis
      using closeTool_client [of c "s\<lparr>roOpen := None, roSrcToItem := []\<rparr>" ?it] assms op
      by (simp add: rrel_def item_rel_def)
  qed (use assms op in \<open>simp_all add: rclose_def rrel_def item_rel_def Let_def client_rframes\<close>)
qed

lemma rcloseE:
  assumes "rrel s c"
  obtains s1 o1 c1 where "rclose s = (s1, o1)" and "client_run responses_client c o1 = Some c1"
    and "rrel s1 c1" and "kOpen c1 = None" and "roOpen s1 = None" and "roSrcToItem s1 = []"
  using rclose_client [OF assms]
  by (cases "rclose s") (auto simp: rrel_def item_rel_def intro: that)

definition is_mid :: "int \<Rightarrow> (string \<times> json) list \<Rightarrow> bool" where
  "is_mid i v \<longleftrightarrow> ev_wf v \<and> (\<exists>t iid fs. mid_event t \<and> v = content_event t i iid fs)"

lemma is_midI [intro]: "mid_event t \<Longrightarrow> ev_wf (content_event t i iid fs) \<Longrightarrow> is_mid i (content_event t i iid fs)"
  by (auto simp: is_mid_def)

lemma ev_step_mid: "is_mid i v \<Longrightarrow> kOpen c = Some i \<Longrightarrow> ev_step c v = Some (c\<lparr>kSeq := kSeq c + 1\<rparr>)"
  by (auto simp: is_mid_def)

lemma ev_steps_mid:
  "\<forall>v \<in> set vs. is_mid i v \<Longrightarrow> kOpen c = Some i \<Longrightarrow>
   ev_steps c vs = Some (c\<lparr>kSeq := kSeq c + int (length vs)\<rparr>)"
  by (induction vs arbitrary: c) (auto simp: ev_step_mid algebra_simps)

lemma open_item_client:
  assumes "rrel s1 c1" and "kOpen c1 = None"
    and "oiOutIdx it = roNextOut s1" and "oiKind it \<noteq> ItemNone"
    and "src = (if oiKind it = ItemTool then [(oiSrcIdx it, length (roItems s1))] else [])"
    and "vs = item_added (roNextOut s1) j # mids"
    and "\<forall>v \<in> set mids. is_mid (roNextOut s1) v"
    and "s2 = (alloc_item (s1\<lparr>roDraws := k\<rparr>) it)\<lparr>roSrcToItem := src\<rparr>"
  shows "\<exists>c2. client_run responses_client c1 (snd (rframes s2 vs)) = Some c2 \<and> rrel (fst (rframes s2 vs)) c2
    \<and> kOpen c2 = Some (roNextOut s1)"
proof -
  have wf: "\<forall>v \<in> set vs. ev_wf v" using assms(6,7) by (auto simp: is_mid_def)
  have "kSeq c1 = roSeq s2" using assms(1,8) by (simp add: rrel_def alloc_item_def)
  from client_rframes [OF wf this] show ?thesis
    using assms(1-5,8) ev_steps_mid [OF assms(7)] unfolding assms(6)
    by (simp add: rrel_def item_rel_def alloc_item_def)
qed

lemma open_text_client:
  assumes "rrel s c"
  shows "\<exists>c1 p. client_run responses_client c (snd (open_text e s)) = Some c1 \<and> rrel (fst (open_text e s)) c1
    \<and> roOpen (fst (open_text e s)) = Some p \<and> oiKind (roItems (fst (open_text e s)) ! p) \<noteq> ItemTool"
proof (cases "open_is s ItemText")
  case True
  with assms show ?thesis by (auto simp: open_text_def open_is_def split: option.splits)
next
  case False
  obtain s1 o1 c1 where s1: "rclose s = (s1, o1)" "client_run responses_client c o1 = Some c1"
      "rrel s1 c1" "kOpen c1 = None" "roOpen s1 = None" "roSrcToItem s1 = []"
    using assms by (rule rcloseE)
  let ?iid = "''msg_'' @ randomID e (roDraws s1)"
  let ?it = "\<lparr>oiKind = ItemText, oiOutIdx = roNextOut s1, oiItemID = ?iid, oiCallID = [], oiName = [],
    oiText = [], oiArgs = [], oiSrcIdx = 0\<rparr>"
  let ?m = "content_event ''response.content_part.added'' (roNextOut s1) ?iid [part_index, (''part'', annotated_text [])]"
  let ?vs = "[item_added (roNextOut s1) (jmap [(''type'', JStr ''message''), (''id'', JStr ?iid),
      (''status'', JStr ''in_progress''), (''role'', JStr ''assistant''), (''content'', JArr [])]), ?m]"
  let ?s2 = "alloc_item (s1\<lparr>roDraws := Suc (roDraws s1)\<rparr>) ?it"
  have eq: "open_text e s = (fst (rframes ?s2 ?vs), o1 @ snd (rframes ?s2 ?vs))"
    using False s1(1) by (simp add: open_text_def Let_def split_beta)
  have s2: "?s2 = (alloc_item (s1\<lparr>roDraws := Suc (roDraws s1)\<rparr>) ?it)\<lparr>roSrcToItem := []\<rparr>"
    using s1(6) by (simp add: alloc_item_def)
  have "is_mid (roNextOut s1) ?m" by (rule is_midI) simp_all
  then have mid: "\<forall>v \<in> set [?m]. is_mid (roNextOut s1) v" by simp
  have "\<exists>c2. client_run responses_client c1 (snd (rframes ?s2 ?vs)) = Some c2
      \<and> rrel (fst (rframes ?s2 ?vs)) c2 \<and> kOpen c2 = Some (roNextOut s1)"
    by (rule open_item_client [OF s1(3,4) _ _ _ refl mid s2]) simp_all
  with s1(2) show ?thesis unfolding eq by (auto simp: alloc_item_def)
qed

lemma open_thinking_client:
  assumes "rrel s c"
  shows "\<exists>c1 p. client_run responses_client c (snd (open_thinking e s)) = Some c1 \<and> rrel (fst (open_thinking e s)) c1
    \<and> roOpen (fst (open_thinking e s)) = Some p \<and> oiKind (roItems (fst (open_thinking e s)) ! p) \<noteq> ItemTool"
proof (cases "open_is s ItemThinking")
  case True
  with assms show ?thesis by (auto simp: open_thinking_def open_is_def split: option.splits)
next
  case False
  obtain s1 o1 c1 where s1: "rclose s = (s1, o1)" "client_run responses_client c o1 = Some c1"
      "rrel s1 c1" "kOpen c1 = None" "roOpen s1 = None" "roSrcToItem s1 = []"
    using assms by (rule rcloseE)
  let ?iid = "''rs_'' @ randomID e (roDraws s1)"
  let ?it = "\<lparr>oiKind = ItemThinking, oiOutIdx = roNextOut s1, oiItemID = ?iid, oiCallID = [], oiName = [],
    oiText = [], oiArgs = [], oiSrcIdx = 0\<rparr>"
  let ?vs = "[item_added (roNextOut s1) (jmap [(''type'', JStr ''reasoning''), (''id'', JStr ?iid),
      (''summary'', JArr [])])]"
  let ?s2 = "alloc_item (s1\<lparr>roDraws := Suc (roDraws s1)\<rparr>) ?it"
  have eq: "open_thinking e s = (fst (rframes ?s2 ?vs), o1 @ snd (rframes ?s2 ?vs))"
    using False s1(1) by (simp add: open_thinking_def Let_def split_beta)
  have s2: "?s2 = (alloc_item (s1\<lparr>roDraws := Suc (roDraws s1)\<rparr>) ?it)\<lparr>roSrcToItem := []\<rparr>"
    using s1(6) by (simp add: alloc_item_def)
  have "\<exists>c2. client_run responses_client c1 (snd (rframes ?s2 ?vs)) = Some c2
      \<and> rrel (fst (rframes ?s2 ?vs)) c2 \<and> kOpen c2 = Some (roNextOut s1)"
    by (rule open_item_client [OF s1(3,4) _ _ _ refl _ s2]) simp_all
  with s1(2) show ?thesis unfolding eq by (auto simp: alloc_item_def)
qed

lemma rtool_start_client:
  assumes "rrel s c"
  shows "\<exists>c1 p. client_run responses_client c (snd (rtool_start e s i cid n)) = Some c1
    \<and> rrel (fst (rtool_start e s i cid n)) c1
    \<and> roSrcToItem (fst (rtool_start e s i cid n)) = [(i, p)] \<and> roOpen (fst (rtool_start e s i cid n)) = Some p"
proof -
  obtain s1 o1 c1 where s1: "rclose s = (s1, o1)" "client_run responses_client c o1 = Some c1"
      "rrel s1 c1" "kOpen c1 = None" "roOpen s1 = None" "roSrcToItem s1 = []"
    using assms by (rule rcloseE)
  obtain x k where x: "id_or e ''call_'' (roDraws s1) cid = (x, k)" by fastforce
  let ?iid = "''fc_'' @ randomID e k"
  let ?it = "\<lparr>oiKind = ItemTool, oiOutIdx = roNextOut s1, oiItemID = ?iid, oiCallID = x, oiName = n,
    oiText = [], oiArgs = [], oiSrcIdx = i\<rparr>"
  let ?vs = "[item_added (roNextOut s1) (jmap [(''type'', JStr ''function_call''), (''id'', JStr ?iid),
      (''status'', JStr ''in_progress''), (''call_id'', JStr x), (''name'', JStr n), (''arguments'', JStr [])])]"
  let ?s2 = "(alloc_item (s1\<lparr>roDraws := Suc k\<rparr>) ?it)\<lparr>roSrcToItem := [(i, length (roItems s1))]\<rparr>"
  have eq: "rtool_start e s i cid n = (fst (rframes ?s2 ?vs), o1 @ snd (rframes ?s2 ?vs))"
    using s1(1,6) x by (simp add: rtool_start_def Let_def split_beta alloc_item_def)
  have "\<exists>c2. client_run responses_client c1 (snd (rframes ?s2 ?vs)) = Some c2
      \<and> rrel (fst (rframes ?s2 ?vs)) c2 \<and> kOpen c2 = Some (roNextOut s1)"
    by (rule open_item_client [OF s1(3,4) _ _ _ refl _ refl]) simp_all
  with s1(2) show ?thesis unfolding eq by (auto simp: alloc_item_def)
qed

lemma mid_frame_client:
  assumes "rrel s c" and "roOpen s = Some p" and "mid_event t" and "i = oiOutIdx (roItems s ! p)"
    and "ev_wf (content_event t i iid fs)"
  shows "\<exists>c1. client_run responses_client c (snd (rframes s [content_event t i iid fs])) = Some c1
    \<and> rrel (fst (rframes s [content_event t i iid fs])) c1"
proof -
  have "kSeq c = roSeq s" "kOpen c = Some i"
    using assms(1,2,4) by (auto simp: rrel_def item_rel_def)
  moreover have "ev_steps c [content_event t i iid fs] = Some (c\<lparr>kSeq := kSeq c + 1\<rparr>)"
    using assms(3) calculation(2) by simp
  ultimately show ?thesis
    using assms(1,2,5) by (simp add: client_rframes rrel_def item_rel_def)
qed

lemma add_text_rel:
  "rrel s c \<Longrightarrow> roOpen s = Some p \<Longrightarrow> rrel (add_text s t) c \<and> roOpen (add_text s t) = Some p"
  by (auto simp: rrel_def item_rel_def add_text_def)

lemma text_event_client:
  assumes "rrel s c" and "roOpen s = Some p" and "mid_event t"
    and "ev_wf (content_event t (oiOutIdx (open_item (add_text s x))) (oiItemID (open_item (add_text s x))) fs)"
  shows "\<exists>c1. client_run responses_client c (snd (rframes (add_text s x)
      [content_event t (oiOutIdx (open_item (add_text s x))) (oiItemID (open_item (add_text s x))) fs])) = Some c1
    \<and> rrel (fst (rframes (add_text s x)
      [content_event t (oiOutIdx (open_item (add_text s x))) (oiItemID (open_item (add_text s x))) fs])) c1"
  using add_text_rel [OF assms(1,2), of x] assms(3,4)
  by (intro mid_frame_client) (auto simp: open_item_def)

lemma src_is_open:
  "rrel s c \<Longrightarrow> map_of (roSrcToItem s) i = Some p \<Longrightarrow>
   roOpen s = Some p \<and> roSrcToItem s = [(i, p)] \<and> p < length (roItems s) \<and> oiSrcIdx (roItems s ! p) = i
   \<and> oiKind (roItems s ! p) = ItemTool \<and> kOpen c = Some (oiOutIdx (roItems s ! p))"
  by (auto simp: rrel_def item_rel_def split: option.splits if_splits)

lemma tool_args_client:
  assumes "rrel s c" and "map_of (roSrcToItem s) i = Some p"
  shows "\<exists>c1. client_run responses_client c (snd (tool_args s p d)) = Some c1 \<and> rrel (fst (tool_args s p d)) c1"
proof (cases "d = []")
  case False
  let ?it = "roItems s ! p"
  let ?s = "s\<lparr>roItems := (roItems s)[p := ?it\<lparr>oiArgs := oiArgs ?it @ d\<rparr>]\<rparr>"
  note op = src_is_open [OF assms]
  let ?v = "content_event ''response.function_call_arguments.delta'' (oiOutIdx ?it) (oiItemID ?it)
    [(''delta'', JStr d)]"
  have rel: "rrel ?s c" using assms(1) op by (auto simp: rrel_def item_rel_def)
  have "\<exists>c1. client_run responses_client c (snd (rframes ?s [?v])) = Some c1 \<and> rrel (fst (rframes ?s [?v])) c1"
    by (rule mid_frame_client [OF rel, where p = p]) (use op in simp_all)
  then show ?thesis using False by (simp add: tool_args_def Let_def)
qed (use assms in \<open>simp add: tool_args_def\<close>)

lemma responses_simulation:
  assumes "rrel s c"
  shows "\<exists>c'. client_run responses_client c (snd (responsesStreamOut_FromIR e s ev)) = Some c'
    \<and> rrel (fst (responsesStreamOut_FromIR e s ev)) c'"
proof -
  obtain s1 o1 c1 where s1: "rclose s = (s1, o1)" "client_run responses_client c o1 = Some c1"
      "rrel s1 c1" "kOpen c1 = None" "roOpen s1 = None" "roSrcToItem s1 = []"
    using assms by (rule rcloseE)
  show ?thesis
  proof (cases ev)
    case (EventMessageStart i m u)
    obtain i' k where "id_or e ''resp_'' (roDraws s) i = (i', k)" by fastforce
    with EventMessageStart assms show ?thesis
      by (cases "roOpen s") (simp_all add: Let_def client_rframes rrel_def item_rel_def)
  next
    case (EventTextDelta i t)
    obtain c2 p where c2: "client_run responses_client c (snd (open_text e s)) = Some c2"
        "rrel (fst (open_text e s)) c2" "roOpen (fst (open_text e s)) = Some p"
      using open_text_client [OF assms] by blast
    from text_event_client [OF c2(2,3)] c2(1) EventTextDelta show ?thesis
      by (simp add: Let_def split_beta del: rframes_state)
  next
    case (EventThinkingDelta i t)
    obtain c2 p where c2: "client_run responses_client c (snd (open_thinking e s)) = Some c2"
        "rrel (fst (open_thinking e s)) c2" "roOpen (fst (open_thinking e s)) = Some p"
      using open_thinking_client [OF assms] by blast
    from text_event_client [OF c2(2,3)] c2(1) EventThinkingDelta show ?thesis
      by (simp add: Let_def split_beta del: rframes_state)
  next
    case (EventThinkingDone i t sig raw)
    show ?thesis
    proof (cases "raw \<noteq> None \<and> probe_type raw = Some ''reasoning''")
      case True
      with EventThinkingDone s1 show ?thesis
        by (simp add: Let_def split_beta client_rframes rrel_def item_rel_def)
    next
      case False
      then have "responsesStreamOut_FromIR e s ev = (if open_is s ItemThinking then rclose s else (s, []))"
        using EventThinkingDone by auto
      with s1 assms show ?thesis by simp
    qed
  next
    case (EventToolUseStart i cid nm)
    with rtool_start_client [OF assms, of e i cid nm] show ?thesis by auto
  next
    case (EventToolInputDelta i cid nm d)
    show ?thesis
    proof (cases "map_of (roSrcToItem s) i")
      case None
      obtain c2 p where c2: "client_run responses_client c (snd (rtool_start e s i cid nm)) = Some c2"
          "rrel (fst (rtool_start e s i cid nm)) c2" "roSrcToItem (fst (rtool_start e s i cid nm)) = [(i, p)]"
        using rtool_start_client [OF assms] by blast
      then have "map_of (roSrcToItem (fst (rtool_start e s i cid nm))) i = Some p" by simp
      from tool_args_client [OF c2(2) this, of d] c2 EventToolInputDelta None show ?thesis
        by (simp add: split_beta)
    next
      case (Some p)
      with tool_args_client [OF assms Some, of d] EventToolInputDelta show ?thesis by simp
    qed
  next
    case (EventToolUseStop i cid nm)
    show ?thesis
    proof (cases "map_of (roSrcToItem s) i")
      case (Some p)
      note op = src_is_open [OF assms Some]
      let ?s = "s\<lparr>roSrcToItem := [], roOpen := None\<rparr>"
      have "\<exists>c2. client_run responses_client c (snd (closeTool ?s (roItems s ! p))) = Some c2
          \<and> rrel (fst (closeTool ?s (roItems s ! p))) c2 \<and> kOpen c2 = None \<and> roOpen (fst (closeTool ?s (roItems s ! p))) = None"
        using assms op by (intro closeTool_client) (auto simp: rrel_def)
      with EventToolUseStop Some op show ?thesis by auto
    qed (use EventToolUseStop assms in simp)
  next
    case (EventMessageStop r u)
    obtain st inc where st: "responsesStatusFromIR r = (st, inc)" by fastforce
    show ?thesis using EventMessageStop s1 st
      by (simp add: Let_def split_beta client_rframes rrel_def item_rel_def)
  next
    case (EventError m)
    with s1 show ?thesis by (simp add: Let_def split_beta client_rframes rrel_def item_rel_def)
  qed
qed

interpretation responses_out: stream_encoder "responsesStreamOut_FromIR e" responses_client "\<lambda>ev. True" rrel
  for e
  by unfold_locales (rule responses_simulation)

lemma new_rrel: "rrel newResponsesStreamOut \<lparr>kSeq = 0, kOpen = None, kNext = 0, kDone = []\<rparr>"
  by (simp add: rrel_def item_rel_def newResponsesStreamOut_def)

text \<open>C19: for any sequence of IR events at all, the Responses encoder writes frames numbered 0, 1,
  2, ...; output items are added with consecutive indices and each is done exactly once before
  the next is added; every other frame of an item names the item in progress; a response that
  ends by a stop or an error has no item in progress; and the final response lists exactly the
  items that were done, in their order.\<close>

theorem responses_items_consistent:
  "\<exists>c. client_run responses_client \<lparr>kSeq = 0, kOpen = None, kNext = 0, kDone = []\<rparr>
     (snd (encode_all (responsesStreamOut_FromIR e) newResponsesStreamOut evs)) = Some c
   \<and> kDone c = roOutput (fst (encode_all (responsesStreamOut_FromIR e) newResponsesStreamOut evs))
   \<and> (evs = [] \<or> (case last evs of EventMessageStop r u \<Rightarrow> kOpen c = None | EventError m \<Rightarrow> kOpen c = None | _ \<Rightarrow> True))"
proof -
  obtain c where c: "client_run responses_client \<lparr>kSeq = 0, kOpen = None, kNext = 0, kDone = []\<rparr>
      (snd (encode_all (responsesStreamOut_FromIR e) newResponsesStreamOut evs)) = Some c"
      "rrel (fst (encode_all (responsesStreamOut_FromIR e) newResponsesStreamOut evs)) c"
    using responses_out.accepted [OF new_rrel, of evs e] by blast
  have closed: "roOpen (fst (responsesStreamOut_FromIR e s ev)) = None"
    if "\<exists>r u. ev = EventMessageStop r u \<or> (\<exists>m. ev = EventError m)" "rrel s c" for s c ev
    using that rclose_client [of s c] by (auto simp: Let_def split_beta)
  have "roOpen (fst (encode_all (responsesStreamOut_FromIR e) newResponsesStreamOut evs)) = None"
    if "evs \<noteq> []" "\<exists>r u. last evs = EventMessageStop r u \<or> (\<exists>m. last evs = EventError m)"
  proof -
    obtain c1 where "rrel (fst (encode_all (responsesStreamOut_FromIR e) newResponsesStreamOut (butlast evs))) c1"
      using responses_out.accepted [OF new_rrel, of "butlast evs" e] by blast
    from closed [OF that(2) this] show ?thesis
      using encode_all_append [of "responsesStreamOut_FromIR e" newResponsesStreamOut "butlast evs" "[last evs]"]
        that(1) by (simp add: Let_def split_beta)
  qed
  then have none: "kOpen c = None" if "evs \<noteq> []" "\<exists>r u. last evs = EventMessageStop r u \<or> (\<exists>m. last evs = EventError m)"
    using that c(2) by (simp add: rrel_def item_rel_def)
  have "kDone c = roOutput (fst (encode_all (responsesStreamOut_FromIR e) newResponsesStreamOut evs))"
    using c(2) by (simp add: rrel_def)
  moreover have "evs = [] \<or> (case last evs of EventMessageStop r u \<Rightarrow> kOpen c = None | EventError m \<Rightarrow> kOpen c = None | _ \<Rightarrow> True)"
    using none by (cases "evs = []"; cases "last evs") simp_all
  ultimately show ?thesis using c(1) by blast
qed

end
