(* ===== verification/Translator.thy ===== *)
theory Translator
  imports GwErrors StreamAnthropic StreamChat StreamResponses
begin

text \<open>
  \<^verbatim>\<open>translate/translate.go\<close>: the translator the handler uses, for one pair of protocols: requests,
  complete responses, errors, and the stream of one response, which joins the decoder of the
  provider's protocol to the encoder of the client's. A decoder or encoder behind the code's
  interface is a constructor of a datatype.
\<close>

section \<open>Directions\<close>

record translator =
  trFrom :: protocol
  trTo :: protocol
  trOpts :: Options

text \<open>\<open>requestCodec(p) != nil\<close>.\<close>

definition has_codec :: "protocol \<Rightarrow> bool" where
  "has_codec p \<longleftrightarrow> p = Anthropic \<or> p = OpenAIChat \<or> p = OpenAIResponses"

definition Supported :: "protocol \<Rightarrow> protocol \<Rightarrow> bool" where
  "Supported from to =
     (if from = to \<or> \<not> Valid from \<or> \<not> Valid to then False else has_codec from \<and> has_codec to)"

definition ErrUnsupported :: err where "ErrUnsupported = ''protocol translation not supported''"

definition New_translator :: "protocol \<Rightarrow> protocol \<Rightarrow> Options \<Rightarrow> translator result" where
  "New_translator from to opts =
     (if \<not> Supported from to then Inl (ErrUnsupported @ '': '' @ from @ '' -> '' @ to)
      else Inr \<lparr>trFrom = from, trTo = to, trOpts = opts\<rparr>)"

section \<open>Requests and responses\<close>

text \<open>A method call on a missing codec does not happen: New refuses such a direction.\<close>

definition request_ToIR :: "protocol \<Rightarrow> string \<Rightarrow> Request result" where
  "request_ToIR p body =
     (if p = Anthropic then anthropicRequest_ToIR body
      else if p = OpenAIChat then openAIChatRequest_ToIR body
      else if p = OpenAIResponses then openAIResponsesRequest_ToIR body
      else Inl [])"

definition request_FromIR :: "protocol \<Rightarrow> Request \<Rightarrow> string \<Rightarrow> Options \<Rightarrow> string result" where
  "request_FromIR p r m opts =
     (if p = Anthropic then anthropicRequest_FromIR r m opts
      else if p = OpenAIChat then openAIChatRequest_FromIR r m opts
      else if p = OpenAIResponses then openAIResponsesRequest_FromIR r m opts
      else Inl [])"

definition defaults_max_tokens :: "translator \<Rightarrow> Request \<Rightarrow> bool" where
  "defaults_max_tokens t ir \<longleftrightarrow> trTo t = Anthropic
     \<and> (case rMaxTokens ir of None \<Rightarrow> True | Some v \<Rightarrow> sint v \<le> 0)
     \<and> 0 < sint (oDefaultMaxTokens (trOpts t))"

definition Translate_Request :: "translator \<Rightarrow> string \<Rightarrow> string \<Rightarrow> (string \<times> bool) result" where
  "Translate_Request t body providerModel =
     rbind (request_ToIR (trFrom t) body) (\<lambda>ir.
     rbind (request_FromIR (trTo t) ir providerModel (trOpts t)) (\<lambda>out.
     Inr (out, defaults_max_tokens t ir)))"

definition response_ToIR :: "protocol \<Rightarrow> string \<Rightarrow> Response result" where
  "response_ToIR p body =
     (if p = Anthropic then anthropicResponse_ToIR body
      else if p = OpenAIChat then openAIChatResponse_ToIR body
      else if p = OpenAIResponses then openAIResponsesResponse_ToIR body
      else Inl [])"

definition response_FromIR :: "protocol \<Rightarrow> env \<Rightarrow> nat \<Rightarrow> Response \<Rightarrow> string result" where
  "response_FromIR p e k r =
     (if p = Anthropic then anthropicResponse_FromIR e k r
      else if p = OpenAIChat then openAIChatResponse_FromIR e k r
      else if p = OpenAIResponses then openAIResponsesResponse_FromIR e k r
      else Inl [])"

definition Translate_Response :: "translator \<Rightarrow> env \<Rightarrow> nat \<Rightarrow> string \<Rightarrow> string result" where
  "Translate_Response t e k body =
     rbind (response_ToIR (trTo t) body) (response_FromIR (trFrom t) e k)"

section \<open>Errors\<close>

definition dec_error_body :: "(string \<times> json option) decoder" where
  "dec_error_body j = do {
     fs \<leftarrow> dec_obj j;
     m \<leftarrow> get_str ''message'' fs;
     Some (m, get_raw ''error'' fs) }"

definition dec_error_object :: "(string \<times> string \<times> string) decoder" where
  "dec_error_object j = do {
     fs \<leftarrow> dec_obj j;
     t \<leftarrow> get_str ''type'' fs;
     c \<leftarrow> get_str ''code'' fs;
     m \<leftarrow> get_str ''message'' fs;
     Some (t, c, m) }"

text \<open>The three bytes of the ellipsis in UTF-8.\<close>

definition ellipsis :: string where "ellipsis = [CHR 0xE2, CHR 0x80, CHR 0xA6]"

definition or_else :: "string \<Rightarrow> string \<Rightarrow> string" where
  "or_else a b = (if a = [] then b else a)"

definition structured_error :: "GatewayError \<Rightarrow> string \<Rightarrow> json option \<Rightarrow> GatewayError" where
  "structured_error ge outer raw =
     (let ge1 = (case raw of
          Some (JObj fs) \<Rightarrow>
            (case dec_error_object (JObj fs) of
               None \<Rightarrow> ge
             | Some (t, c, m) \<Rightarrow> ge\<lparr>geType := or_else t (geType ge), geCode := or_else c (geCode ge), geMessage := m\<rparr>)
        | Some (JStr s) \<Rightarrow> ge\<lparr>geMessage := s\<rparr>
        | _ \<Rightarrow> ge)
      in ge1\<lparr>geMessage := or_else (geMessage ge1) outer\<rparr>)"

definition fallback_message :: "int \<Rightarrow> string \<Rightarrow> string" where
  "fallback_message status body =
     (let s = trim_space body;
          s1 = (if length s > 512 then take 512 s @ ellipsis else s)
      in if s1 = [] then ''upstream returned status '' @ int_text status else s1)"

definition Translate_Error :: "int \<Rightarrow> string \<Rightarrow> GatewayError" where
  "Translate_Error status body =
     (let ge = \<lparr>geStatus = status, geType = ''api_error'', geCode = ''upstream_error'', geMessage = []\<rparr>;
          ge1 = (case unmarshal dec_error_body body of None \<Rightarrow> ge | Some (m, raw) \<Rightarrow> structured_error ge m raw)
      in ge1\<lparr>geMessage := or_else (geMessage ge1) (fallback_message status body)\<rparr>)"

section \<open>Streams\<close>

datatype stream_dec =
    DecAnthropic anthropicStreamIn
  | DecChat chatStreamIn
  | DecResponses responsesStreamIn

datatype stream_enc =
    EncAnthropic anthropicStreamOut
  | EncChat chatStreamOut
  | EncResponses responsesStreamOut

definition newStreamDecoder :: "protocol \<Rightarrow> stream_dec option" where
  "newStreamDecoder p =
     (if p = Anthropic then Some (DecAnthropic newAnthropicStreamIn)
      else if p = OpenAIChat then Some (DecChat newChatStreamIn)
      else if p = OpenAIResponses then Some (DecResponses newResponsesStreamIn)
      else None)"

definition newStreamEncoder :: "protocol \<Rightarrow> stream_enc option" where
  "newStreamEncoder p =
     (if p = Anthropic then Some (EncAnthropic newAnthropicStreamOut)
      else if p = OpenAIChat then Some (EncChat newChatStreamOut)
      else if p = OpenAIResponses then Some (EncResponses newResponsesStreamOut)
      else None)"

definition map_state :: "('a \<Rightarrow> 'b) \<Rightarrow> ('a \<times> 'c) result \<Rightarrow> ('b \<times> 'c) result" where
  "map_state f r = rbind r (\<lambda>(s, x). Inr (f s, x))"

fun dec_ToIR :: "stream_dec \<Rightarrow> string \<Rightarrow> (stream_dec \<times> StreamEvent list) result" where
  "dec_ToIR (DecAnthropic s) d = map_state DecAnthropic (anthropicStreamIn_ToIR s d)"
| "dec_ToIR (DecChat s) d = map_state DecChat (chatStreamIn_ToIR s d)"
| "dec_ToIR (DecResponses s) d = map_state DecResponses (responsesStreamIn_ToIR s d)"

fun enc_FromIR :: "env \<Rightarrow> stream_enc \<Rightarrow> StreamEvent \<Rightarrow> stream_enc \<times> frame list" where
  "enc_FromIR e (EncAnthropic s) ev = apfst EncAnthropic (anthropicStreamOut_FromIR e s ev)"
| "enc_FromIR e (EncChat s) ev = apfst EncChat (chatStreamOut_FromIR e s ev)"
| "enc_FromIR e (EncResponses s) ev = apfst EncResponses (responsesStreamOut_FromIR e s ev)"

record tstream =
  tsDec :: stream_dec
  tsEnc :: stream_enc
  tsEnded :: bool
  tsUsage :: usage

definition NewStream :: "translator \<Rightarrow> tstream option" where
  "NewStream t =
     (case (newStreamDecoder (trTo t), newStreamEncoder (trFrom t)) of
        (Some d, Some e) \<Rightarrow> Some \<lparr>tsDec = d, tsEnc = e, tsEnded = False, tsUsage = no_usage\<rparr>
      | _ \<Rightarrow> None)"

fun feed_event :: "tstream \<Rightarrow> StreamEvent \<Rightarrow> tstream" where
  "feed_event s (EventMessageStop r u) = s\<lparr>tsEnded := True, tsUsage := u\<rparr>"
| "feed_event s (EventError m) = s\<lparr>tsEnded := True\<rparr>"
| "feed_event s _ = s"

fun feed_events :: "env \<Rightarrow> tstream \<Rightarrow> StreamEvent list \<Rightarrow> tstream \<times> frame list" where
  "feed_events e s [] = (s, [])"
| "feed_events e s (ev # evs) =
     (let (enc, o1) = enc_FromIR e (tsEnc s) ev;
          (s2, o2) = feed_events e (feed_event (s\<lparr>tsEnc := enc\<rparr>) ev) evs
      in (s2, o1 @ o2))"

definition Stream_Feed :: "env \<Rightarrow> tstream \<Rightarrow> string \<Rightarrow> tstream \<times> frame list result" where
  "Stream_Feed e s data =
     (if tsEnded s then (s, Inr [])
      else (case dec_ToIR (tsDec s) data of
              Inl er \<Rightarrow> (s, Inl er)
            | Inr (d, evs) \<Rightarrow> (case feed_events e (s\<lparr>tsDec := d\<rparr>) evs of (s1, out) \<Rightarrow> (s1, Inr out))))"

definition Stream_Fail :: "env \<Rightarrow> tstream \<Rightarrow> err \<Rightarrow> tstream \<times> frame list" where
  "Stream_Fail e s msg =
     (if tsEnded s then (s, [])
      else (let (enc, out) = enc_FromIR e (tsEnc s) (EventError msg)
            in (s\<lparr>tsEnded := True, tsEnc := enc\<rparr>, out)))"

text \<open>A whole response: all events of the upstream, an error stops the feeding with Fail, and a stream
  that is not ended at its end is failed by the handler.\<close>

fun translate_stream :: "env \<Rightarrow> err \<Rightarrow> tstream \<Rightarrow> string list \<Rightarrow> tstream \<times> frame list" where
  "translate_stream e eof s [] = Stream_Fail e s eof"
| "translate_stream e eof s (d # ds) =
     (case Stream_Feed e s d of
        (s1, Inl er) \<Rightarrow> Stream_Fail e s1 (''protocol translation failed: '' @ er)
      | (s1, Inr out) \<Rightarrow> (case translate_stream e eof s1 ds of (s2, out2) \<Rightarrow> (s2, out @ out2)))"

section \<open>A translated stream is a complete message\<close>

fun ending :: "StreamEvent \<Rightarrow> bool" where
  "ending (EventMessageStop r u) = True"
| "ending (EventError m) = True"
| "ending _ = False"

text \<open>Events in the middle of a message, whose tool indices are the ones the encoder may be given.\<close>

definition mid_events_ok :: "StreamEvent list \<Rightarrow> bool" where
  "mid_events_ok evs \<longleftrightarrow> list_all (\<lambda>ev. tool_index_ok ev \<and> \<not> ending ev) evs"

lemma mid_simps [simp]:
  "mid_events_ok []" "mid_events_ok (xs @ ys) \<longleftrightarrow> mid_events_ok xs \<and> mid_events_ok ys"
  "mid_events_ok (x # xs) \<longleftrightarrow> (tool_index_ok x \<and> \<not> ending x) \<and> mid_events_ok xs"
  by (simp_all add: mid_events_ok_def)

lemma mid_small [simp]:
  "mid_events_ok (snd (chunk_start s k))" "mid_events_ok (snd (close_reasoning s))"
  "mid_events_ok (snd (chunk_reasoning s r))" "mid_events_ok (snd (closeCurrentTool s))"
  "mid_events_ok (snd (chunk_text s t))" "mid_events_ok (snd (chunk_finish s f))"
  by (auto simp: chunk_start_def close_reasoning_def chunk_reasoning_def closeCurrentTool_def
      chunk_text_def chunk_finish_def Let_def split_beta split: option.splits if_splits)

lemma mid_fragment_open [simp]: "index_fits tc \<Longrightarrow> mid_events_ok (snd (fragment_open s tc))"
  by (simp add: fragment_open_def Let_def split_beta index_fits_slot)

lemma mid_tool_fragment: "index_fits tc \<Longrightarrow> tool_fragment s tc = Inr r \<Longrightarrow> mid_events_ok (snd r)"
  by (auto simp: tool_fragment_def Let_def split_beta index_fits_slot split: if_splits)

lemma mid_tool_fragments:
  "\<forall>tc \<in> set tcs. index_fits tc \<Longrightarrow> tool_fragments s tcs = Inr r \<Longrightarrow> mid_events_ok (snd r)"
  by (induction tcs arbitrary: s r) (fastforce simp: rbind_Inr_iff dest: mid_tool_fragment)+

lemma mid_chunk_choice: "indices_fit ch \<Longrightarrow> chunk_choice s ch = Inr r \<Longrightarrow> mid_events_ok (snd r)"
  by (auto simp: chunk_choice_def indices_fit_def rbind_Inr_iff Let_def split_beta dest!: mid_tool_fragments
      split: if_splits)

lemma mid_chunk_choices:
  "\<forall>ch \<in> set chs. indices_fit ch \<Longrightarrow> chunk_choices s chs = Inr r \<Longrightarrow> mid_events_ok (snd r)"
  by (induction chs arbitrary: s r) (fastforce simp: rbind_Inr_iff dest: mid_chunk_choice)+

text \<open>A batch of events of the decoder: an event that ends the message is the last of its batch.\<close>

definition batch_ok :: "StreamEvent list \<Rightarrow> bool" where
  "batch_ok evs \<longleftrightarrow> mid_events_ok evs \<or> (\<exists>ms ev. evs = ms @ [ev] \<and> mid_events_ok ms \<and> ending ev)"

lemma batch_finish: "mid_events_ok xs \<Longrightarrow> batch_ok (xs @ snd (finishIfNeeded s))"
  unfolding batch_ok_def finishIfNeeded_def Let_def split_beta
  by (cases "ciStopSent s \<or> \<not> ciStarted s") (simp, rule disjI2, rule exI, rule exI,
      rule conjI, simp only: if_False snd_conv append_assoc [symmetric], simp)

lemma batch_chat:
  assumes "chat_data_fits d" and "chatStreamIn_ToIR s d = Inr (s', evs)"
  shows "batch_ok evs"
proof -
  consider "d = []" | "d \<noteq> []" "d = DONE" | k where "d \<noteq> []" "d \<noteq> DONE" "unmarshal dec_chatChunk d = Some k"
    using assms(2) by (auto simp: chatStreamIn_ToIR_def split: if_splits option.splits)
  then show ?thesis
  proof cases
    case 1
    with assms(2) show ?thesis by (simp add: chatStreamIn_ToIR_def batch_ok_def)
  next
    case 2
    with assms(2) batch_finish [of "[]" s] show ?thesis by (simp add: chatStreamIn_ToIR_def)
  next
    case 3
    then have res: "chatChunk_ToIR s k = Inr (s', evs)" and ok: "\<forall>ch \<in> set (ckChoices k). indices_fit ch"
      using assms by (simp_all add: chatStreamIn_ToIR_def chat_data_fits_def list_all_iff)
    show ?thesis
    proof (cases "ckError k")
      case None
      obtain s1 o1 where s1: "chunk_start s k = (s1, o1)" by fastforce
      obtain s2 o2 where s2: "chunk_choices (chunk_usage s1 k) (ckChoices k) = Inr (s2, o2)"
        using res None s1 by (auto simp: chatChunk_ToIR_def rbind_Inr_iff)
      have "mid_events_ok (o1 @ o2)"
        using mid_chunk_choices [OF ok s2] mid_small(1) [of s k] s1 by simp
      from batch_finish [OF this, of s2] this show ?thesis
        using res None s1 s2 by (cases "finishIfNeeded s2")
          (auto simp: chatChunk_ToIR_def batch_ok_def split: if_splits)
    qed (use res in \<open>auto simp: chatChunk_ToIR_def batch_ok_def\<close>)
  qed
qed

text \<open>The frames that close a message for an Anthropic client, of which the last is counted.\<close>

fun closing :: "frame \<Rightarrow> bool" where
  "closing (Named e j) \<longleftrightarrow> e = ''message_stop'' \<or> e = ''error''"
| "closing _ \<longleftrightarrow> False"

definition closes :: "frame list \<Rightarrow> nat" where
  "closes fs = length (filter closing fs)"

lemma closes_simps [simp]:
  "closes [] = 0" "closes (f # fs) = (if closing f then 1 else 0) + closes fs"
  "closes (fs @ gs) = closes fs + closes gs"
  by (simp_all add: closes_def)

lemma closing_frames [simp]:
  "\<not> closing (block_start_frame i b)" "\<not> closing (block_delta_frame i d)" "\<not> closing (block_stop_frame i)"
  "\<not> closing (input_delta_frame i x)" "\<not> closing (message_start_frame a m u)" "closing (error_frame t)"
  by (simp_all add: block_start_frame_def block_delta_frame_def block_stop_frame_def input_delta_frame_def
      message_start_frame_def error_frame_def sse_def)

lemma closes_small [simp]:
  "closes (snd (aclose s)) = 0" "closes (message_stop_frames r u) = 1"
  by (simp_all add: aclose_def message_stop_frames_def sse_def)

lemma closes_blocks [simp]:
  "closes (snd (ensureOpen k s)) = 0" "closes (snd (tool_start e s i c n)) = 0"
  by (simp_all add: ensureOpen_def tool_start_def Let_def split_beta)

lemma closes_event:
  "closes (snd (anthropicStreamOut_FromIR e s ev)) = (if ending ev then 1 else 0)"
  by (cases ev) (auto simp: Let_def split_beta split: option.split)

lemma last_of_ending:
  "ending ev \<Longrightarrow> closing (last (snd (anthropicStreamOut_FromIR e s ev)))
     \<and> snd (anthropicStreamOut_FromIR e s ev) \<noteq> []"
  by (cases ev) (auto simp: Let_def split_beta message_stop_frames_def sse_def)

lemma feed_events_anthropic:
  "tsEnc s = EncAnthropic a \<Longrightarrow>
   snd (feed_events e s evs) = snd (encode_all (anthropicStreamOut_FromIR e) a evs)
   \<and> tsEnc (fst (feed_events e s evs)) = EncAnthropic (fst (encode_all (anthropicStreamOut_FromIR e) a evs))
   \<and> tsDec (fst (feed_events e s evs)) = tsDec s
   \<and> tsEnded (fst (feed_events e s evs)) = (tsEnded s \<or> list_ex ending evs)"
proof (induction evs arbitrary: s a)
  case (Cons ev evs)
  obtain a1 o1 where a1: "anthropicStreamOut_FromIR e a ev = (a1, o1)" by fastforce
  have "tsEnc (feed_event (s\<lparr>tsEnc := EncAnthropic a1\<rparr>) ev) = EncAnthropic a1"
    "tsDec (feed_event (s\<lparr>tsEnc := EncAnthropic a1\<rparr>) ev) = tsDec s"
    "tsEnded (feed_event (s\<lparr>tsEnc := EncAnthropic a1\<rparr>) ev) = (tsEnded s \<or> ending ev)"
    by (cases ev; simp)+
  with Cons a1 show ?case by (simp add: Let_def split_beta)
qed simp

lemma closes_encode_all:
  "closes (snd (encode_all (anthropicStreamOut_FromIR e) a evs)) = length (filter ending evs)"
proof (induction evs arbitrary: a)
  case (Cons ev evs)
  then show ?case using closes_event [of e a ev]
    by (cases "anthropicStreamOut_FromIR e a ev") (simp add: Let_def split_beta)
qed simp

lemma batch_okD:
  assumes "batch_ok evs"
  shows "\<forall>ev \<in> set evs. tool_index_ok ev" "length (filter ending evs) = (if list_ex ending evs then 1 else 0)"
    "list_ex ending evs \<Longrightarrow> \<exists>ms ev. evs = ms @ [ev] \<and> ending ev"
proof -
  have "mid_events_ok ms \<Longrightarrow> (\<forall>ev \<in> set ms. tool_index_ok ev) \<and> filter ending ms = [] \<and> \<not> list_ex ending ms" for ms
    by (induction ms) auto
  moreover have "ending ev \<Longrightarrow> tool_index_ok ev" for ev by (cases ev) auto
  ultimately show "\<forall>ev \<in> set evs. tool_index_ok ev" "length (filter ending evs) = (if list_ex ending evs then 1 else 0)"
    "list_ex ending evs \<Longrightarrow> \<exists>ms ev. evs = ms @ [ev] \<and> ending ev"
    using assms unfolding batch_ok_def by fastforce+
qed

text \<open>The state of a stream from Chat Completions to Anthropic, and what is claimed of its rest.\<close>

definition stream_inv :: "tstream \<Rightarrow> int option \<times> int \<Rightarrow> bool" where
  "stream_inv s k \<longleftrightarrow> (\<exists>d a. tsDec s = DecChat d \<and> tsEnc s = EncAnthropic a \<and> block_rel a k
     \<and> (tsEnded s \<longrightarrow> fst k = None))"

definition closed_once :: "tstream \<Rightarrow> int option \<times> int \<Rightarrow> tstream \<times> frame list \<Rightarrow> bool" where
  "closed_once s k r \<longleftrightarrow> (\<exists>n. client_run block_client k (snd r) = Some (None, n)) \<and> tsEnded (fst r)
     \<and> (if tsEnded s then snd r = [] else closes (snd r) = 1 \<and> snd r \<noteq> [] \<and> closing (last (snd r)))"

lemma ending_frames:
  assumes "block_rel a k" and "ending ev" and "client_run block_client k (snd (anthropicStreamOut_FromIR e a ev)) = Some k'"
  shows "fst k' = None"
proof -
  obtain a1 out where "aclose a = (a1, out)" "client_run block_client k out = Some (None, aoNextIndex a)"
    using assms(1) by (rule acloseE)
  with assms(2,3) show ?thesis by (cases ev) auto
qed

lemma fail_closes:
  assumes "stream_inv s k"
  shows "closed_once s k (Stream_Fail e s m)"
proof (cases "tsEnded s")
  case True
  with assms show ?thesis by (cases k) (auto simp: closed_once_def Stream_Fail_def stream_inv_def)
next
  case False
  obtain a where a: "tsEnc s = EncAnthropic a" "block_rel a k" using assms by (auto simp: stream_inv_def)
  obtain k' where k': "client_run block_client k (snd (anthropicStreamOut_FromIR e a (EventError m))) = Some k'"
    using block_simulation [OF a(2), of "EventError m" e] by auto
  have "fst k' = None" using ending_frames [OF a(2) _ k'] by simp
  with False a(1) k' closes_event [of e a "EventError m"] last_of_ending [of "EventError m" e a] show ?thesis
    by (cases k'; cases "aclose a") (simp add: closed_once_def Stream_Fail_def)
qed

text \<open>Feeding one upstream event: the frames are accepted, and close the message or leave it open.\<close>

lemma feed_step:
  assumes inv: "stream_inv s k" and live: "\<not> tsEnded s" and ok: "chat_data_fits d"
    and res: "Stream_Feed e s d = (s1, Inr out)"
  shows "\<exists>k'. client_run block_client k out = Some k' \<and> stream_inv s1 k'
    \<and> closes out = (if tsEnded s1 then 1 else 0) \<and> (tsEnded s1 \<longrightarrow> out \<noteq> [] \<and> closing (last out))"
proof -
  obtain c a where s: "tsDec s = DecChat c" "tsEnc s = EncAnthropic a" "block_rel a k"
    using inv by (auto simp: stream_inv_def)
  obtain c1 evs where dec: "chatStreamIn_ToIR c d = Inr (c1, evs)"
      and fed: "feed_events e (s\<lparr>tsDec := DecChat c1\<rparr>) evs = (s1, out)"
    using res live s(1) by (auto simp: Stream_Feed_def map_state_def rbind_def split: sum.splits prod.splits)
  note b = batch_okD [OF batch_chat [OF ok dec]]
  let ?enc = "encode_all (anthropicStreamOut_FromIR e)"
  have f: "out = snd (?enc a evs)" "tsEnc s1 = EncAnthropic (fst (?enc a evs))" "tsDec s1 = DecChat c1"
      "tsEnded s1 = list_ex ending evs"
    using feed_events_anthropic [of "s\<lparr>tsDec := DecChat c1\<rparr>" a e evs] fed s live by simp_all
  obtain k' where k': "client_run block_client k (snd (?enc a evs)) = Some k'" "block_rel (fst (?enc a evs)) k'"
    using anthropic_out.accepted [OF s(3) b(1)] by blast
  have last: "fst k' = None \<and> out \<noteq> [] \<and> closing (last out)" if "list_ex ending evs"
  proof -
    from b(3) [OF that] obtain ms ev where ev: "evs = ms @ [ev]" "ending ev" by blast
    obtain k1 where k1: "client_run block_client k (snd (?enc a ms)) = Some k1" "block_rel (fst (?enc a ms)) k1"
      using anthropic_out.accepted [OF s(3), of ms e] b(1) ev(1) by auto
    have split: "snd (?enc a evs) = snd (?enc a ms) @ snd (anthropicStreamOut_FromIR e (fst (?enc a ms)) ev)"
      by (simp add: ev(1) encode_all_append Let_def split_beta)
    with k1 k' have "client_run block_client k1 (snd (anthropicStreamOut_FromIR e (fst (?enc a ms)) ev)) = Some k'"
      by simp
    from ending_frames [OF k1(2) ev(2) this] last_of_ending [OF ev(2), of e "fst (?enc a ms)"] show ?thesis
      by (simp add: f(1) split)
  qed
  show ?thesis
    using k' f last closes_encode_all [of e a evs] b(2) by (auto simp: stream_inv_def)
qed

lemma stream_closes:
  "stream_inv s k \<Longrightarrow> \<forall>d \<in> set ds. chat_data_fits d \<Longrightarrow> closed_once s k (translate_stream e eof s ds)"
proof (induction ds arbitrary: s k)
  case Nil
  then show ?case by (simp add: fail_closes)
next
  case (Cons d ds)
  show ?case
  proof (cases "tsEnded s")
    case True
    then have "translate_stream e eof s (d # ds) = translate_stream e eof s ds"
      by (simp add: Stream_Feed_def)
    with Cons show ?thesis by simp
  next
    case False
    obtain s1 r where fd: "Stream_Feed e s d = (s1, r)" by fastforce
    show ?thesis
    proof (cases r)
      case (Inl er)
      then have "s1 = s" using fd False by (auto simp: Stream_Feed_def split: sum.splits prod.splits)
      with fd Inl Cons.prems(1) show ?thesis by (simp add: fail_closes)
    next
      case (Inr out)
      with feed_step [OF Cons.prems(1) False, of d e s1 out] fd Cons.prems(2) obtain k' where
        k': "client_run block_client k out = Some k'" "stream_inv s1 k'" "closes out = (if tsEnded s1 then 1 else 0)"
          "tsEnded s1 \<longrightarrow> out \<noteq> [] \<and> closing (last out)" by auto
      have "closed_once s1 k' (translate_stream e eof s1 ds)" using Cons k'(2) by simp
      with False Inr fd k' show ?thesis
        by (auto simp: closed_once_def split_beta split: if_splits)
    qed
  qed
qed

text \<open>A stream from Chat Completions to Anthropic is a complete message, whatever is fed to it.\<close>

lemma stream_complete:
  assumes "New_translator Anthropic OpenAIChat opts = Inr t" and "NewStream t = Some s"
    and "\<forall>d \<in> set ds. chat_data_fits d"
  shows "(\<exists>n. client_run block_client (None, 0) (snd (translate_stream e eof s ds)) = Some (None, n))
    \<and> tsEnded (fst (translate_stream e eof s ds))
    \<and> length (filter closing (snd (translate_stream e eof s ds))) = 1
    \<and> closing (last (snd (translate_stream e eof s ds)))"
proof -
  have "stream_inv s (None, 0)" "\<not> tsEnded s"
    using assms(1,2) new_block_rel by (auto simp: New_translator_def Supported_def Valid_def NewStream_def
        newStreamDecoder_def newStreamEncoder_def stream_inv_def Anthropic_def OpenAIChat_def split: if_splits)
  with stream_closes [OF _ assms(3), of s "(None, 0)" e eof]
  show ?thesis
    by (simp add: closed_once_def closes_def)
qed

section \<open>Errors keep their meaning\<close>

lemma fallback_message_nonempty: "fallback_message st body \<noteq> []"
  by (auto simp: fallback_message_def Let_def)

lemma or_else_nonempty: "b \<noteq> [] \<Longrightarrow> or_else a b \<noteq> []"
  by (simp add: or_else_def)

lemma structured_error_nonempty:
  "geType g \<noteq> [] \<Longrightarrow> geCode g \<noteq> [] \<Longrightarrow> geType (structured_error g m r) \<noteq> [] \<and> geCode (structured_error g m r) \<noteq> []
     \<and> geStatus (structured_error g m r) = geStatus g"
  by (auto simp: structured_error_def Let_def or_else_def split: option.split json.split)

lemma Translate_Error_total:
  "geStatus (Translate_Error st body) = st \<and> geMessage (Translate_Error st body) \<noteq> []
   \<and> geType (Translate_Error st body) \<noteq> [] \<and> geCode (Translate_Error st body) \<noteq> []"
  using structured_error_nonempty [of "\<lparr>geStatus = st, geType = ''api_error'', geCode = ''upstream_error'', geMessage = []\<rparr>"]
  by (auto simp: Translate_Error_def Let_def or_else_nonempty fallback_message_nonempty split: option.split)

lemma dec_error_body_json:
  "dec_error_body (error_json g p) = Some ([], jget ''error'' (case error_json g p of JObj fs \<Rightarrow> fs | _ \<Rightarrow> []))"
  by (simp add: error_json_def dec_error_body_def json_dec jmap_def)

lemma Translate_Error_Write:
  assumes "geMessage g \<noteq> []"
  shows "Translate_Error st (hrBody (Write g p)) =
    \<lparr>geStatus = st, geType = or_else (geType g) ''api_error'',
     geCode = (if p = Anthropic then ''upstream_error'' else or_else (geCode g) ''upstream_error''),
     geMessage = geMessage g\<rparr>"
  using assms
  by (simp add: Translate_Error_def Write_def unmarshal_def error_json_def dec_error_body_def structured_error_def
      dec_error_object_def json_dec jmap_def or_else_def)



section \<open>The largest index\<close>

definition chat_text_chunk :: "string \<Rightarrow> string" where
  "chat_text_chunk t = json_text (JObj [(''choices'', JArr [JObj [(''delta'', JObj [(''content'', JStr t)])]])])"

lemma chat_text_chunk_text [simp]: "chat_text_chunk a \<noteq> []" "chat_text_chunk a \<noteq> DONE"
  by (simp_all add: chat_text_chunk_def json_text.simps DONE_def)

lemma dec_chat_text_chunk: "unmarshal dec_chatChunk (chat_text_chunk t) = Some \<lparr>ckID = [], ckModel = [],
   ckChoices = [\<lparr>ccIndex = 0, ccFinishReason = None, ccContent = Some t, ccReasoningContent = None, ccToolCalls = []\<rparr>],
   ckUsage = None, ckError = None\<rparr>"
  by (simp add: chat_text_chunk_def dec_chatChunk_def dec_chunkChoice_def dec_toolFragment_def json_dec)

text \<open>The premise of \<open>translated_relay_complete\<close> on the largest index is needed: the decoder adds one to the index of a tool
  call, which wraps to a negative number; the encoder takes a negative source for none, keeps the block of the tool
  mapped when text closes it, and closes it again, under the text block, when the tool stops.\<close>

theorem largest_index_closes_twice:
  "client_run block_client (None, 0) (snd (encode_all (anthropicStreamOut_FromIR e) newAnthropicStreamOut
     (fst (decode_all chatStreamIn_ToIR newChatStreamIn [chat_tool_chunk (2 ^ 63 - 1) ''{'', chat_text_chunk ''x'', DONE])))) = None"
proof -
  have i: "in_i64 (2 ^ 63 - 1)" by (simp add: in_i64_def)
  have w: "wrap64 9223372036854775808 = - 9223372036854775808" by (simp add: wrap64_def i64_of_def)
  have d: "DONE \<noteq> []" by (simp add: DONE_def)
  have "fst (decode_all chatStreamIn_ToIR newChatStreamIn [chat_tool_chunk (2 ^ 63 - 1) ''{'', chat_text_chunk ''x'', DONE])
     = [EventMessageStart [] [] no_usage, EventToolUseStart (- 9223372036854775808) ''c'' ''f'',
        EventToolInputDelta (- 9223372036854775808) ''c'' ''f'' ''{'', EventTextDelta 0 ''x'',
        EventToolUseStop (- 9223372036854775808) ''c'' ''f'', EventMessageStop StopToolUse no_usage]"
    by (simp add: chatStreamIn_ToIR_def dec_chat_tool_chunk [OF i, simplified] dec_chat_text_chunk d w chatChunk_ToIR_def chunk_start_def
        chunk_usage_def hasUsage_def raw_set_def chunk_choice_def chunk_reasoning_def chunk_text_def
        tool_fragment_def tool_state_def fragment_open_def closeCurrentTool_def close_reasoning_def look_str_def
        newChatStreamIn_def chunk_finish_def finishIfNeeded_def chatFinishToIR_def Let_def)
  then show ?thesis 
    by (simp add: tool_start_def ensureOpen_def aclose_def newAnthropicStreamOut_def id_or_def Let_def)
qed

end
