(* ===== verification/Provider.thy ===== *)
theory Provider
  imports Protocol Config
begin

text \<open>
  The package \<^verbatim>\<open>internal/provider\<close>: the upstreams of the configuration, how a request is
  authenticated, and the calls through Amazon Bedrock's InvokeModel, which are dressed up as the answer
  of a native endpoint. The AWS SDK (credentials, signing, the two InvokeModel operations) is an
  argument. A header is the list of its fields, their names in lower case.
\<close>

section \<open>Headers and responses\<close>

type_synonym header = "(string \<times> string) list"

definition h_values :: "string \<Rightarrow> header \<Rightarrow> string list" where
  "h_values name h = map snd (filter (\<lambda>p. fst p = to_lower name) h)"

definition h_get :: "string \<Rightarrow> header \<Rightarrow> string" where
  "h_get name h = (case h_values name h of [] \<Rightarrow> [] | v # vs \<Rightarrow> v)"

definition h_del :: "string \<Rightarrow> header \<Rightarrow> header" where
  "h_del name h = filter (\<lambda>p. fst p \<noteq> to_lower name) h"

definition h_set :: "string \<Rightarrow> string \<Rightarrow> header \<Rightarrow> header" where
  "h_set name v h = h_del name h @ [(to_lower name, v)]"

lemma h_values_set [simp]:
  "h_values n (h_set m v h) = (if to_lower n = to_lower m then [v] else h_values n h)"
  by (induction h) (auto simp: h_values_def h_set_def h_del_def)

lemma h_values_del [simp]:
  "h_values n (h_del m h) = (if to_lower n = to_lower m then [] else h_values n h)"
  by (induction h) (auto simp: h_values_def h_del_def)

lemma h_get_set [simp]:
  "h_get n (h_set m v h) = (if to_lower n = to_lower m then v else h_get n h)"
  "h_get n (h_del m h) = (if to_lower n = to_lower m then [] else h_get n h)"
  by (simp_all add: h_get_def)

text \<open>A body is the chunks that its reads return, and the error the last read gives (\<open>None\<close>: the end).\<close>

record http_body =
  bdChunks :: "string list"
  bdErr :: "err option"

record upstream_response =
  upStatus :: int
  upHeader :: header
  upBody :: http_body

definition whole_body :: "string \<Rightarrow> http_body" where
  "whole_body s = \<lparr>bdChunks = (if s = [] then [] else [s]), bdErr = None\<rparr>"

record upstream_request =
  uqURL :: url
  uqHeader :: header
  uqBody :: string

section \<open>Providers\<close>

datatype authenticator = HeaderAuth string string | NoAuth | SigV4

record Provider =
  pvCode :: string
  pvEndpoints :: "(string \<times> url) list"
  pvAuth :: authenticator
  pvBedrock :: bool
  pvInvoke :: bool

type_synonym Registry = "(string \<times> Provider) list"

fun parse_endpoints :: "url_parser \<Rightarrow> string \<Rightarrow> (string \<times> string) list \<Rightarrow> (string \<times> url) list result" where
  "parse_endpoints parse code [] = Inr []"
| "parse_endpoints parse code ((name, raw) # es) =
     (let bad = Inl (''provider '' @ quoted code @ '' endpoint '' @ quoted name @ '': invalid url '' @ quoted raw)
      in case parse (trim_right_slash raw) of
           None \<Rightarrow> bad
         | Some u \<Rightarrow> if uScheme u = [] \<or> uHost u = [] then bad
             else rbind (parse_endpoints parse code es) (\<lambda>us. Inr ((name, u) # us)))"

text \<open>\<open>newSigV4\<close> resolves the AWS credentials: the argument \<open>aws\<close> tells whether it fails.\<close>

definition build_auth :: "(string \<Rightarrow> ProviderConfig \<Rightarrow> err option) \<Rightarrow> string \<Rightarrow> ProviderConfig
    \<Rightarrow> authenticator result" where
  "build_auth aws code pc =
     (if pcAuth pc = AuthBearer then Inr (HeaderAuth ''Authorization'' (''Bearer '' @ pcAPIKey pc))
      else if pcAuth pc = AuthXAPIKey then Inr (HeaderAuth ''x-api-key'' (pcAPIKey pc))
      else if pcAuth pc = AuthNone then Inr NoAuth
      else if pcAuth pc = AuthAWSIAM then
        (case aws code pc of
           Some e \<Rightarrow> Inl (''provider '' @ quoted code @ '': '' @ e)
         | None \<Rightarrow> Inr SigV4)
      else Inl (''provider '' @ quoted code @ '': unsupported auth '' @ quoted (pcAuth pc)))"

definition build_provider :: "url_parser \<Rightarrow> (string \<Rightarrow> ProviderConfig \<Rightarrow> err option) \<Rightarrow> string \<Rightarrow> ProviderConfig
    \<Rightarrow> Provider result" where
  "build_provider parse aws code pc =
     rbind (parse_endpoints parse code (pcEndpoints pc)) (\<lambda>us.
     rbind (build_auth aws code pc) (\<lambda>a.
     Inr \<lparr>pvCode = code, pvEndpoints = us, pvAuth = a, pvBedrock = (a = SigV4),
          pvInvoke = (a = SigV4 \<and> map_of us EndpointBedrockInvoke \<noteq> None)\<rparr>))"

fun Build :: "url_parser \<Rightarrow> (string \<Rightarrow> ProviderConfig \<Rightarrow> err option) \<Rightarrow> (string \<times> ProviderConfig) list
    \<Rightarrow> Registry result" where
  "Build parse aws [] = Inr []"
| "Build parse aws ((code, pc) # cs) =
     rbind (build_provider parse aws code pc) (\<lambda>p.
     rbind (Build parse aws cs) (\<lambda>reg. Inr ((code, p) # reg)))"

definition Endpoint :: "Provider \<Rightarrow> protocol \<Rightarrow> url option" where
  "Endpoint p proto = map_of (pvEndpoints p) proto"

definition CanInvoke :: "Provider \<Rightarrow> protocol \<Rightarrow> bool" where
  "CanInvoke p proto \<longleftrightarrow> pvInvoke p \<and> (proto = EndpointAnthropic \<or> proto = EndpointOpenAIChat)"

text \<open>The signer is an argument: the fields it adds, or the error of getting credentials.\<close>

definition Authenticate_header :: "string \<Rightarrow> string \<Rightarrow> header \<Rightarrow> header result" where
  "Authenticate_header name v h = Inr (h_set name v h)"

definition Authenticate_none :: "header \<Rightarrow> header result" where
  "Authenticate_none h = Inr h"

definition Authenticate_sigv4 :: "(header \<Rightarrow> string \<Rightarrow> header result) \<Rightarrow> header \<Rightarrow> string \<Rightarrow> header result" where
  "Authenticate_sigv4 sign h body = sign (h_del ''x-api-key'' (h_del ''Authorization'' h)) body"

definition Authenticate :: "(header \<Rightarrow> string \<Rightarrow> header result) \<Rightarrow> Provider \<Rightarrow> header \<Rightarrow> string \<Rightarrow> header result" where
  "Authenticate sign p h body =
     (case pvAuth p of
        HeaderAuth n v \<Rightarrow> Authenticate_header n v h
      | NoAuth \<Rightarrow> Authenticate_none h
      | SigV4 \<Rightarrow> Authenticate_sigv4 sign h body)"

lemmas authenticate_defs = Authenticate_def Authenticate_header_def Authenticate_none_def Authenticate_sigv4_def

section \<open>InvokeModel\<close>

subsection \<open>The request\<close>

definition bedrockAnthropicVersion :: string where
  "bedrockAnthropicVersion = ''bedrock-2023-05-31''"

text \<open>Headers whose values are lists.\<close>

definition headerList :: "header \<Rightarrow> string \<Rightarrow> string list" where
  "headerList h name =
     filter (\<lambda>s. s \<noteq> []) (map trim_space (concat (map (split_on (CHR '','')) (h_values name h))))"

fun merge_new :: "string list \<Rightarrow> string list \<Rightarrow> string list" where
  "merge_new out [] = out"
| "merge_new out (s # ss) = merge_new (if s \<in> set out then out else out @ [s]) ss"

definition mergeUnique :: "string list \<Rightarrow> string list \<Rightarrow> string list" where
  "mergeUnique a b = merge_new (merge_new [] a) b"

text \<open>The slice a failed or successful Unmarshal leaves: elements that are no strings are empty.\<close>

definition string_slice :: "json option \<Rightarrow> string list" where
  "string_slice raw =
     (case raw of
        Some (JArr xs) \<Rightarrow> map (\<lambda>x. case dec_str x of None \<Rightarrow> [] | Some s \<Rightarrow> s) xs
      | _ \<Rightarrow> [])"

definition invoke_map :: "protocol \<Rightarrow> header \<Rightarrow> bool \<Rightarrow> (string \<times> json) list \<Rightarrow> (string \<times> json) list" where
  "invoke_map proto hdr stream m0 =
     (let m = AList.delete ''stream'' (AList.delete ''model'' m0)
      in if proto = EndpointAnthropic then
           (let m1 = AList.update ''anthropic_version'' (JStr bedrockAnthropicVersion) m;
                betas = headerList hdr ''anthropic-beta''
            in if betas = [] then m1
               else AList.update ''anthropic_beta''
                 (JArr (map JStr (mergeUnique (string_slice (map_of m1 ''anthropic_beta'')) betas))) m1)
         else if proto = EndpointOpenAIChat then
           (if \<not> stream then AList.delete ''stream_options'' m else m)
         else m)"

text \<open>
  Unmarshal of null leaves the map nil. Writing to a nil map panics (\<open>None\<close>), which happens for Claude; for the
  other protocols the map is only deleted from, and printed as null again.
\<close>

definition is_null :: "string \<Rightarrow> bool" where
  "is_null body \<longleftrightarrow> json_parse body = Some JNull"

definition adaptInvokeBody :: "protocol \<Rightarrow> string \<Rightarrow> header \<Rightarrow> bool \<Rightarrow> string result option" where
  "adaptInvokeBody proto body hdr stream =
     (if is_null body then (if proto = EndpointAnthropic then None else Some (Inr ''null''))
      else Some (case unmarshal dec_map body of
        None \<Rightarrow> Inl (''bedrock invoke: request body is not a JSON object: '' @ json_err)
      | Some m \<Rightarrow> Inr (json_text (jmap (invoke_map proto hdr stream m)))))"

subsection \<open>The answer\<close>

definition errorType :: "int \<Rightarrow> string" where
  "errorType s =
     (if s = 401 then ''authentication_error'' else if s = 403 then ''permission_error''
      else if s = 404 then ''not_found_error'' else if s = 429 then ''rate_limit_error''
      else if s \<ge> 500 then ''api_error'' else ''invalid_request_error'')"

definition errorBody_json :: "protocol \<Rightarrow> int \<Rightarrow> string \<Rightarrow> json" where
  "errorBody_json proto status msg =
     (if proto = EndpointAnthropic
      then jmap [(''type'', JStr ''error''),
                 (''error'', jmap [(''type'', JStr (errorType status)), (''message'', JStr msg)])]
      else jmap [(''error'', jmap [(''type'', JStr (errorType status)), (''message'', JStr msg),
                                   (''code'', JStr (int_text status))])])"

definition errorBody :: "protocol \<Rightarrow> int \<Rightarrow> string \<Rightarrow> string" where
  "errorBody proto status msg = json_text (errorBody_json proto status msg)"

definition dec_type :: "string decoder" where
  "dec_type j = do { fs \<leftarrow> dec_obj j; get_str ''type'' fs }"

definition sseFrame :: "protocol \<Rightarrow> string \<Rightarrow> string" where
  "sseFrame proto d =
     (if proto = EndpointAnthropic
      then (case unmarshal dec_type d of
              None \<Rightarrow> []
            | Some t \<Rightarrow> if t = [] then [] else ''event: '' @ t @ [CHR 10])
      else [])
     @ ''data: '' @ trim_space d @ [CHR 10, CHR 10]"

datatype stream_exception =
  ThrottlingException | ServiceUnavailableException | ValidationException | ModelTimeoutException | OtherException

fun streamErrorStatus :: "stream_exception \<Rightarrow> int" where
  "streamErrorStatus ThrottlingException = 429"
| "streamErrorStatus ServiceUnavailableException = 503"
| "streamErrorStatus ValidationException = 400"
| "streamErrorStatus ModelTimeoutException = 408"
| "streamErrorStatus OtherException = 500"

datatype invoke_event = ChunkEvent string | UnknownEvent

fun chunk_frames :: "protocol \<Rightarrow> invoke_event list \<Rightarrow> string list" where
  "chunk_frames proto [] = []"
| "chunk_frames proto (ChunkEvent d # evs) = sseFrame proto d # chunk_frames proto evs"
| "chunk_frames proto (UnknownEvent # evs) = chunk_frames proto evs"

text \<open>What a reader of the pipe gets when it reads all of it.\<close>

definition pumpInvokeStream :: "protocol \<Rightarrow> invoke_event list \<Rightarrow> (stream_exception \<times> err) option \<Rightarrow> http_body" where
  "pumpInvokeStream proto evs fin =
     (case fin of
        Some (x, e) \<Rightarrow> \<lparr>bdChunks = chunk_frames proto evs @ [sseFrame proto (errorBody proto (streamErrorStatus x) e)],
                        bdErr = Some (''bedrock invoke stream: '' @ e)\<rparr>
      | None \<Rightarrow> \<lparr>bdChunks = chunk_frames proto evs
                   @ (if proto = EndpointOpenAIChat then [''data: [DONE]'' @ [CHR 10, CHR 10]] else []),
                 bdErr = None\<rparr>)"

text \<open>An error of the SDK: the status of the response behind it (0 when there is none), its text, code and
  message of an API error, and the request id of the response.\<close>

record sdk_error =
  seStatus :: int
  seText :: err
  seAPI :: "(string \<times> string) option"
  seRequestID :: string

definition request_id_header :: "string \<Rightarrow> header" where
  "request_id_header i = (if i = [] then [] else [(''x-amzn-requestid'', i)])"

definition invokeErrorResponse :: "protocol \<Rightarrow> sdk_error \<Rightarrow> upstream_response result" where
  "invokeErrorResponse proto e =
     (if seStatus e = 0 then Inl (seText e)
      else (let msg = (case seAPI e of
                  None \<Rightarrow> seText e
                | Some (c, m) \<Rightarrow> if m = [] then seText e else c @ '': '' @ m)
            in Inr \<lparr>upStatus = seStatus e,
                    upHeader = [(''content-type'', ''application/json'')] @ request_id_header (seRequestID e),
                    upBody = whole_body (errorBody proto (seStatus e) msg)\<rparr>))"

datatype sdk_answer =
    SdkError sdk_error
  | SdkBody string string
  | SdkStream "invoke_event list" "(stream_exception \<times> err) option" string

text \<open>\<open>sdk stream model body\<close> is the answer of the operation; the two that answer are told apart by \<open>stream\<close>.\<close>

definition Invoke :: "(bool \<Rightarrow> string \<Rightarrow> string \<Rightarrow> sdk_answer) \<Rightarrow> protocol \<Rightarrow> string \<Rightarrow> string \<Rightarrow> header \<Rightarrow> bool
    \<Rightarrow> upstream_response result option" where
  "Invoke sdk proto modelID body hdr stream =
     map_option (\<lambda>adapted. rbind adapted (\<lambda>b.
     (case sdk stream modelID b of
        SdkError e \<Rightarrow> invokeErrorResponse proto e
      | SdkBody out i \<Rightarrow> Inr \<lparr>upStatus = 200,
          upHeader = [(''content-type'', ''application/json'')] @ request_id_header i, upBody = whole_body out\<rparr>
      | SdkStream evs fin i \<Rightarrow> Inr \<lparr>upStatus = 200,
          upHeader = [(''content-type'', ''text/event-stream''), (''cache-control'', ''no-cache'')] @ request_id_header i,
          upBody = pumpInvokeStream proto evs fin\<rparr>))) (adaptInvokeBody proto body hdr stream)"

section \<open>Properties\<close>

lemma set_merge_new [simp]: "set (merge_new out ss) = set out \<union> set ss"
  by (induction ss arbitrary: out) auto

lemma distinct_merge_new [simp]: "distinct out \<Longrightarrow> distinct (merge_new out ss)"
  by (induction ss arbitrary: out) auto

lemma merge_new_parts: "\<exists>new. merge_new out ss = out @ new \<and> set new = set ss - set out
    \<and> (distinct out \<longrightarrow> distinct (out @ new))"
proof (induction ss arbitrary: out)
  case (Cons s ss)
  show ?case
  proof (cases "s \<in> set out")
    case False
    with Cons.IH [of "out @ [s]"] obtain new where "merge_new (out @ [s]) ss = (out @ [s]) @ new"
      "set new = set ss - set (out @ [s])" "distinct (out @ [s]) \<longrightarrow> distinct ((out @ [s]) @ new)" by blast
    with False show ?thesis by (intro exI [of _ "s # new"]) auto
  qed (use Cons.IH [of out] in auto)
qed simp

lemma mergeUnique_parts:
  obtains old new where "mergeUnique a b = old @ new" "distinct (old @ new)" "set old = set a" "set new = set b - set old"
proof -
  obtain new where "merge_new (merge_new [] a) b = merge_new [] a @ new" "set new = set b - set (merge_new [] a)"
    "distinct (merge_new [] a) \<longrightarrow> distinct (merge_new [] a @ new)" using merge_new_parts by blast
  with that [of "merge_new [] a" new] show ?thesis by (simp add: mergeUnique_def)
qed

lemma invoke_map_ok: "map_ok m \<Longrightarrow> map_ok (invoke_map proto hdr stream m)"
  by (auto simp: invoke_map_def Let_def)

lemma map_of_updates [simp]:
  "map_of (AList.update k v m) k' = (if k' = k then Some v else map_of m k')"
  "map_of (AList.delete k m) k' = (if k' = k then None else map_of m k')"
  by (simp_all add: update_conv' delete_conv')

lemma invoke_map_lookup:
  "map_of (invoke_map proto hdr stream m) ''model'' = None" "map_of (invoke_map proto hdr stream m) ''stream'' = None"
  "map_of (invoke_map proto hdr stream m) ''anthropic_version'' =
     (if proto = EndpointAnthropic then Some (JStr bedrockAnthropicVersion) else map_of m ''anthropic_version'')"
  "\<not> (proto = EndpointAnthropic \<and> headerList hdr ''anthropic-beta'' \<noteq> []) \<Longrightarrow>
     map_of (invoke_map proto hdr stream m) ''anthropic_beta'' = map_of m ''anthropic_beta''"
  "map_of (invoke_map proto hdr stream m) ''stream_options'' =
     (if proto = EndpointOpenAIChat \<and> \<not> stream then None else map_of m ''stream_options'')"
  "k \<notin> {''model'', ''stream'', ''anthropic_version'', ''anthropic_beta'', ''stream_options''} \<Longrightarrow>
     map_of (invoke_map proto hdr stream m) k = map_of m k"
  by (auto simp: invoke_map_def Let_def endpoint_defs)

text \<open>A body that starts as an object is not null; the gateway's own bodies do.\<close>

lemma object_not_null [simp]: "\<not> is_null (json_text (JObj fs))" "\<not> is_null (json_text (jmap m))"
proof -
  have "json_value f (CHR ''{'' # s) \<noteq> Some (JNull, b)" for f s b by (cases f) (auto simp: json_value.simps)
  then have "\<not> is_null (json_text (JObj fs))" for fs
    by (auto simp: is_null_def json_parse_def json_text.simps simp del: json_value.simps split: option.splits if_splits)
  then show "\<not> is_null (json_text (JObj fs))" "\<not> is_null (json_text (jmap m))" by (simp_all add: jmap_def)
qed

text \<open>What becomes of the members of a body.\<close>

definition adapted_members :: "protocol \<Rightarrow> header \<Rightarrow> bool \<Rightarrow> (string \<times> json) list \<Rightarrow> (string \<times> json) list \<Rightarrow> bool" where
  "adapted_members proto hdr stream m n \<longleftrightarrow>
     map_of n ''model'' = None \<and> map_of n ''stream'' = None
   \<and> map_of n ''anthropic_version'' =
       (if proto = EndpointAnthropic then Some (JStr bedrockAnthropicVersion) else map_of m ''anthropic_version'')
   \<and> (if proto = EndpointAnthropic \<and> headerList hdr ''anthropic-beta'' \<noteq> []
      then \<exists>old new. map_of n ''anthropic_beta'' = Some (JArr (map JStr (old @ new))) \<and> distinct (old @ new)
         \<and> set old = set (string_slice (map_of m ''anthropic_beta''))
         \<and> set new = set (headerList hdr ''anthropic-beta'') - set old
      else map_of n ''anthropic_beta'' = map_of m ''anthropic_beta'')
   \<and> map_of n ''stream_options'' =
       (if proto = EndpointOpenAIChat \<and> \<not> stream then None else map_of m ''stream_options'')
   \<and> (\<forall>k. k \<notin> {''model'', ''stream'', ''anthropic_version'', ''anthropic_beta'', ''stream_options''} \<longrightarrow>
       map_of n k = map_of m k)"

lemma invoke_map_adapted:
  assumes "map_ok (invoke_map proto hdr stream m)"
  shows "adapted_members proto hdr stream m (sort_key fst (invoke_map proto hdr stream m))"
proof -
  let ?n = "invoke_map proto hdr stream m"
  have beta: "\<exists>old new. map_of ?n ''anthropic_beta'' = Some (JArr (map JStr (old @ new))) \<and> distinct (old @ new)
      \<and> set old = set (string_slice (map_of m ''anthropic_beta'')) \<and> set new = set (headerList hdr ''anthropic-beta'') - set old"
    if p: "proto = EndpointAnthropic \<and> headerList hdr ''anthropic-beta'' \<noteq> []"
  proof -
    obtain old new where parts: "mergeUnique (string_slice (map_of m ''anthropic_beta'')) (headerList hdr ''anthropic-beta'') = old @ new"
      "distinct (old @ new)" "set old = set (string_slice (map_of m ''anthropic_beta''))"
      "set new = set (headerList hdr ''anthropic-beta'') - set old" by (rule mergeUnique_parts)
    have "map_of ?n ''anthropic_beta'' = Some (JArr (map JStr (old @ new)))"
      using p parts(1) by (simp add: invoke_map_def Let_def)
    with parts(2-4) show ?thesis by blast
  qed
  show ?thesis
    unfolding adapted_members_def map_of_sorted [OF assms]
    using beta invoke_map_lookup [where proto = proto and hdr = hdr and stream = stream and m = m] by (simp only: if_True if_False split: if_split) blast
qed

text \<open>C40: a client's body that is an object is accepted, and the body sent through InvokeModel carries neither the model
  nor the stream flag; for Claude it names the API version, and its beta flags are those of the body followed by those
  of the header, each once, or the body's own member when the header has none; for Chat Completions the stream options
  stay only when streaming; every other member, these among them for the other protocols, is there unchanged. The only
  body that panics is null, and only for Claude.\<close>

theorem invoke_body_adapted:
  assumes "unmarshal dec_map body = Some m"
  shows "(adaptInvokeBody proto body hdr stream = None \<longleftrightarrow> is_null body \<and> proto = EndpointAnthropic)
   \<and> (\<not> is_null body \<longrightarrow> (\<exists>out n. adaptInvokeBody proto body hdr stream = Some (Inr out)
        \<and> unmarshal dec_map out = Some n \<and> adapted_members proto hdr stream m n))"
proof (intro conjI impI)
  assume null: "\<not> is_null body"
  have ok: "map_ok (invoke_map proto hdr stream m)" using unmarshal_map_ok [OF assms] by (rule invoke_map_ok)
  have "adaptInvokeBody proto body hdr stream = Some (Inr (json_text (jmap (invoke_map proto hdr stream m))))"
    using null by (simp add: adaptInvokeBody_def assms)
  with unmarshal_map [OF ok] invoke_map_adapted [OF ok]
  show "\<exists>out n. adaptInvokeBody proto body hdr stream = Some (Inr out)
      \<and> unmarshal dec_map out = Some n \<and> adapted_members proto hdr stream m n" by blast
qed (auto simp: adaptInvokeBody_def)

lemma invoke_body_adapted_witness:
  "\<exists>out n. adaptInvokeBody EndpointAnthropic (json_text (jmap [(''model'', JStr ''m''), (''x'', JNull)]))
       [(''anthropic-beta'', ''a,b'')] True = Some (Inr out)
     \<and> unmarshal dec_map out = Some n \<and> map_of n ''model'' = None \<and> map_of n ''x'' = Some JNull"
proof -
  have m: "map_ok [(''model'', JStr ''m''), (''x'', JNull)]" by (simp add: map_ok_def)
  from invoke_body_adapted [OF unmarshal_map [OF m], of EndpointAnthropic "[(''anthropic-beta'', ''a,b'')]" True]
  obtain out n where n: "adaptInvokeBody EndpointAnthropic (json_text (jmap [(''model'', JStr ''m''), (''x'', JNull)]))
      [(''anthropic-beta'', ''a,b'')] True = Some (Inr out)" "unmarshal dec_map out = Some n"
    "adapted_members EndpointAnthropic [(''anthropic-beta'', ''a,b'')] True
       (sort_key fst [(''model'', JStr ''m''), (''x'', JNull)]) n" by auto
  have "map_of (sort_key fst [(''model'', JStr ''m''), (''x'', JNull)]) ''x'' = Some JNull"
    unfolding map_of_sorted [OF m] by simp
  with n(3) have "map_of n ''model'' = None" "map_of n ''x'' = Some JNull" by (simp_all add: adapted_members_def)
  with n(1,2) show ?thesis by blast
qed

end
