(* ===== verification/Relay.thy ===== *)
theory Relay
  imports Translator Provider
begin

text \<open>
  \<^verbatim>\<open>proxy/handler.go\<close>, relay and what it uses: the answer of the provider is passed on to the client, as
  it is or translated, while its usage is read; and classifyTruncation, which decides whether a
  stream is billed. A read of the upstream body returns one of the chunks of the body; the client is
  an argument that may refuse a write, or the rest of one, given what it has taken so far (for a status
  that allows no body it refuses every write that is not empty). The scanner is the standard library's,
  with its rules for the end of a line, for the last line and for a line too long; it gives up on a
  reader that returns nothing a hundred times in a row, which the bodies of the HTTP client and the
  pump of an event stream never do. WriteHeader panics on a status that is no status.
\<close>

section \<open>Scanning lines\<close>

definition newline :: char where "newline = CHR 10"

text \<open>The text before the first newline and the text behind it.\<close>

fun take_line :: "string \<Rightarrow> (string \<times> string) option" where
  "take_line [] = None"
| "take_line (c # s) = (if c = newline then Some ([], s) else map_option (apfst (Cons c)) (take_line s))"

lemma take_line_Some: "take_line s = Some (l, r) \<Longrightarrow> s = l @ newline # r \<and> newline \<notin> set l"
  by (induction s arbitrary: l) (auto split: if_splits)

lemma take_line_None: "take_line s = None \<longleftrightarrow> newline \<notin> set s"
  by (induction s) auto

lemma take_line_length: "take_line s = Some (l, r) \<Longrightarrow> length r < length s"
  by (auto dest: take_line_Some)

lemma take_line_append: "newline \<notin> set l \<Longrightarrow> take_line (l @ newline # r) = Some (l, r)"
  by (induction l) auto

definition maxLine :: nat where "maxLine = 16 * 2 ^ 20"

definition ErrTooLong :: err where "ErrTooLong = ''bufio.Scanner: token too long''"

section \<open>The state of a relay\<close>

text \<open>
  \<open>rcClient\<close> is asked with the bytes taken so far and those of the next write: it takes them all, or
  only the first few and gives an error.
  \<open>rcTTFT\<close> is the time from the start of the attempt to the first byte, or to the end of a body that
  is read as a whole, in nanoseconds; \<open>rcRand\<close> counts the random ids drawn.
\<close>

record relay_ctx =
  rcEnv :: env
  rcRand :: nat
  rcClient :: "string \<Rightarrow> string \<Rightarrow> (nat \<times> err) option"
  rcTTFT :: int

record relay_state =
  rsEvent :: string
  rsData :: string
  rsParser :: stream_parser
  rsStream :: "tstream option"
  rsTransErr :: "err option"
  rsDone :: bool
  rsOut :: string
  rsClientErr :: "err option"
  rsFirst :: bool

text \<open>\<open>flushWriter\<close>: after a failed write nothing more is written and no error is returned.\<close>

definition fw_write :: "relay_ctx \<Rightarrow> string \<Rightarrow> relay_state \<Rightarrow> relay_state" where
  "fw_write c p s =
     (if rsClientErr s \<noteq> None then s
      else (case rcClient c (rsOut s) p of
              Some (n, e) \<Rightarrow> s\<lparr>rsClientErr := Some e, rsOut := rsOut s @ take n p\<rparr>
            | None \<Rightarrow> s\<lparr>rsOut := rsOut s @ p\<rparr>))"

definition write_frames :: "relay_ctx \<Rightarrow> frame list \<Rightarrow> relay_state \<Rightarrow> relay_state" where
  "write_frames c fs s = (if stream_bytes fs = [] then s else fw_write c (stream_bytes fs) s)"

text \<open>A read: \<open>firstByteReader\<close>, under a tee to the client when nothing is translated.\<close>

definition on_read :: "relay_ctx \<Rightarrow> string \<Rightarrow> relay_state \<Rightarrow> relay_state" where
  "on_read c p s =
     (let s1 = s\<lparr>rsFirst := rsFirst s \<or> p \<noteq> []\<rparr>
      in if rsStream s = None \<and> p \<noteq> [] then fw_write c p s1 else s1)"

definition translate_event :: "relay_ctx \<Rightarrow> string \<Rightarrow> relay_state \<Rightarrow> relay_state" where
  "translate_event c payload s =
     (case rsStream s of
        None \<Rightarrow> s
      | Some st \<Rightarrow>
          if rsTransErr s \<noteq> None then s
          else (case Stream_Feed (rcEnv c) st payload of
                  (st1, Inr out) \<Rightarrow> write_frames c out (s\<lparr>rsStream := Some st1\<rparr>)
                | (st1, Inl er) \<Rightarrow>
                    (case Stream_Fail (rcEnv c) st1 (''protocol translation failed: '' @ er) of
                       (st2, out) \<Rightarrow> write_frames c out (s\<lparr>rsStream := Some st2, rsTransErr := Some er\<rparr>))))"

definition dispatch :: "relay_ctx \<Rightarrow> relay_state \<Rightarrow> relay_state" where
  "dispatch c s =
     (let s1 = (if rsData s \<noteq> [] \<or> rsEvent s \<noteq> [] then
                  (let payload = trim_suffix [newline] (rsData s)
                   in translate_event c payload (s\<lparr>rsParser := parser_Feed (rsParser s) (rsEvent s) payload\<rparr>))
                else s)
      in s1\<lparr>rsEvent := [], rsData := []\<rparr>)"

definition ended :: "relay_state \<Rightarrow> bool" where
  "ended s \<longleftrightarrow> (case rsStream s of None \<Rightarrow> False | Some st \<Rightarrow> tsEnded st)"

definition drop_cr :: "string \<Rightarrow> string" where
  "drop_cr l = trim_suffix [CHR 13] l"

text \<open>One line: the scanner drops a carriage return at its end, and the loop another one.\<close>

definition on_line :: "relay_ctx \<Rightarrow> string \<Rightarrow> relay_state \<Rightarrow> relay_state" where
  "on_line c raw s =
     (let line = drop_cr (drop_cr raw)
      in if line = [] then (let s1 = dispatch c s in s1\<lparr>rsDone := ended s1\<rparr>)
         else if has_prefix ''event:'' line then s\<lparr>rsEvent := trim_space (drop 6 line)\<rparr>
         else if has_prefix ''data:'' line
         then s\<lparr>rsData := rsData s @ trim_prefix '' '' (drop 5 line) @ [newline]\<rparr>
         else s)"

definition stopped :: "relay_state \<Rightarrow> bool" where
  "stopped s \<longleftrightarrow> rsDone s \<or> rsTransErr s \<noteq> None"

text \<open>The loop around Scan, with the scanner's buffer; the result has the error Scan ended with.\<close>

function relay_loop :: "nat \<Rightarrow> relay_ctx \<Rightarrow> string \<Rightarrow> string list \<Rightarrow> err option \<Rightarrow> relay_state
    \<Rightarrow> relay_state \<times> err option" where
  "relay_loop mx c buf chunks fin s =
     (if stopped s then (s, None)
      else (case take_line buf of
              Some (l, rest) \<Rightarrow> relay_loop mx c rest chunks fin (on_line c l s)
            | None \<Rightarrow>
                if length buf \<ge> mx then (s, Some ErrTooLong)
                else (case chunks of
                        r # rs \<Rightarrow> relay_loop mx c (buf @ r) rs fin (on_read c r s)
                      | [] \<Rightarrow> (if buf = [] then s else on_line c buf s, fin))))"
  by pat_completeness auto
termination
  by (relation "measure (\<lambda>(_, _, buf, chunks, _, _). length buf + length (concat chunks) + length chunks)")
    (auto dest: take_line_length)

declare relay_loop.simps [simp del]

section \<open>The result\<close>

record relay_result =
  rrStatus :: int
  rrTTFT :: int
  rrUsage :: usage
  rrClientErr :: "err option"
  rrUpstreamErr :: "err option"
  rrTranslateErr :: "err option"
  rrTruncated :: string

definition new_result :: "int \<Rightarrow> relay_result" where
  "new_result st = \<lparr>rrStatus = st, rrTTFT = 0, rrUsage = no_usage, rrClientErr = None, rrUpstreamErr = None,
     rrTranslateErr = None, rrTruncated = []\<rparr>"

definition translationResult :: "relay_result \<Rightarrow> string" where
  "translationResult r =
     (if rrTranslateErr r = None then ''ok''
      else if rrTruncated r \<noteq> [] then ''stream_error''
      else ''response_error'')"

definition StatusClientClosedRequest :: int where "StatusClientClosedRequest = 499"

text \<open>The two contexts, at the end of the relay: the request's may have passed its deadline, the
  client's may be done.\<close>

definition classifyTruncation :: "bool \<Rightarrow> bool \<Rightarrow> relay_result \<Rightarrow> relay_result" where
  "classifyTruncation deadline gone r =
     (if rrUpstreamErr r = None \<and> rrClientErr r = None then r
      else (let (t, st) =
                (if deadline then (''request_timeout'', 504)
                 else if rrClientErr r \<noteq> None \<or> gone then (''client_disconnect'', StatusClientClosedRequest)
                 else if rrTranslateErr r \<noteq> None then (''translation_error'', 502)
                 else (''upstream_stream_error'', 502))
            in r\<lparr>rrTruncated := t, rrStatus := st, rrUsage := no_usage\<rparr>))"

text \<open>
  What the client is sent: the bytes that it took. \<open>crPanics\<close> tells that the handler panicked, in
  WriteHeader for the status given or before any (status 0): then nothing is sent.
\<close>

record client_response =
  crStatus :: int
  crHeader :: header
  crBody :: string
  crPanics :: bool

definition no_response :: "int \<Rightarrow> header \<Rightarrow> client_response" where
  "no_response st h = \<lparr>crStatus = st, crHeader = h, crBody = [], crPanics = True\<rparr>"

definition send_body :: "relay_ctx \<Rightarrow> string \<Rightarrow> string \<times> err option" where
  "send_body c b = (case rcClient c [] b of None \<Rightarrow> (b, None) | Some (n, e) \<Rightarrow> (take n b, Some e))"

definition write_error :: "relay_ctx \<Rightarrow> header \<Rightarrow> GatewayError \<Rightarrow> protocol \<Rightarrow> client_response" where
  "write_error c h e p =
     (let r = Write e p; h1 = h_set ''Content-Type'' (hrContentType r) h
      in if hrPanics r then no_response (hrStatus r) h1
         else \<lparr>crStatus = hrStatus r, crHeader = h1, crBody = fst (send_body c (hrBody r)), crPanics = False\<rparr>)"

section \<open>A response that is no stream\<close>

definition maxResponseBody :: nat where "maxResponseBody = 64 * 2 ^ 20"

text \<open>\<open>ReadAll\<close> of a \<open>LimitReader\<close>: what is behind the limit is not read, nor its error.\<close>

definition read_limited :: "nat \<Rightarrow> http_body \<Rightarrow> string result" where
  "read_limited n b =
     (let s = concat (bdChunks b)
      in if length s \<ge> n then Inr (take n s)
         else (case bdErr b of Some e \<Rightarrow> Inl e | None \<Rightarrow> Inr s))"

definition upstream_failed :: "string \<Rightarrow> string \<Rightarrow> GatewayError" where
  "upstream_failed code msg = \<lparr>geStatus = 502, geType = ''api_error'', geCode = code, geMessage = msg\<rparr>"

definition ok2xx :: "int \<Rightarrow> bool" where
  "ok2xx st \<longleftrightarrow> st \<ge> 200 \<and> st < 300"

definition relay_json :: "relay_ctx \<Rightarrow> header \<Rightarrow> int \<Rightarrow> string \<Rightarrow> relay_result \<Rightarrow> client_response \<times> relay_result" where
  "relay_json c h st body res =
     (let h1 = h_set ''Content-Length'' (int_text (int (length body))) h
      in if \<not> header_status st then (no_response st h1, res)
         else (let (out, er) = send_body c body
               in (\<lparr>crStatus = st, crHeader = h1, crBody = out, crPanics = False\<rparr>, res\<lparr>rrClientErr := er\<rparr>)))"

definition relay_body :: "relay_ctx \<Rightarrow> header \<Rightarrow> upstream_response \<Rightarrow> protocol \<Rightarrow> translator option
    \<Rightarrow> client_response \<times> relay_result" where
  "relay_body c h resp proto tr =
     (let res = (new_result (upStatus resp))\<lparr>rrTTFT := rcTTFT c\<rparr>;
          upProto = (case tr of None \<Rightarrow> proto | Some t \<Rightarrow> trTo t)
      in case read_limited (Suc maxResponseBody) (upBody resp) of
           Inl e \<Rightarrow> (write_error c h (upstream_failed ''upstream_error'' ''upstream body read error'') proto,
                      res\<lparr>rrStatus := 502\<rparr>)
         | Inr body \<Rightarrow>
             if length body > maxResponseBody
             then (write_error c h (upstream_failed ''upstream_body_too_large''
                     ''upstream response body exceeds gateway limit'') proto, res\<lparr>rrStatus := 502\<rparr>)
             else (let res1 = (if ok2xx (upStatus resp) then res\<lparr>rrUsage := ParseUsage upProto body\<rparr> else res)
                   in case tr of
                        None \<Rightarrow> relay_json c h (upStatus resp) body res1
                      | Some t \<Rightarrow>
                          if \<not> ok2xx (upStatus resp)
                          then (write_error c h (Translate_Error (upStatus resp) body) proto, res1)
                          else (case Translate_Response t (rcEnv c) (rcRand c) body of
                                  Inl e \<Rightarrow>
                                    (write_error c h (upstream_failed ''translation_error''
                                       (''protocol translation of upstream response failed: '' @ e)) proto,
                                     res1\<lparr>rrTranslateErr := Some e, rrUsage := no_usage, rrStatus := 502\<rparr>)
                                | Inr out \<Rightarrow>
                                    relay_json c (h_set ''Content-Type'' ''application/json'' h) (upStatus resp) out res1)))"

section \<open>A stream\<close>

definition initial_state :: "protocol \<Rightarrow> translator option \<Rightarrow> relay_state" where
  "initial_state proto tr =
     \<lparr>rsEvent = [], rsData = [],
      rsParser = NewStreamParser (case tr of None \<Rightarrow> proto | Some t \<Rightarrow> trTo t),
      rsStream = (case tr of None \<Rightarrow> None | Some t \<Rightarrow> NewStream t),
      rsTransErr = None, rsDone = False, rsOut = [], rsClientErr = None, rsFirst = False\<rparr>"

definition ended_early :: err where
  "ended_early = ''upstream stream ended before a terminal event''"

text \<open>
  What follows the loop. The client's error is taken before Fail writes, so a failure of that last
  write is not in the result.
\<close>

definition relay_end :: "relay_ctx \<Rightarrow> relay_state \<Rightarrow> err option \<Rightarrow> relay_state \<times> err option \<times> err option" where
  "relay_end c s0 scanErr =
     (let s = (if rsTransErr s0 = None then dispatch c s0 else s0);
          clientErr = rsClientErr s;
          up = (if rsDone s then None else scanErr)
      in case rsTransErr s of
           Some e \<Rightarrow> (s, clientErr, Some e)
         | None \<Rightarrow>
             (case rsStream s of
                None \<Rightarrow> (s, clientErr, up)
              | Some st \<Rightarrow>
                  if \<not> tsEnded st \<and> up = None
                  then (case Stream_Fail (rcEnv c) st ''upstream stream ended before completion'' of
                          (st1, out) \<Rightarrow> (write_frames c out (s\<lparr>rsStream := Some st1\<rparr>), clientErr, Some ended_early))
                  else (s, clientErr, up)))"

definition stream_result :: "relay_ctx \<Rightarrow> header \<Rightarrow> int \<Rightarrow> relay_state \<times> err option \<times> err option
    \<Rightarrow> client_response \<times> relay_result" where
  "stream_result c h st r =
     (let (s, clientErr, up) = r
      in (\<lparr>crStatus = st, crHeader = h, crBody = rsOut s, crPanics = False\<rparr>,
          (new_result st)\<lparr>rrTTFT := (if rsFirst s then rcTTFT c else 0), rrUsage := parser_Usage (rsParser s),
            rrClientErr := clientErr, rrUpstreamErr := up, rrTranslateErr := rsTransErr s\<rparr>))"

definition relay_stream :: "relay_ctx \<Rightarrow> header \<Rightarrow> upstream_response \<Rightarrow> protocol \<Rightarrow> translator option
    \<Rightarrow> client_response \<times> relay_result" where
  "relay_stream c h0 resp proto tr =
     (let h = h_set ''X-Accel-Buffering'' ''no'' h0
      in if \<not> header_status (upStatus resp) then (no_response (upStatus resp) h, new_result (upStatus resp))
         else (case relay_loop maxLine c [] (bdChunks (upBody resp)) (bdErr (upBody resp)) (initial_state proto tr) of
                 (s, scanErr) \<Rightarrow> stream_result c h (upStatus resp) (relay_end c s scanErr)))"

fun firstHeader :: "header \<Rightarrow> string list \<Rightarrow> string" where
  "firstHeader h [] = []"
| "firstHeader h (k # ks) = (if h_get k h \<noteq> [] then h_get k h else firstHeader h ks)"

definition forward_header :: "header \<Rightarrow> string \<Rightarrow> header \<Rightarrow> header" where
  "forward_header up k h = (if h_get k up \<noteq> [] then h_set k (h_get k up) h else h)"

definition forwardResponseHeaders :: "string list" where
  "forwardResponseHeaders = [''Content-Type'', ''Cache-Control'']"

definition response_headers :: "header \<Rightarrow> header \<Rightarrow> header" where
  "response_headers up h =
     (let h1 = fold (forward_header up) forwardResponseHeaders h;
          v = firstHeader up [''x-request-id'', ''request-id'', ''x-amzn-requestid'']
      in if v \<noteq> [] then h_set ''X-Upstream-Request-Id'' v h1 else h1)"

definition is_sse :: "header \<Rightarrow> bool" where
  "is_sse h \<longleftrightarrow> has_prefix ''text/event-stream'' (to_lower (h_get ''Content-Type'' h))"

definition relay :: "relay_ctx \<Rightarrow> header \<Rightarrow> upstream_response \<Rightarrow> protocol \<Rightarrow> translator option
    \<Rightarrow> client_response \<times> relay_result" where
  "relay c h0 resp proto tr =
     (let h = response_headers (upHeader resp) h0
      in if is_sse (upHeader resp) then relay_stream c h resp proto tr else relay_body c h resp proto tr)"

end
