(* ===== verification/Router.thy ===== *)
theory Router
  imports ControlPlane "HOL-Library.Multiset"
begin

text \<open>
  The package \<^verbatim>\<open>internal/router\<close>: the snapshot of the route table, the weighted order in which
  the candidates of a model are tried, and the poller that keeps the snapshot fresh. The
  generator of \<^verbatim>\<open>math/rand/v2\<close> is an argument: \<open>rnd k n\<close> is the result of the \<open>k\<close>-th draw
  \<open>rand.IntN(n)\<close>, which is at least 0 and below \<open>n\<close>. IntN panics on \<open>n <= 0\<close>; a panic is \<open>None\<close>.
  Go's int has 64 bits, and the sum of the weights wraps around.
\<close>

section \<open>The snapshot\<close>

record Candidate =
  cProviderCode :: string
  cProviderModelCode :: string
  cProviderProtocol :: string
  cPriority :: int
  cWeight :: int

record snapshot =
  snVersion :: string
  snModels :: "(string \<times> Candidate list list) list"

type_synonym router = "snapshot option"

definition candidate :: "ProviderRoute \<Rightarrow> Candidate" where
  "candidate p = \<lparr>cProviderCode = prProviderCode p, cProviderModelCode = prProviderModelCode p,
     cProviderProtocol = prProviderProtocol p, cPriority = prPriority p,
     cWeight = (if prWeight p \<le> 0 then 1 else prWeight p)\<rparr>"

text \<open>The map from a priority to its candidates, and the tiers in the order of the priorities.\<close>

definition add_prio :: "Candidate \<Rightarrow> (int \<times> Candidate list) list \<Rightarrow> (int \<times> Candidate list) list" where
  "add_prio c m =
     AList.update (cPriority c)
       ((case map_of m (cPriority c) of None \<Rightarrow> [] | Some cs \<Rightarrow> cs) @ [c]) m"

definition tiers_of :: "ProviderRoute list \<Rightarrow> Candidate list list" where
  "tiers_of ps =
     (let byPrio = fold (add_prio \<circ> candidate) ps [];
          prios = sort (map fst byPrio)
      in map (\<lambda>k. the (map_of byPrio k)) prios)"

definition Load :: "Routes \<Rightarrow> router \<Rightarrow> router" where
  "Load routes r = Some
     \<lparr>snVersion = rtVersion routes,
      snModels = fold (\<lambda>m. AList.update (mrModelCode m) (tiers_of (mrProviders m))) (rtModels routes) []\<rparr>"

definition Ready :: "router \<Rightarrow> bool" where
  "Ready r \<longleftrightarrow> r \<noteq> None"

definition Version :: "router \<Rightarrow> string" where
  "Version r = (case r of None \<Rightarrow> [] | Some s \<Rightarrow> snVersion s)"

definition Models :: "router \<Rightarrow> string list" where
  "Models r = (case r of None \<Rightarrow> [] | Some s \<Rightarrow> sort (map fst (snModels s)))"

section \<open>The weighted order\<close>

fun pick_index :: "int \<Rightarrow> Candidate list \<Rightarrow> nat option" where
  "pick_index pick [] = None"
| "pick_index pick (c # cs) =
     (let pick' = wrap64 (pick - cWeight c)
      in if pick' < 0 then Some 0 else map_option Suc (pick_index pick' cs))"

definition total_weight :: "Candidate list \<Rightarrow> int" where
  "total_weight cs = foldl (\<lambda>t c. wrap64 (t + cWeight c)) 0 cs"

definition pick_first :: "int \<Rightarrow> Candidate list \<Rightarrow> nat" where
  "pick_first pick cs = (case pick_index pick cs of None \<Rightarrow> 0 | Some i \<Rightarrow> i)"

lemma pick_index_less: "pick_index p cs = Some i \<Longrightarrow> i < length cs"
  by (induction p cs arbitrary: i rule: pick_index.induct) (auto simp: Let_def split: if_splits)

lemma pick_first_less [simp]: "cs \<noteq> [] \<Longrightarrow> pick_first p cs < length cs"
  by (auto simp: pick_first_def dest: pick_index_less split: option.split)

definition remove_nth :: "nat \<Rightarrow> 'a list \<Rightarrow> 'a list" where
  "remove_nth i xs = take i xs @ drop (Suc i) xs"

lemma length_remove_nth [simp]: "i < length xs \<Longrightarrow> length (remove_nth i xs) = length xs - 1"
  by (simp add: remove_nth_def)

type_synonym rand = "nat \<Rightarrow> int \<Rightarrow> int"

function weighted_loop :: "rand \<Rightarrow> nat \<Rightarrow> Candidate list \<Rightarrow> (Candidate list \<times> nat) option" where
  "weighted_loop rnd k rem =
     (if rem = [] then Some ([], k)
      else let total = total_weight rem
           in if total \<le> 0 then None
              else let idx = pick_first (rnd k total) rem
                   in map_option (\<lambda>(out, k'). (rem ! idx # out, k'))
                        (weighted_loop rnd (Suc k) (remove_nth idx rem)))"
  by auto
termination by (relation "measure (\<lambda>(_, _, rem). length rem)") auto

declare weighted_loop.simps [simp del]

definition weightedOrder :: "rand \<Rightarrow> nat \<Rightarrow> Candidate list \<Rightarrow> (Candidate list \<times> nat) option" where
  "weightedOrder rnd k tier =
     (if length tier = 1 then Some ([tier ! 0], k) else weighted_loop rnd k tier)"

fun all_tiers :: "rand \<Rightarrow> nat \<Rightarrow> Candidate list list \<Rightarrow> (Candidate list \<times> nat) option" where
  "all_tiers rnd k [] = Some ([], k)"
| "all_tiers rnd k (t # ts) =
     (case weightedOrder rnd k t of
        None \<Rightarrow> None
      | Some (o1, k1) \<Rightarrow> map_option (\<lambda>(o2, k2). (o1 @ o2, k2)) (all_tiers rnd k1 ts))"

definition Attempts :: "rand \<Rightarrow> nat \<Rightarrow> router \<Rightarrow> string \<Rightarrow> (Candidate list \<times> nat) option" where
  "Attempts rnd k r model =
     (case r of
        None \<Rightarrow> Some ([], k)
      | Some s \<Rightarrow>
          (case map_of (snModels s) model of
             None \<Rightarrow> Some ([], k)
           | Some tiers \<Rightarrow> all_tiers rnd k tiers))"

section \<open>The poller\<close>

record poller =
  poRouter :: router
  poEtag :: string
  poRejected :: nat

datatype sync_result = SyncOK | SyncFailed err | ErrEmptyRoutes

definition Sync :: "exchange \<Rightarrow> poller \<Rightarrow> sync_result \<times> poller" where
  "Sync ex p =
     (case FetchRoutes ex (poEtag p) of
        Inl NotModified \<Rightarrow> (SyncOK, p)
      | Inl (FetchFailed e) \<Rightarrow> (SyncFailed e, p)
      | Inr (routes, etag) \<Rightarrow>
          if rtModels routes = [] \<and> Models (poRouter p) \<noteq> []
          then (ErrEmptyRoutes, p\<lparr>poRejected := Suc (poRejected p)\<rparr>)
          else (SyncOK, p\<lparr>poRouter := Load routes (poRouter p), poEtag := etag\<rparr>))"

text \<open>Run: one Sync per tick; its error is logged and the next tick tries again.\<close>

definition Run :: "exchange list \<Rightarrow> poller \<Rightarrow> poller" where
  "Run exs p = fold (\<lambda>ex q. snd (Sync ex q)) exs p"

section \<open>Tiers\<close>

lemma fold_update_lookup:
  "map_of (fold (\<lambda>m. AList.update (f m) (g m)) ms acc) k =
     (case map_of (rev (map (\<lambda>m. (f m, g m)) ms)) k of None \<Rightarrow> map_of acc k | Some v \<Rightarrow> Some v)"
  by (induction ms arbitrary: acc) (auto simp: update_conv' map_add_def split: option.split)

lemma add_prio_lookup:
  "map_of (add_prio c m) k =
     (if k = cPriority c
      then Some ((case map_of m k of None \<Rightarrow> [] | Some cs \<Rightarrow> cs) @ [c]) else map_of m k)"
  by (simp add: add_prio_def update_conv')

lemma map_of_groups:
  "map_of (fold add_prio cs []) k =
     (if \<exists>c \<in> set cs. cPriority c = k then Some (filter (\<lambda>c. cPriority c = k) cs) else None)"
proof (induction cs rule: rev_induct)
  case (snoc x xs)
  then show ?case
    by (cases "\<exists>c \<in> set xs. cPriority c = k") (auto simp: add_prio_lookup)
qed simp

lemma fold_add_prio_distinct: "distinct (map fst m) \<Longrightarrow> distinct (map fst (fold add_prio cs m))"
  by (induction cs arbitrary: m) (simp_all add: add_prio_def distinct_update)

lemma groups_keys:
  "sort (map fst (fold add_prio cs [])) = sorted_list_of_set (cPriority ` set cs)"
proof (rule sorted_distinct_set_unique)
  have "fst ` set (fold add_prio cs []) = dom (map_of (fold add_prio cs []))"
    by (simp add: dom_map_of_conv_image_fst)
  also have "\<dots> = cPriority ` set cs"
    by (auto simp: map_of_groups dom_def)
  finally show "set (sort (map fst (fold add_prio cs []))) = set (sorted_list_of_set (cPriority ` set cs))"
    by simp
qed (simp_all add: fold_add_prio_distinct)

lemma tiers_of_eq:
  "tiers_of ps = (let cs = map candidate ps in
     map (\<lambda>k. filter (\<lambda>c. cPriority c = k) cs) (sorted_list_of_set (cPriority ` set cs)))"
proof -
  have "fold (add_prio \<circ> candidate) ps [] = fold add_prio (map candidate ps) []"
    by (simp add: fold_map)
  then show ?thesis
    by (auto simp: tiers_of_def Let_def groups_keys map_of_groups simp del: set_map)
qed

lemma mset_filter_keys:
  assumes "distinct ks" and "f ` set cs \<subseteq> set ks"
  shows "mset (concat (map (\<lambda>k. filter (\<lambda>c. f c = k) cs) ks)) = mset cs"
  using assms
proof (induction ks arbitrary: cs)
  case (Cons k ks)
  let ?r = "filter (\<lambda>c. f c \<noteq> k) cs"
  have "filter (\<lambda>c. f c = j) ?r = filter (\<lambda>c. f c = j) cs" if "j \<in> set ks" for j
    using that Cons.prems(1) by (auto simp: filter_filter intro!: filter_cong)
  then have m: "map (\<lambda>j. filter (\<lambda>c. f c = j) ?r) ks = map (\<lambda>j. filter (\<lambda>c. f c = j) cs) ks"
    by simp
  have "mset (concat (map (\<lambda>j. filter (\<lambda>c. f c = j) ?r) ks)) = mset ?r"
    using Cons.prems by (intro Cons.IH) auto
  then have r: "mset (concat (map (\<lambda>j. filter (\<lambda>c. f c = j) cs) ks)) = mset ?r"
    unfolding m .
  have "mset (filter (\<lambda>c. f c = k) cs) + mset ?r = mset cs"
    using multiset_partition [of "mset cs" "\<lambda>c. f c = k"] by (simp only: mset_filter)
  with r show ?case by (simp only: list.map concat.simps mset_append)
qed simp

lemma mset_tiers: "mset (concat (tiers_of ps)) = mset (map candidate ps)"
  unfolding tiers_of_eq Let_def by (rule mset_filter_keys) simp_all

section \<open>The weighted order is a permutation\<close>

definition weights_fit :: "Candidate list \<Rightarrow> bool" where
  "weights_fit cs \<longleftrightarrow> (\<forall>c \<in> set cs. 1 \<le> cWeight c) \<and> sum_list (map cWeight cs) < 2 ^ 63"

lemma sum_nonneg: "\<forall>c \<in> set cs. 1 \<le> cWeight c \<Longrightarrow> 0 \<le> sum_list (map cWeight cs)"
  by (induction cs) auto

lemma foldl_weights:
  "\<forall>c \<in> set cs. 1 \<le> cWeight c \<Longrightarrow> 0 \<le> t \<Longrightarrow> t + sum_list (map cWeight cs) < 2 ^ 63 \<Longrightarrow>
   foldl (\<lambda>t c. wrap64 (t + cWeight c)) t cs = t + sum_list (map cWeight cs)"
proof (induction cs arbitrary: t)
  case (Cons c cs)
  then have "0 \<le> sum_list (map cWeight cs)" using sum_nonneg [of cs] by auto
  with Cons.prems have "wrap64 (t + cWeight c) = t + cWeight c"
    by (intro wrap64_id) (auto simp: in_i64_def)
  with Cons show ?case by simp
qed simp

lemma total_weight_fit: "weights_fit cs \<Longrightarrow> total_weight cs = sum_list (map cWeight cs)"
  by (simp add: total_weight_def weights_fit_def foldl_weights)

lemma total_weight_pos: "weights_fit cs \<Longrightarrow> cs \<noteq> [] \<Longrightarrow> 0 < total_weight cs"
  unfolding total_weight_fit using sum_nonneg [of "tl cs"]
  by (cases cs) (auto simp: weights_fit_def)

lemma mset_remove_nth: "i < length xs \<Longrightarrow> add_mset (xs ! i) (mset (remove_nth i xs)) = mset xs"
  by (metis append_take_drop_id id_take_nth_drop mset.simps(2) mset_append remove_nth_def
      union_mset_add_mset_right)

lemma sum_remove_nth:
  "i < length xs \<Longrightarrow> sum_list (map cWeight xs) = cWeight (xs ! i) + sum_list (map cWeight (remove_nth i xs))"
  by (metis (no_types, lifting) image_mset_add_mset mset_map mset_remove_nth sum_mset.add_mset
      sum_mset_sum_list)

lemma weights_fit_remove:
  assumes "weights_fit xs" and "i < length xs"
  shows "weights_fit (remove_nth i xs)"
proof -
  have "set (remove_nth i xs) \<subseteq> set xs"
    by (auto simp: remove_nth_def dest: in_set_takeD in_set_dropD)
  moreover have "1 \<le> cWeight (xs ! i)" using assms by (simp add: weights_fit_def)
  moreover have "sum_list (map cWeight xs) < 2 ^ 63" "\<forall>c \<in> set xs. 1 \<le> cWeight c"
    using assms(1) by (simp_all add: weights_fit_def)
  ultimately show ?thesis
    using sum_remove_nth [OF assms(2)] unfolding weights_fit_def by (intro conjI; fastforce)
qed

lemma weighted_loop_permutes:
  "weights_fit cs \<Longrightarrow> \<exists>out. weighted_loop rnd k cs = Some (out, k + length cs) \<and> mset out = mset cs"
proof (induction rnd k cs rule: weighted_loop.induct)
  case (1 rnd k cs)
  show ?case
  proof (cases "cs = []")
    case False
    let ?i = "pick_first (rnd k (total_weight cs)) cs"
    have i: "?i < length cs" using False by simp
    have t: "\<not> total_weight cs \<le> 0" using total_weight_pos [OF 1(2) False] by simp
    from 1(1) [OF False refl t refl weights_fit_remove [OF 1(2) i]]
    obtain out where "weighted_loop rnd (Suc k) (remove_nth ?i cs)
        = Some (out, Suc k + length (remove_nth ?i cs))" "mset out = mset (remove_nth ?i cs)" by blast
    with False t i show ?thesis
      by (subst weighted_loop.simps) (auto simp: Let_def mset_remove_nth)
  qed (simp add: weighted_loop.simps)
qed

lemma weightedOrder_permutes:
  "weights_fit cs \<Longrightarrow> \<exists>out k'. weightedOrder rnd k cs = Some (out, k') \<and> mset out = mset cs"
  using weighted_loop_permutes [of cs rnd k]
  by (cases cs) (auto simp: weightedOrder_def)

lemma all_tiers_permutes:
  "\<forall>t \<in> set ts. weights_fit t \<Longrightarrow>
   \<exists>out k'. all_tiers rnd k ts = Some (concat out, k') \<and> list_all2 (\<lambda>u t. mset u = mset t) out ts"
proof (induction ts arbitrary: k)
  case (Cons t ts)
  obtain o1 k1 where o1: "weightedOrder rnd k t = Some (o1, k1)" "mset o1 = mset t"
    using weightedOrder_permutes [of t rnd k] Cons.prems by auto
  obtain out k' where "all_tiers rnd k1 ts = Some (concat out, k')" "list_all2 (\<lambda>u t. mset u = mset t) out ts"
    using Cons.IH [of k1] Cons.prems by auto
  with o1 show ?case by (intro exI [of _ "o1 # out"]) simp
qed simp

lemma concat_permutes: "list_all2 (\<lambda>u t. mset u = mset t) us ts \<Longrightarrow> mset (concat us) = mset (concat ts)"
  by (induction rule: list_all2_induct) simp_all

lemma weights_fit_sub:
  assumes "\<forall>c \<in> set cs. 1 \<le> cWeight c" and "sum_list (map cWeight cs) < 2 ^ 63"
  shows "weights_fit (filter P cs)"
proof -
  have "sum_list (map cWeight (filter P cs)) \<le> sum_list (map cWeight cs)"
    using assms(1) by (induction cs) auto
  with assms show ?thesis by (auto simp: weights_fit_def)
qed

text \<open>Tiers in ascending priority: the orders of tiers, each of one priority, are sorted together.\<close>

lemma sorted_tiers:
  "sorted ks \<Longrightarrow> list_all2 (\<lambda>u k. \<forall>c \<in> set u. cPriority c = k) us ks \<Longrightarrow>
   sorted (map cPriority (concat us))"
proof (induction ks arbitrary: us)
  case (Cons k ks)
  then obtain u vs where us: "us = u # vs" "\<forall>c \<in> set u. cPriority c = k"
      "list_all2 (\<lambda>u k. \<forall>c \<in> set u. cPriority c = k) vs ks"
    by (auto simp: list_all2_Cons2)
  have "\<forall>c \<in> set (concat vs). cPriority c \<in> set ks"
    using us(3) by (induction rule: list_all2_induct) auto
  moreover have "map cPriority u = replicate (length u) k"
    using us(2) by (induction u) auto
  ultimately show ?case using Cons us by (auto simp: sorted_append)
qed simp

text \<open>The route of a model in a table: the last entry counts.\<close>

definition route_of :: "Routes \<Rightarrow> string \<Rightarrow> ProviderRoute list option" where
  "route_of routes code = map_of (rev (map (\<lambda>m. (mrModelCode m, mrProviders m)) (rtModels routes))) code"

lemma Load_lookup:
  "Attempts rnd k (Load routes r) code =
     (case route_of routes code of None \<Rightarrow> Some ([], k) | Some ps \<Rightarrow> all_tiers rnd k (tiers_of ps))"
proof -
  have "map_of (rev (map (\<lambda>m. (mrModelCode m, tiers_of (mrProviders m))) ms)) c
      = map_option tiers_of (map_of (rev (map (\<lambda>m. (mrModelCode m, mrProviders m)) ms)) c)" for ms c
    by (induction ms) (auto simp: map_add_def split: option.split)
  note * = this
  show ?thesis
    by (cases "route_of routes code")
      (simp_all add: Attempts_def Load_def fold_update_lookup * route_of_def [symmetric])
qed

definition route_weights_fit :: "ProviderRoute list \<Rightarrow> bool" where
  "route_weights_fit ps \<longleftrightarrow> sum_list (map (cWeight \<circ> candidate) ps) < 2 ^ 63"

lemma Attempts_spec:
  assumes "route_of routes code = Some ps" and "route_weights_fit ps"
  shows "\<exists>out k'. Attempts rnd k (Load routes r) code = Some (out, k')
    \<and> mset out = mset (map candidate ps) \<and> sorted (map cPriority out)
    \<and> (\<forall>c \<in> set out. 1 \<le> cWeight c)"
proof -
  let ?cs = "map candidate ps"
  let ?ks = "sorted_list_of_set (cPriority ` set ?cs)"
  have w: "\<forall>c \<in> set ?cs. 1 \<le> cWeight c" by (auto simp: candidate_def)
  have sum: "sum_list (map cWeight ?cs) < 2 ^ 63" using assms(2) by (simp add: route_weights_fit_def)
  have ts: "tiers_of ps = map (\<lambda>k. filter (\<lambda>c. cPriority c = k) ?cs) ?ks"
    by (simp only: tiers_of_eq Let_def)
  have "\<forall>t \<in> set (tiers_of ps). weights_fit t"
    unfolding ts using weights_fit_sub [OF w sum] by auto
  from all_tiers_permutes [OF this] obtain us k' where
      us: "all_tiers rnd k (tiers_of ps) = Some (concat us, k')"
      "list_all2 (\<lambda>u t. mset u = mset t) us (tiers_of ps)" by blast
  have m: "mset (concat us) = mset ?cs"
    using concat_permutes [OF us(2)] mset_tiers [of ps] by simp
  have "\<forall>c \<in> set u. cPriority c = k" if "mset u = mset (filter (\<lambda>c. cPriority c = k) ?cs)" for u k
    using mset_eq_setD [OF that] by auto
  moreover have "list_all2 (\<lambda>u k. mset u = mset (filter (\<lambda>c. cPriority c = k) ?cs)) us ?ks"
    using us(2) unfolding ts list_all2_map2 .
  ultimately have "list_all2 (\<lambda>u k. \<forall>c \<in> set u. cPriority c = k) us ?ks"
    by (rule list_all2_mono [rotated])
  then have "sorted (map cPriority (concat us))" by (intro sorted_tiers) simp_all
  moreover have "\<forall>c \<in> set (concat us). 1 \<le> cWeight c"
    using w mset_eq_setD [OF m] by simp
  ultimately show ?thesis using us(1) m assms(1) by (auto simp: Load_lookup)
qed

text \<open>C21: as long as the weights of a route add up to less than 2^63, the router does not panic, and the
  attempts of a model are exactly the candidates of its (last) route, each once, in ascending priority, whatever the
  random numbers are; a weight that is not positive counts as one.\<close>

theorem Attempts_permutation:
  assumes "route_of routes code = Some ps" and "route_weights_fit ps"
  shows "\<exists>out k'. Attempts rnd k (Load routes r) code = Some (out, k')
    \<and> mset out = mset (map candidate ps) \<and> sorted (map cPriority out)
    \<and> (\<forall>c \<in> set out. 1 \<le> cWeight c)"
  by (rule Attempts_spec [OF assms])

definition sample_route :: Routes where
  "sample_route = \<lparr>rtVersion = ''v1'', rtModels =
     [\<lparr>mrModelCode = ''m'', mrProviders =
        [\<lparr>prProviderCode = ''b'', prProviderModelCode = ''x'', prPriority = 2, prWeight = 0,
           prProviderProtocol = []\<rparr>,
         \<lparr>prProviderCode = ''a'', prProviderModelCode = ''y'', prPriority = 1, prWeight = 7,
           prProviderProtocol = ''anthropic''\<rparr>]\<rparr>]\<rparr>"

lemma Attempts_permutation_witness:
  "\<exists>out k'. Attempts (\<lambda>k n. 0) 0 (Load sample_route None) ''m'' = Some (out, k')
     \<and> length out = 2 \<and> sorted (map cPriority out)"
proof -
  let ?ps = "mrProviders (hd (rtModels sample_route))"
  have "route_of sample_route ''m'' = Some ?ps"
    by (simp add: route_of_def sample_route_def)
  moreover have "route_weights_fit ?ps"
    by (simp add: route_weights_fit_def candidate_def sample_route_def)
  ultimately obtain out k' where *: "Attempts (\<lambda>k n. 0) 0 (Load sample_route None) ''m'' = Some (out, k')"
      "mset out = mset (map candidate ?ps)" "sorted (map cPriority out)"
    using Attempts_permutation by blast
  then have "length out = 2"
    by (simp add: sample_route_def mset_eq_length [OF *(2)])
  with * show ?thesis by blast
qed

section \<open>The distribution of the first pick\<close>

lemma pick_index_eq:
  assumes "weights_fit cs" and "0 \<le> x" and "x < 2 ^ 63"
  shows "pick_index x cs = Some i \<longleftrightarrow>
    i < length cs \<and> sum_list (map cWeight (take i cs)) \<le> x \<and> x < sum_list (map cWeight (take (Suc i) cs))"
  using assms
proof (induction x cs arbitrary: i rule: pick_index.induct)
  case (2 x c cs)
  have c: "1 \<le> cWeight c" "\<forall>c \<in> set cs. 1 \<le> cWeight c" "weights_fit cs"
    using 2(2) sum_nonneg [of cs] by (auto simp: weights_fit_def)
  have "cWeight c < 2 ^ 63"
    using 2(2) sum_nonneg [of cs] by (auto simp: weights_fit_def)
  with 2(3,4) c have w: "wrap64 (x - cWeight c) = x - cWeight c"
    by (intro wrap64_id) (auto simp: in_i64_def)
  have nn: "0 \<le> sum_list (map cWeight (take j cs))" for j
    using c(2) by (intro sum_nonneg) (auto dest: in_set_takeD)
  show ?case
  proof (cases "x < cWeight c")
    case True
    have "i = 0" if "cWeight c + sum_list (map cWeight (take j cs)) \<le> x" "i = Suc j" for j
      using that nn [of j] True by simp
    with True w 2(3) show ?thesis by (cases i) auto
  next
    case False
    with 2(1) [OF refl] w c 2(4) have
      IH: "pick_index (x - cWeight c) cs = Some j \<longleftrightarrow> j < length cs
        \<and> sum_list (map cWeight (take j cs)) \<le> x - cWeight c
        \<and> x - cWeight c < sum_list (map cWeight (take (Suc j) cs))" for j
      by (simp only: not_less)
    have p: "pick_index x (c # cs) = map_option Suc (pick_index (x - cWeight c) cs)"
      using False w by (simp add: Let_def)
    show ?thesis
    proof (cases i)
      case 0
      then show ?thesis using False p by simp
    next
      case (Suc j)
      have "pick_index x (c # cs) = Some (Suc j) \<longleftrightarrow> pick_index (x - cWeight c) cs = Some j"
        unfolding p by auto
      also have "\<dots> \<longleftrightarrow> j < length cs \<and> cWeight c + sum_list (map cWeight (take j cs)) \<le> x
          \<and> x < cWeight c + sum_list (map cWeight (take (Suc j) cs))"
        unfolding IH by linarith
      finally show ?thesis unfolding Suc by simp
    qed
  qed
qed simp

text \<open>C32: the draw is weighted as intended: of the numbers \<open>IntN(total)\<close> can return, exactly
  \<open>weight\<close> many pick a given candidate first, so with a uniform generator its chance is its
  weight over the total, and no number falls through to the default index.\<close>

theorem pick_distribution:
  assumes "weights_fit cs" and "i < length cs"
  shows "card {x \<in> {0..<total_weight cs}. pick_index x cs = Some i} = nat (cWeight (cs ! i))"
proof -
  let ?s = "\<lambda>j. sum_list (map cWeight (take j cs))"
  have t: "total_weight cs = sum_list (map cWeight cs)" using assms(1) by (rule total_weight_fit)
  have nn: "0 \<le> sum_list (map cWeight (take j cs))" "0 \<le> sum_list (map cWeight (drop j cs))" for j
    using assms(1) by (auto simp: weights_fit_def intro!: sum_nonneg dest: in_set_takeD in_set_dropD)
  have sum: "?s (Suc i) + sum_list (map cWeight (drop (Suc i) cs)) = total_weight cs"
    unfolding t by (metis append_take_drop_id map_append sum_list_append)
  have le: "0 \<le> ?s i" "?s (Suc i) \<le> total_weight cs"
    using nn(1) [of i] nn(2) [of "Suc i"] sum by linarith+
  have "total_weight cs < 2 ^ 63" unfolding t using assms(1) by (simp add: weights_fit_def)
  with le assms have "{x \<in> {0..<total_weight cs}. pick_index x cs = Some i} = {?s i..<?s (Suc i)}"
    by (auto simp: pick_index_eq)
  moreover have "?s (Suc i) = ?s i + cWeight (cs ! i)"
    using assms(2) by (simp add: take_Suc_conv_app_nth)
  ultimately show ?thesis by simp
qed

lemma pick_distribution_witness:
  "card {x \<in> {0..<total_weight (map candidate (mrProviders (hd (rtModels sample_route))))}.
     pick_index x (map candidate (mrProviders (hd (rtModels sample_route)))) = Some 1} = 7"
  using pick_distribution [of "map candidate (mrProviders (hd (rtModels sample_route)))" 1]
  by (simp add: weights_fit_def candidate_def sample_route_def)

section \<open>Weights that do not fit\<close>

text \<open>Two candidates of one priority.\<close>

definition two_providers :: "int \<Rightarrow> int \<Rightarrow> Routes" where
  "two_providers w1 w2 = \<lparr>rtVersion = ''v'', rtModels = [\<lparr>mrModelCode = ''m'', mrProviders =
     [\<lparr>prProviderCode = ''a'', prProviderModelCode = ''x'', prPriority = 0, prWeight = w1,
        prProviderProtocol = []\<rparr>,
      \<lparr>prProviderCode = ''b'', prProviderModelCode = ''x'', prPriority = 0, prWeight = w2,
        prProviderProtocol = []\<rparr>]\<rparr>]\<rparr>"

text \<open>The bound of \<open>Attempts_permutation\<close> is sharp: two weights that are legal integers of the table but add
  up to 2^63 or more make the sum negative, and every lookup of the model panics in \<open>IntN\<close>.\<close>

theorem Attempts_overflow_panics:
  assumes "0 < w1" and "0 < w2" and "in_i64 w1" and "in_i64 w2" and "2 ^ 63 \<le> w1 + w2"
  shows "Attempts rnd k (Load (two_providers w1 w2) r) ''m'' = None"
proof -
  let ?cs = "map candidate (mrProviders (hd (rtModels (two_providers w1 w2))))"
  have route: "route_of (two_providers w1 w2) ''m'' = Some (mrProviders (hd (rtModels (two_providers w1 w2))))"
    by (simp add: two_providers_def route_of_def)
  have tiers: "tiers_of (mrProviders (hd (rtModels (two_providers w1 w2)))) = [?cs]"
    by (simp add: tiers_of_eq Let_def two_providers_def candidate_def)
  have r: "in_i64 (w1 + w2 - 2 ^ 64)" "w1 + w2 - 2 ^ 64 < 0"
    using assms by (auto simp: in_i64_def)
  have "i64_of (w1 + w2) = i64_of (w1 + w2 - 2 ^ 64)"
    by (simp add: i64_of_def)
  then have "wrap64 (w1 + w2) = w1 + w2 - 2 ^ 64"
    using r(1) by (simp add: wrap64_def)
  then have "total_weight ?cs < 0"
    using assms r(2) by (simp add: total_weight_def two_providers_def candidate_def)
  moreover have "length ?cs = 2" by (simp add: two_providers_def)
  ultimately have "weightedOrder rnd k ?cs = None"
    by (subst weightedOrder_def, subst weighted_loop.simps) auto
  then show ?thesis unfolding Load_lookup route by (simp only: option.case tiers all_tiers.simps)
qed

lemma Attempts_overflow_panics_witness:
  "Attempts (\<lambda>k n. 0) 0 (Load (two_providers (2 ^ 62) (2 ^ 62)) None) ''m'' = None"
  by (rule Attempts_overflow_panics) (simp_all add: in_i64_def)

section \<open>The poller keeps a good snapshot\<close>

text \<open>
  What the poller relies on in the router: the models listed after a table is loaded are those
  of the table. A client of this interface that refuses an empty table over a snapshot with
  models, as Sync does, never loses the models.
\<close>

locale route_store =
  fixes load :: "'t \<Rightarrow> 's \<Rightarrow> 's"
    and models :: "'s \<Rightarrow> string list"
    and codes :: "'t \<Rightarrow> string list"
  assumes models_load: "set (models (load t s)) = set (codes t)"
begin

definition guarded :: "'t \<Rightarrow> 's \<Rightarrow> 's" where
  "guarded t s = (if codes t = [] \<and> models s \<noteq> [] then s else load t s)"

lemma models_empty: "models (load t s) = [] \<longleftrightarrow> codes t = []"
  by (metis models_load set_empty2)

lemma guarded_keeps: "models s \<noteq> [] \<Longrightarrow> models (guarded t s) \<noteq> []"
  by (simp add: guarded_def models_empty)

lemma guarded_fold: "models s \<noteq> [] \<Longrightarrow> models (fold guarded ts s) \<noteq> []"
  by (induction ts arbitrary: s) (simp_all add: guarded_keeps)

end

definition route_codes :: "Routes \<Rightarrow> string list" where
  "route_codes t = map mrModelCode (rtModels t)"

lemma keys_fold_update:
  "fst ` set (fold (\<lambda>m. AList.update (f m) (g m)) ms acc) = f ` set ms \<union> fst ` set acc"
  by (induction ms arbitrary: acc) (auto simp: dom_update)

interpretation table: route_store Load Models route_codes
  by unfold_locales (simp add: Models_def Load_def route_codes_def keys_fold_update)

text \<open>One poll as a step of the poller: nothing new, a failure, a refused table, a loaded one.\<close>

inductive poll_step :: "poller \<Rightarrow> poller \<Rightarrow> bool" where
  not_modified: "poll_step p p"
| refused: "Models (poRouter p) \<noteq> [] \<Longrightarrow> poll_step p (p\<lparr>poRejected := Suc (poRejected p)\<rparr>)"
| loaded: "FetchRoutes ex (poEtag p) = Inr (t, e) \<Longrightarrow> route_codes t \<noteq> [] \<or> Models (poRouter p) = [] \<Longrightarrow>
    poll_step p (p\<lparr>poRouter := Load t (poRouter p), poEtag := e\<rparr>)"

inductive_cases poll_stepE: "poll_step p q"

lemma Sync_step: "poll_step p (snd (Sync ex p))"
  by (auto simp: Sync_def route_codes_def intro: poll_step.intros
      split: sum.splits fetch_error.splits prod.splits)

lemma Run_steps: "poll_step\<^sup>*\<^sup>* p (Run exs p)"
proof (induction exs rule: rev_induct)
  case (snoc ex exs)
  then show ?case using Sync_step [of "Run exs p" ex] by (simp add: Run_def)
qed (simp add: Run_def)

lemma poll_step_models: "poll_step p q \<Longrightarrow> Models (poRouter p) \<noteq> [] \<Longrightarrow> Models (poRouter q) \<noteq> []"
  by (erule poll_stepE) (simp_all add: table.models_empty)

lemma Run_models: "Models (poRouter p) \<noteq> [] \<Longrightarrow> Models (poRouter (Run exs p)) \<noteq> []"
proof -
  have "Models (poRouter q) \<noteq> []" if "poll_step\<^sup>*\<^sup>* p q" "Models (poRouter p) \<noteq> []" for q
    using that by (induction rule: rtranclp_induct) (auto dest: poll_step_models)
  then show "Models (poRouter p) \<noteq> [] \<Longrightarrow> Models (poRouter (Run exs p)) \<noteq> []" using Run_steps by blast
qed

text \<open>An exchange that brings no table with models to a poller that sends this ETag.\<close>

definition brings_nothing :: "string \<Rightarrow> exchange \<Rightarrow> bool" where
  "brings_nothing etag ex \<longleftrightarrow> (case FetchRoutes ex etag of Inl e \<Rightarrow> True | Inr (t, e) \<Rightarrow> rtModels t = [])"

text \<open>What a poller that has models knows after some polls: what it knew before, or the table of the last exchange that
  brought one, with the ETag of that same exchange.\<close>

definition follows :: "poller \<Rightarrow> exchange list \<Rightarrow> poller \<Rightarrow> bool" where
  "follows p exs q \<longleftrightarrow>
     (poRouter q = poRouter p \<and> poEtag q = poEtag p \<and> list_all (brings_nothing (poEtag p)) exs)
   \<or> (\<exists>xs ex ys t e. exs = xs @ ex # ys \<and> FetchRoutes ex (poEtag (Run xs p)) = Inr (t, e) \<and> rtModels t \<noteq> []
        \<and> poRouter q = Load t (poRouter (Run xs p)) \<and> poEtag q = e \<and> list_all (brings_nothing e) ys)"

lemma Run_snoc: "Run (exs @ [ex]) p = snd (Sync ex (Run exs p))"
  by (simp add: Run_def)

lemma Sync_quiet:
  "brings_nothing (poEtag q) ex \<Longrightarrow> Models (poRouter q) \<noteq> [] \<Longrightarrow>
   poRouter (snd (Sync ex q)) = poRouter q \<and> poEtag (snd (Sync ex q)) = poEtag q"
  by (auto simp: Sync_def brings_nothing_def split: sum.splits fetch_error.splits prod.splits)

lemma Run_follows: "Models (poRouter p) \<noteq> [] \<Longrightarrow> follows p exs (Run exs p)"
proof (induction exs rule: rev_induct)
  case Nil
  then show ?case by (simp add: follows_def Run_def)
next
  case (snoc ex exs)
  let ?q = "Run exs p"
  have m: "Models (poRouter ?q) \<noteq> []" using Run_models [OF snoc.prems] .
  show ?case
  proof (cases "brings_nothing (poEtag ?q) ex")
    case True
    note same = Sync_quiet [OF True m]
    from snoc.IH [OF snoc.prems, unfolded follows_def] show ?thesis
    proof (elim disjE exE conjE)
      assume "poRouter ?q = poRouter p" "poEtag ?q = poEtag p" "list_all (brings_nothing (poEtag p)) exs"
      with True same show ?thesis by (simp add: follows_def Run_snoc)
    next
      fix xs x ys t e
      assume *: "exs = xs @ x # ys" "FetchRoutes x (poEtag (Run xs p)) = Inr (t, e)" "rtModels t \<noteq> []"
        "poRouter ?q = Load t (poRouter (Run xs p))" "poEtag ?q = e" "list_all (brings_nothing e) ys"
      then have "exs @ [ex] = xs @ x # (ys @ [ex])" "list_all (brings_nothing e) (ys @ [ex])" using True by simp_all
      with * same show ?thesis unfolding follows_def Run_snoc by metis
    qed
  next
    case False
    then obtain t e where "FetchRoutes ex (poEtag ?q) = Inr (t, e)" "rtModels t \<noteq> []"
      by (auto simp: brings_nothing_def split: sum.splits)
    then show ?thesis unfolding follows_def Run_snoc
      by (intro disjI2 exI [of _ exs] exI [of _ ex] exI [of _ "[]"] exI [of _ t] exI [of _ e]) (simp add: Sync_def)
  qed
qed

text \<open>C33: whatever the control plane answers, poll after poll, a router that has models keeps having models: those it
  had, as long as no exchange brings a table with models, or those of the last exchange that did; and the ETag that is
  sent next is the one of that very exchange, so that a table that was refused, or failed to arrive, is asked for
  again.\<close>

theorem poller_keeps_routes:
  assumes "Models (poRouter p) \<noteq> []"
  shows "Models (poRouter (Run exs p)) \<noteq> [] \<and> follows p exs (Run exs p)"
  using Run_models [OF assms] Run_follows [OF assms] by blast

lemma poller_keeps_routes_witness:
  "poEtag (Run [Answered 200 ''v2'' (Inr (json_text (enc_Routes \<lparr>rtVersion = [], rtModels = []\<rparr>)))]
     \<lparr>poRouter = Load sample_route None, poEtag = ''v1'', poRejected = 0\<rparr>) = ''v1''"
proof -
  let ?p = "\<lparr>poRouter = Load sample_route None, poEtag = ''v1'', poRejected = 0\<rparr>"
  let ?ex = "Answered 200 ''v2'' (Inr (json_text (enc_Routes \<lparr>rtVersion = [], rtModels = []\<rparr>)))"
  have "FetchRoutes ?ex old = Inr (t, e) \<Longrightarrow> rtModels t = []" for old t e
    using FetchRoutes_outcome [of "\<lparr>rtVersion = [], rtModels = []\<rparr>" "''v2''" old]
    by (simp add: enc_Routes_def json_text.simps str_text_def esc_char_def ints_in_range_def)
  moreover have "follows ?p [?ex] (Run [?ex] ?p)"
    by (rule poller_keeps_routes [THEN conjunct2]) (simp add: sample_route_def Load_def Models_def)
  ultimately show ?thesis by (auto simp: follows_def Cons_eq_append_conv)
qed

end
