(* ===== verification/Handler.thy ===== *)
theory Handler
  imports Relay Router
begin

text \<open>
  \<^verbatim>\<open>proxy/handler.go\<close>: one inference request, from the first check to the usage report. What
  the handler meets outside the repository is the record \<open>world\<close>: the control plane, the providers'
  answers, the signer and the SDK, the clock, the random source and the contexts. The result of a
  request is everything it did: what the client got, what was sent upstream, the reports handed to the
  metering queue and the metrics counted. A panic, which net/http turns into a broken connection, is \<open>None\<close>
  before the first attempt; from there on it is a result whose response panics, with the calls made and the
  metrics counted so far and no report.
\<close>

section \<open>Requests and what they meet\<close>

record inbound =
  ibMethod :: string
  ibPath :: string
  ibHeader :: header
  ibBody :: http_body

datatype upstream_call =
    SentHTTP upstream_request
  | SentInvoke bool string string

text \<open>
  The answers depend on the number of the attempt. \<open>wdCtxErr i\<close> is the error of the request's context when
  attempt \<open>i\<close> has failed, \<open>wdIsDeadline e\<close> tells whether an error from outside is a DeadlineExceeded,
  \<open>wdBuildErr\<close> is the error of making a request for a URL.
\<close>

record world =
  wdConfig :: Config
  wdControlPlane :: client
  wdNet :: "http_request \<Rightarrow> exchange"
  wdRouter :: router
  wdRand :: rand
  wdProviders :: Registry
  wdBuildErr :: "url \<Rightarrow> err option"
  wdSign :: "nat \<Rightarrow> header \<Rightarrow> string \<Rightarrow> header result"
  wdUpstream :: "nat \<Rightarrow> upstream_request \<Rightarrow> upstream_response result"
  wdSDK :: "nat \<Rightarrow> bool \<Rightarrow> string \<Rightarrow> string \<Rightarrow> sdk_answer"
  wdCtxErr :: "nat \<Rightarrow> err option"
  wdIsDeadline :: "err \<Rightarrow> bool"
  wdDeadline :: bool
  wdGone :: bool
  wdRelay :: relay_ctx
  wdRequestID :: string
  wdStartTime :: string
  wdDuration :: int

datatype metric =
    KeyAuthErrors
  | KeyAuthRejects RejectReason
  | Failovers string string
  | Translations protocol protocol string
  | TranslationDefaults
  | Requests protocol string int
  | DurationObserved protocol string string int
  | TTFTObserved protocol string string int
  | Tokens string string usage

section \<open>Headers\<close>

definition userAgent :: string where "userAgent = ''sample-llm-gateway/0.1''"
definition defaultAnthropicVers :: string where "defaultAnthropicVers = ''2023-06-01''"

definition forwardRequestHeaders :: "string list" where
  "forwardRequestHeaders = [''accept'', ''anthropic-version'', ''anthropic-beta'', ''openai-beta'']"

definition forwards :: "protocol \<Rightarrow> bool \<Rightarrow> string \<Rightarrow> bool" where
  "forwards target translating lk \<longleftrightarrow> lk \<in> set forwardRequestHeaders
     \<and> \<not> (translating \<and> (has_prefix ''anthropic-'' lk \<and> target \<noteq> Anthropic
                         \<or> lk = ''openai-beta'' \<and> target = Anthropic))"

definition copyRequestHeaders :: "header \<Rightarrow> header \<Rightarrow> protocol \<Rightarrow> bool \<Rightarrow> header" where
  "copyRequestHeaders src dst target translating = dst @ filter (\<lambda>p. forwards target translating (fst p)) src"

definition extractAPIKey :: "header \<Rightarrow> string" where
  "extractAPIKey h =
     (let v = h_get ''Authorization'' h
      in if v \<noteq> [] \<and> length v > 7 \<and> to_lower (take 7 v) = ''bearer '' then trim_space (drop 7 v)
         else (let x = h_get ''x-api-key'' h in if x \<noteq> [] then trim_space x else []))"

definition newRequestID :: "string \<Rightarrow> string" where
  "newRequestID bs = ''req_'' @ hex_encode bs"

text \<open>\<open>Milliseconds\<close>: the quotient is cut towards zero.\<close>

definition Milliseconds :: "int \<Rightarrow> i64" where
  "Milliseconds d = i64_of (if d < 0 then - (- d div 1000000) else d div 1000000)"

section \<open>Sending\<close>

datatype send_error = ErrBuildRequest err | ErrUpstreamAuth err | ErrTransport err

definition upstream_url :: "url \<Rightarrow> protocol \<Rightarrow> url" where
  "upstream_url base target = base\<lparr>uPath := trim_right_slash (uPath base) @ UpstreamPath target\<rparr>"

definition upstream_headers :: "header \<Rightarrow> protocol \<Rightarrow> bool \<Rightarrow> header" where
  "upstream_headers src target translating =
     (let h = h_set ''User-Agent'' userAgent
                (h_set ''Content-Type'' ''application/json'' (copyRequestHeaders src [] target translating))
      in if target = Anthropic \<and> h_get ''anthropic-version'' h = []
         then h_set ''anthropic-version'' defaultAnthropicVers h else h)"

text \<open>The request that goes out with its answer, or the error before it. Invoke may panic.\<close>

definition send :: "world \<Rightarrow> nat \<Rightarrow> header \<Rightarrow> Provider \<Rightarrow> url \<Rightarrow> protocol \<Rightarrow> bool \<Rightarrow> string
    \<Rightarrow> upstream_call list \<times> (send_error + upstream_response)" where
  "send w i src prov base target translating body =
     (let u = upstream_url base target
      in case wdBuildErr w u of
           Some e \<Rightarrow> ([], Inl (ErrBuildRequest e))
         | None \<Rightarrow>
             (case Authenticate (wdSign w i) prov (upstream_headers src target translating) body of
                Inl e \<Rightarrow> ([], Inl (ErrUpstreamAuth (''upstream auth failed: '' @ e)))
              | Inr h \<Rightarrow>
                  (let rq = \<lparr>uqURL = u, uqHeader = h, uqBody = body\<rparr>
                   in ([SentHTTP rq],
                       case wdUpstream w i rq of Inl e \<Rightarrow> Inl (ErrTransport e) | Inr r \<Rightarrow> Inr r))))"

definition send_invoke :: "world \<Rightarrow> nat \<Rightarrow> header \<Rightarrow> protocol \<Rightarrow> bool \<Rightarrow> string \<Rightarrow> string \<Rightarrow> bool
    \<Rightarrow> upstream_call list \<times> (send_error + upstream_response) option" where
  "send_invoke w i src target translating modelID body stream =
     (let h = copyRequestHeaders src [] target translating
      in (case adaptInvokeBody target body h stream of
            Some (Inr b) \<Rightarrow> [SentInvoke stream modelID b]
          | _ \<Rightarrow> [],
          map_option (\<lambda>a. case a of Inl e \<Rightarrow> Inl (ErrTransport e) | Inr r \<Rightarrow> Inr r)
            (Invoke (wdSDK w i) target modelID body h stream)))"

section \<open>One candidate\<close>

definition translateOptions :: "world \<Rightarrow> Options" where
  "translateOptions w =
     (let d = svDefaultMaxTokens (cfServer (wdConfig w))
      in \<lparr>oDefaultMaxTokens = (if d = 0 then DefaultMaxTokens else d), oTargetIsBedrock = False\<rparr>)"

record plan =
  plProvider :: Provider
  plTarget :: protocol
  plBase :: "url option"
  plTranslator :: "translator option"

definition target_protocol :: "protocol \<Rightarrow> Candidate \<Rightarrow> protocol result" where
  "target_protocol proto cand =
     (let tp = cProviderProtocol cand
      in if tp = [] then Inr proto
         else if \<not> Valid tp
         then Inl (''provider '' @ quoted (cProviderCode cand) @ '' has unknown providerProtocol '' @ quoted tp)
         else Inr tp)"

text \<open>Everything before the candidate counts as tried: an error skips it.\<close>

definition plan_candidate :: "world \<Rightarrow> protocol \<Rightarrow> Candidate \<Rightarrow> plan result" where
  "plan_candidate w proto cand =
     (case map_of (wdProviders w) (cProviderCode cand) of
        None \<Rightarrow> Inl (''provider '' @ quoted (cProviderCode cand) @ '' not configured'')
      | Some prov \<Rightarrow>
          rbind (target_protocol proto cand) (\<lambda>target.
          (let base = Endpoint prov target
           in if base = None \<and> \<not> CanInvoke prov target
              then Inl (''provider '' @ quoted (cProviderCode cand) @ '' does not serve '' @ target)
              else if target \<noteq> proto
              then rbind (New_translator proto target ((translateOptions w)\<lparr>oTargetIsBedrock := pvBedrock prov\<rparr>)) (\<lambda>t.
                   Inr \<lparr>plProvider = prov, plTarget = target, plBase = base, plTranslator = Some t\<rparr>)
              else Inr \<lparr>plProvider = prov, plTarget = target, plBase = base, plTranslator = None\<rparr>)))"

text \<open>The body for the provider; an error is answered with a 400.\<close>

definition upstream_body :: "plan \<Rightarrow> protocol \<Rightarrow> request \<Rightarrow> string \<Rightarrow> Candidate
    \<Rightarrow> metric list \<times> (GatewayError + string)" where
  "upstream_body pl proto preq body cand =
     (case plTranslator pl of
        None \<Rightarrow> ([], Inr (Rewrite preq proto (cProviderModelCode cand)))
      | Some t \<Rightarrow>
          (case Translate_Request t body (cProviderModelCode cand) of
             Inl e \<Rightarrow> ([Translations proto (plTarget pl) ''request_error''],
                       Inl (ErrBadRequest (''protocol translation: '' @ e)))
           | Inr (b, defaulted) \<Rightarrow> (if defaulted then [TranslationDefaults] else [], Inr b)))"

datatype attempt =
    Skipped err
  | Refused GatewayError
  | Failed err bool
  | CtxDone err
  | Panicked
  | Responded upstream_response "translator option"

text \<open>One turn of the loop, up to the answer.\<close>

definition try_candidate :: "world \<Rightarrow> inbound \<Rightarrow> protocol \<Rightarrow> request \<Rightarrow> string \<Rightarrow> nat \<Rightarrow> Candidate
    \<Rightarrow> upstream_call list \<times> metric list \<times> attempt" where
  "try_candidate w r proto preq body i cand =
     (case plan_candidate w proto cand of
        Inl e \<Rightarrow> ([], [], Skipped e)
      | Inr pl \<Rightarrow>
          (let (ms, ub) = upstream_body pl proto preq body cand;
               translating = (plTranslator pl \<noteq> None)
           in case ub of
                Inl ge \<Rightarrow> ([], ms, Refused ge)
              | Inr b \<Rightarrow>
                  (let (calls, ans) = (case plBase pl of
                         None \<Rightarrow> send_invoke w i (ibHeader r) (plTarget pl) translating (cProviderModelCode cand) b
                                   (rqStream preq)
                       | Some base \<Rightarrow> apsnd Some
                           (send w i (ibHeader r) (plProvider pl) base (plTarget pl) translating b))
                   in case ans of
                        None \<Rightarrow> (calls, ms, Panicked)
                      | Some (Inr resp) \<Rightarrow> (calls, ms, Responded resp (plTranslator pl))
                      | Some (Inl (ErrUpstreamAuth e)) \<Rightarrow>
                          (calls, ms @ [Failovers (cProviderCode cand) ''auth''], Failed e False)
                      | Some (Inl (ErrBuildRequest e)) \<Rightarrow>
                          (calls, ms, Refused (ErrBadGateway ''failed to build upstream request''))
                      | Some (Inl (ErrTransport e)) \<Rightarrow>
                          (case wdCtxErr w i of
                             Some ce \<Rightarrow> (calls, ms, CtxDone ce)
                           | None \<Rightarrow> (calls, ms @ [Failovers (cProviderCode cand) ''transport''],
                                      Failed e (wdIsDeadline w e))))))"

section \<open>The attempts\<close>

definition failover_status :: "int \<Rightarrow> bool" where
  "failover_status st \<longleftrightarrow> st = 429 \<or> st \<ge> 500"

record tried =
  tdCalls :: "upstream_call list"
  tdMetrics :: "metric list"
  tdLast :: "Candidate option"
  tdErr :: "(err \<times> bool) option"

datatype loop_result =
    Exhausted
  | Crashed
  | Rejected GatewayError
  | Committed Candidate upstream_response "translator option"

text \<open>The last candidate's answer is taken as it is; \<open>tdLast\<close> is the last candidate that was not skipped.\<close>

fun attempt_loop :: "world \<Rightarrow> inbound \<Rightarrow> protocol \<Rightarrow> request \<Rightarrow> string \<Rightarrow> nat \<Rightarrow> Candidate list \<Rightarrow> tried
    \<Rightarrow> loop_result \<times> tried" where
  "attempt_loop w r proto preq body i [] s = (Exhausted, s)"
| "attempt_loop w r proto preq body i (cand # cs) s =
     (let (calls, ms, a) = try_candidate w r proto preq body i cand;
          s1 = s\<lparr>tdCalls := tdCalls s @ calls, tdMetrics := tdMetrics s @ ms\<rparr>;
          s2 = s1\<lparr>tdLast := Some cand\<rparr>
      in case a of
           Skipped e \<Rightarrow> attempt_loop w r proto preq body (Suc i) cs (s1\<lparr>tdErr := Some (e, False)\<rparr>)
         | Refused ge \<Rightarrow> (Rejected ge, s2)
         | Failed e d \<Rightarrow> attempt_loop w r proto preq body (Suc i) cs (s2\<lparr>tdErr := Some (e, d)\<rparr>)
         | Panicked \<Rightarrow> (Crashed, s2)
         | CtxDone e \<Rightarrow> (Exhausted, s2\<lparr>tdErr := Some (e, wdIsDeadline w e)\<rparr>)
         | Responded resp tr \<Rightarrow>
             if failover_status (upStatus resp) \<and> cs \<noteq> []
             then attempt_loop w r proto preq body (Suc i) cs
                    (s2\<lparr>tdErr := Some (''upstream status '' @ int_text (upStatus resp), False),
                        tdMetrics := tdMetrics s2 @ [Failovers (cProviderCode cand) (int_text (upStatus resp))]\<rparr>)
             else (Committed cand resp tr, s2))"

section \<open>The request\<close>

record served =
  sdResponse :: client_response
  sdCalls :: "upstream_call list"
  sdReports :: "UsageReport list"
  sdMetrics :: "metric list"
  sdKeyAuth :: "http_request list"

definition answer_error :: "world \<Rightarrow> header \<Rightarrow> protocol \<Rightarrow> GatewayError \<Rightarrow> served" where
  "answer_error w h proto e =
     \<lparr>sdResponse = write_error (wdRelay w) h e proto, sdCalls = [], sdReports = [], sdMetrics = [], sdKeyAuth = []\<rparr>"

text \<open>Reading the request body, through MaxBytesReader.\<close>

definition read_request_body :: "int \<Rightarrow> http_body \<Rightarrow> GatewayError + string" where
  "read_request_body limit b =
     (let s = concat (bdChunks b)
      in if int (length s) > max 0 limit
         then Inl \<lparr>geStatus = 413, geType = ''invalid_request_error'', geCode = [], geMessage = ''request body too large''\<rparr>
         else (case bdErr b of Some e \<Rightarrow> Inl (ErrBadRequest ''failed to read request body'') | None \<Rightarrow> Inr s))"

definition report :: "world \<Rightarrow> string \<Rightarrow> string \<Rightarrow> string \<Rightarrow> int \<Rightarrow> int \<Rightarrow> usage \<Rightarrow> UsageReport" where
  "report w apiKey model providerModel ttft status u =
     \<lparr>urRequestID = wdRequestID w, urAPIKey = apiKey, urModelCode = model, urProviderModelCode = providerModel,
      urStartTime = wdStartTime w, urDuration = Milliseconds (wdDuration w), urTTFT = Milliseconds ttft,
      urStatusCode = status, urInputTokens = uInput u, urOutputTokens = uOutput u, urTotalTokens = Total u,
      urCacheReadTokens = uCacheRead u, urCacheWriteTokens = uCacheWrite u, urReasoningTokens = uReasoning u\<rparr>"

text \<open>Every attempt failed.\<close>

definition exhausted_error :: "tried \<Rightarrow> GatewayError" where
  "exhausted_error t =
     \<lparr>geStatus = (case tdErr t of Some (e, True) \<Rightarrow> 504 | _ \<Rightarrow> 502), geType = ''api_error'', geCode = ''upstream_error'',
      geMessage = ''all upstream attempts failed'' @ (case tdErr t of None \<Rightarrow> [] | Some (e, d) \<Rightarrow> '': '' @ e)\<rparr>"

definition finish_exhausted :: "world \<Rightarrow> header \<Rightarrow> protocol \<Rightarrow> string \<Rightarrow> string \<Rightarrow> tried \<Rightarrow> served" where
  "finish_exhausted w h proto apiKey model t =
     (let e = exhausted_error t;
          prov = (case tdLast t of None \<Rightarrow> [] | Some c \<Rightarrow> cProviderCode c)
      in \<lparr>sdResponse = write_error (wdRelay w) h e proto, sdCalls = tdCalls t,
          sdReports = (case tdLast t of
             None \<Rightarrow> []
           | Some c \<Rightarrow> [report w apiKey model (cProviderModelCode c) 0 (geStatus e) no_usage]),
          sdMetrics = tdMetrics t @ [Requests proto prov (geStatus e)], sdKeyAuth = []\<rparr>)"

text \<open>A response was committed to: it is relayed, classified, counted and reported.\<close>

definition commit_metrics :: "protocol \<Rightarrow> string \<Rightarrow> Candidate \<Rightarrow> translator option \<Rightarrow> int \<Rightarrow> relay_result \<Rightarrow> metric list" where
  "commit_metrics proto model c tr dur res =
     (case tr of None \<Rightarrow> [] | Some t \<Rightarrow> [Translations proto (trTo t) (translationResult res)])
     @ [Requests proto (cProviderCode c) (rrStatus res),
        DurationObserved proto (cProviderCode c) (cProviderModelCode c) dur]
     @ (if rrTTFT res > 0 then [TTFTObserved proto (cProviderCode c) (cProviderModelCode c) (rrTTFT res)] else [])
     @ (if uFound (rrUsage res) then [Tokens (cProviderCode c) model (rrUsage res)] else [])"

definition finish_committed :: "world \<Rightarrow> header \<Rightarrow> protocol \<Rightarrow> string \<Rightarrow> string \<Rightarrow> Candidate
    \<Rightarrow> upstream_response \<Rightarrow> translator option \<Rightarrow> tried \<Rightarrow> served" where
  "finish_committed w h proto apiKey model c resp tr t =
     (let (out, res0) = relay (wdRelay w) h resp proto tr;
          res = classifyTruncation (wdDeadline w) (wdGone w) res0
      in if crPanics out
         then \<lparr>sdResponse = out, sdCalls = tdCalls t, sdReports = [], sdMetrics = tdMetrics t, sdKeyAuth = []\<rparr>
         else
         \<lparr>sdResponse = out, sdCalls = tdCalls t,
          sdReports = [report w apiKey model (cProviderModelCode c) (rrTTFT res) (rrStatus res) (rrUsage res)],
          sdMetrics = tdMetrics t @ commit_metrics proto model c tr (wdDuration w) res, sdKeyAuth = []\<rparr>)"

definition no_tried :: tried where
  "no_tried = \<lparr>tdCalls = [], tdMetrics = [], tdLast = None, tdErr = None\<rparr>"

definition run_attempts :: "world \<Rightarrow> inbound \<Rightarrow> header \<Rightarrow> protocol \<Rightarrow> string \<Rightarrow> request \<Rightarrow> string
    \<Rightarrow> Candidate list \<Rightarrow> served" where
  "run_attempts w r h proto apiKey preq body cands =
     (case attempt_loop w r proto preq body 0 cands no_tried of
        (Rejected ge, t) \<Rightarrow> (answer_error w h proto ge)\<lparr>sdCalls := tdCalls t, sdMetrics := tdMetrics t\<rparr>
      | (Crashed, t) \<Rightarrow> \<lparr>sdResponse = no_response 0 h, sdCalls = tdCalls t, sdReports = [],
                          sdMetrics = tdMetrics t, sdKeyAuth = []\<rparr>
      | (Exhausted, t) \<Rightarrow> finish_exhausted w h proto apiKey (rqModel preq) t
      | (Committed c resp tr, t) \<Rightarrow> finish_committed w h proto apiKey (rqModel preq) c resp tr t)"

text \<open>\<open>attempts[:n]\<close> when there are more than \<open>n\<close>, which panics for a negative \<open>n\<close>.\<close>

definition limit_attempts :: "int \<Rightarrow> 'a list \<Rightarrow> 'a list option" where
  "limit_attempts n xs =
     (if int (length xs) > n then (if n < 0 then None else Some (take (nat n) xs)) else Some xs)"

definition route_request :: "world \<Rightarrow> inbound \<Rightarrow> header \<Rightarrow> protocol \<Rightarrow> string \<Rightarrow> request \<Rightarrow> string \<Rightarrow> served option" where
  "route_request w r h proto apiKey preq body =
     (case Attempts (wdRand w) 0 (wdRouter w) (rqModel preq) of
        None \<Rightarrow> None
      | Some (cands, k) \<Rightarrow>
          if cands = []
          then Some (answer_error w h proto (ErrNotFound (''model '' @ quoted (rqModel preq) @ '' has no active route'')))
          else map_option (run_attempts w r h proto apiKey preq body)
                 (limit_attempts (svMaxFailoverAttempts (cfServer (wdConfig w))) cands))"

definition authorize :: "world \<Rightarrow> inbound \<Rightarrow> header \<Rightarrow> protocol \<Rightarrow> string \<Rightarrow> request \<Rightarrow> string \<Rightarrow> served option" where
  "authorize w r h proto apiKey preq body =
     (let rq = key_auth_request (wdControlPlane w) apiKey (rqModel preq)
      in map_option (\<lambda>s. s\<lparr>sdKeyAuth := rq # sdKeyAuth s\<rparr>)
        (case KeyAuth (wdControlPlane w) (wdNet w) apiKey (rqModel preq) of
           Inl e \<Rightarrow> Some ((answer_error w h proto (ErrUnavailable ''authorization service unavailable''))
                       \<lparr>sdMetrics := [KeyAuthErrors]\<rparr>)
         | Inr auth \<Rightarrow>
             if \<not> kaValid auth
             then Some ((answer_error w h proto (FromReject (kaRejectReason auth) (kaMessage auth)))
                        \<lparr>sdMetrics := [KeyAuthRejects (kaRejectReason auth)]\<rparr>)
             else route_request w r h proto apiKey preq body))"

definition ServeHTTP :: "world \<Rightarrow> inbound \<Rightarrow> served option" where
  "ServeHTTP w r =
     (case Detect (ibPath r) of
        None \<Rightarrow> Some (answer_error w [] OpenAIChat (ErrNotFound (''unknown path '' @ ibPath r)))
      | Some proto \<Rightarrow>
          if ibMethod r \<noteq> ''POST''
          then Some (answer_error w [] proto \<lparr>geStatus = 405, geType = ''invalid_request_error'', geCode = [],
                                              geMessage = ''method not allowed''\<rparr>)
          else (let h = h_set ''X-Request-Id'' (wdRequestID w) [];
                    apiKey = extractAPIKey (ibHeader r)
                in if apiKey = []
                   then Some (answer_error w h proto
                          (ErrUnauthorized ''missing API key: use Authorization: Bearer <key> or x-api-key''))
                   else (case read_request_body (svMaxRequestBodyBytes (cfServer (wdConfig w))) (ibBody r) of
                           Inl ge \<Rightarrow> Some (answer_error w h proto ge)
                         | Inr body \<Rightarrow>
                             (case ParseRequest body of
                                Inl e \<Rightarrow> Some (answer_error w h proto (ErrBadRequest e))
                              | Inr preq \<Rightarrow> authorize w r h proto apiKey preq body))))"

section \<open>The list of models\<close>

text \<open>The status and the body of \<^verbatim>\<open>GET /v1/models\<close>.\<close>

definition model_json :: "string \<Rightarrow> json" where
  "model_json m = JObj [(''id'', JStr m), (''object'', JStr ''model''), (''created'', num_int 0), (''owned_by'', JStr ''gateway'')]"

definition models_json :: "string list \<Rightarrow> json" where
  "models_json ms = JObj [(''object'', JStr ''list''), (''data'', JArr (map model_json ms))]"

definition ModelsHandler :: "router \<Rightarrow> string \<Rightarrow> http_response" where
  "ModelsHandler rt httpMethod =
     (if httpMethod \<noteq> ''GET''
      then \<lparr>hrStatus = 405, hrContentType = ''text/plain; charset=utf-8'', hrBody = ''method not allowed'' @ [CHR 10],
             hrPanics = False\<rparr>
      else \<lparr>hrStatus = 200, hrContentType = ''application/json'', hrBody = json_text (models_json (Models rt)) @ [CHR 10],
             hrPanics = False\<rparr>)"

end
