(* ===== verification/Gateway.thy ===== *)
theory Gateway
  imports Secrets Metering Handler
begin

text \<open>
  \<^verbatim>\<open>cmd/gateway/main.go\<close>: how the process starts, what its mux serves, and how it shuts down. Reading
  and parsing the file, the AWS SDK, the network, the clock and the signals are arguments, in the record
  \<open>env\<close>. The step relation at the end puts the HTTP server and the metering queue together.
\<close>

section \<open>Start\<close>

record env =
  enConfig :: "Config result"
  enURL :: url_parser
  enHealthCheck :: bool
  enSplitHostPort :: "string \<Rightarrow> (string \<times> string) option"
  enProbe :: "string \<Rightarrow> int result"
  enRegion :: string
  enDefaultRegion :: string
  enLoadAWS :: "string \<Rightarrow> err option"
  enSecretsAPI :: secrets_api
  enCredentials :: "string \<Rightarrow> ProviderConfig \<Rightarrow> err option"
  enRoutes :: "nat \<Rightarrow> http_request \<Rightarrow> exchange"
  enLate :: "nat \<Rightarrow> bool"

record gateway =
  gwConfig :: Config
  gwRegistry :: Registry
  gwClient :: client
  gwPoller :: poller

text \<open>\<open>Crash\<close>: a ticker with a negative interval, or a channel of negative size.\<close>

datatype start = Exit int | Crash | Serving gateway

definition healthCheck :: "(string \<Rightarrow> (string \<times> string) option) \<Rightarrow> (string \<Rightarrow> int result) \<Rightarrow> string \<Rightarrow> int" where
  "healthCheck split_host_port probe listen =
     (case split_host_port listen of
        None \<Rightarrow> 1
      | Some (host, port) \<Rightarrow>
          (case probe (''http://127.0.0.1:'' @ port @ ''/healthz'') of
             Inl e \<Rightarrow> 1
           | Inr status \<Rightarrow> if status \<noteq> 200 then 1 else 0))"

definition start_secrets :: "env \<Rightarrow> Config \<Rightarrow> Config option" where
  "start_secrets en cfg =
     (if HasRefs cfg
      then (case New_resolver (enRegion en) (enDefaultRegion en) (enLoadAWS en) (cfSecrets cfg) of
              Inl e \<Rightarrow> None
            | Inr r \<Rightarrow> (case Resolve (enSecretsAPI en) cfg r of (Inl e, _) \<Rightarrow> None | (Inr c, _) \<Rightarrow> Some c))
      else Some cfg)"

definition new_poller :: poller where
  "new_poller = \<lparr>poRouter = None, poEtag = [], poRejected = 0\<rparr>"

text \<open>
  The loop of the initial routes: \<open>late k\<close> says that after poll \<open>k\<close> the deadline has passed or the process
  was told to stop. \<open>Some None\<close>: given up; \<open>None\<close>: the loop does not end.
\<close>

partial_function (option) initial_routes ::
  "(nat \<Rightarrow> http_request \<Rightarrow> exchange) \<Rightarrow> (nat \<Rightarrow> bool) \<Rightarrow> client \<Rightarrow> nat \<Rightarrow> poller \<Rightarrow> poller option option" where
  "initial_routes net late c k p =
     (let (res, p1) = Sync (net k (routes_request c (poEtag p))) p
      in if res = SyncOK \<and> Ready (poRouter p1) then Some (Some p1)
         else if late k then Some None
         else initial_routes net late c (Suc k) p1)"

definition gateway_client :: "Config \<Rightarrow> client" where
  "gateway_client c = New (cpBaseURL (cfControlPlane c)) (cpToken (cfControlPlane c)) (cpTokenHeader (cfControlPlane c))"

text \<open>
  The channel of the queue is made of reports of 152 bytes; \<open>make\<close> panics when they and the 96 bytes of its head
  exceed the 2^48 bytes of the address space.
\<close>

definition max_queue :: int where "max_queue = (2 ^ 48 - 96) div 152"

definition start_serving :: "Config \<Rightarrow> Registry \<Rightarrow> poller \<Rightarrow> start" where
  "start_serving c reg p =
     (if cpRoutesPollInterval (cfControlPlane c) \<le> 0 \<or> mtQueueSize (cfMetering c) < 0
        \<or> mtQueueSize (cfMetering c) > max_queue
      then Crash
      else Serving \<lparr>gwConfig = c, gwRegistry = reg, gwClient = gateway_client c, gwPoller = p\<rparr>)"

definition main_start :: "env \<Rightarrow> start option" where
  "main_start en =
     (case rbind (enConfig en) (Load_config (enURL en)) of
        Inl e \<Rightarrow> Some (Exit 2)
      | Inr cfg \<Rightarrow>
          if enHealthCheck en
          then Some (Exit (healthCheck (enSplitHostPort en) (enProbe en) (svListen (cfServer cfg))))
          else (case start_secrets en cfg of
                  None \<Rightarrow> Some (Exit 2)
                | Some c \<Rightarrow>
                    (case Build (enURL en) (enCredentials en) (cfProviders c) of
                       Inl e \<Rightarrow> Some (Exit 2)
                     | Inr reg \<Rightarrow>
                         map_option (\<lambda>r. case r of None \<Rightarrow> Exit 1 | Some p \<Rightarrow> start_serving c reg p)
                           (initial_routes (enRoutes en) (enLate en) (gateway_client c) 0 new_poller))))"

section \<open>The mux\<close>

text \<open>The mux cleans the path and redirects when that changes it.\<close>

fun clean_parts :: "string list \<Rightarrow> string list \<Rightarrow> string list" where
  "clean_parts st [] = rev st"
| "clean_parts st (p # ps) =
     (if p = [] \<or> p = ''.'' then clean_parts st ps
      else if p = ''..'' then clean_parts (tl st) ps
      else clean_parts (p # st) ps)"

definition cleanPath :: "string \<Rightarrow> string" where
  "cleanPath p =
     (if p = [] then ''/''
      else (let q = (if hd p = CHR ''/'' then p else CHR ''/'' # p);
                np = CHR ''/'' # join ''/'' (clean_parts [] (split_on (CHR ''/'') q))
            in if last q = CHR ''/'' \<and> np \<noteq> ''/'' then np @ ''/'' else np))"

datatype mux_answer = MovedTo string | Plain http_response | MetricsPage | Inference "served option"

definition text_plain :: "int \<Rightarrow> string \<Rightarrow> http_response" where
  "text_plain status body = \<lparr>hrStatus = status, hrContentType = ''text/plain; charset=utf-8'', hrBody = body,
     hrPanics = (\<not> header_status status)\<rparr>"

definition readyz :: "bool \<Rightarrow> router \<Rightarrow> http_response" where
  "readyz draining rt =
     (if draining then text_plain 503 (''draining'' @ [CHR 10])
      else if \<not> Ready rt then text_plain 503 (''routes not loaded'' @ [CHR 10])
      else text_plain 200 ''ready'')"

definition mux_serve :: "bool \<Rightarrow> world \<Rightarrow> inbound \<Rightarrow> mux_answer" where
  "mux_serve draining w r =
     (if ibMethod r \<noteq> ''CONNECT'' \<and> cleanPath (ibPath r) \<noteq> ibPath r then MovedTo (cleanPath (ibPath r))
      else if ibPath r = ''/healthz'' then Plain (text_plain 200 ''ok'')
      else if ibPath r = ''/readyz'' then Plain (readyz draining (wdRouter w))
      else if ibPath r = ''/metrics'' then MetricsPage
      else if ibPath r = ''/v1/models'' then Plain (ModelsHandler (wdRouter w) (ibMethod r))
      else Inference (ServeHTTP w r))"

section \<open>Shutdown\<close>

definition drainDelay :: int where "drainDelay = 5 * second"
definition meteringFlushTimeout :: int where "meteringFlushTimeout = 10 * second"

text \<open>The longest the three stages may take.\<close>

definition shutdown_budget :: "Config \<Rightarrow> int" where
  "shutdown_budget c = drainDelay + max 0 (svShutdownTimeout (cfServer c)) + meteringFlushTimeout"

text \<open>
  The server, the requests that have not yet come to Enqueue, and the queue. \<open>lfCut\<close> records that the HTTP
  shutdown ran into its deadline.
\<close>

record life =
  lfDraining :: bool
  lfListening :: bool
  lfActive :: nat
  lfQueue :: mqueue
  lfCut :: bool

definition start_life :: "nat \<Rightarrow> nat \<Rightarrow> life" where
  "start_life cap workers =
     \<lparr>lfDraining = False, lfListening = True, lfActive = 0, lfQueue = new_queue cap workers, lfCut = False\<rparr>"

inductive life_step :: "life \<Rightarrow> life \<Rightarrow> bool" where
  request_starts:
    "lfListening l \<Longrightarrow> life_step l (l\<lparr>lfActive := Suc (lfActive l)\<rparr>)"
| request_ends:
    "lfActive l = Suc n \<Longrightarrow> life_step l (l\<lparr>lfActive := n\<rparr>)"
| request_reports:
    "lfActive l = Suc n \<Longrightarrow> \<not> mqDone (lfQueue l) \<Longrightarrow>
     life_step l (l\<lparr>lfActive := n, lfQueue := (lfQueue l)\<lparr>mqEntered := add_mset r (mqEntered (lfQueue l))\<rparr>\<rparr>)"
| queue_works:
    "step (lfQueue l) q \<Longrightarrow> mqDone q = mqDone (lfQueue l) \<Longrightarrow> mqEntered q \<subseteq># mqEntered (lfQueue l) \<Longrightarrow>
     life_step l (l\<lparr>lfQueue := q\<rparr>)"
| signal:
    "\<not> lfDraining l \<Longrightarrow> life_step l (l\<lparr>lfDraining := True\<rparr>)"
| listener_closes:
    "lfDraining l \<Longrightarrow> lfListening l \<Longrightarrow> life_step l (l\<lparr>lfListening := False\<rparr>)"
| requests_drained:
    "lfDraining l \<Longrightarrow> \<not> lfListening l \<Longrightarrow> lfActive l = 0 \<Longrightarrow> mqEntered (lfQueue l) = {#} \<Longrightarrow> \<not> mqDone (lfQueue l) \<Longrightarrow>
     life_step l (l\<lparr>lfQueue := (lfQueue l)\<lparr>mqDone := True\<rparr>\<rparr>)"
| requests_cut:
    "lfDraining l \<Longrightarrow> \<not> lfListening l \<Longrightarrow> \<not> mqDone (lfQueue l) \<Longrightarrow>
     life_step l (l\<lparr>lfQueue := (lfQueue l)\<lparr>mqDone := True\<rparr>, lfCut := True\<rparr>)"

inductive_cases life_stepE: "life_step l l'"

definition life_reachable :: "nat \<Rightarrow> nat \<Rightarrow> life \<Rightarrow> bool" where
  "life_reachable cap workers l \<longleftrightarrow> life_step\<^sup>*\<^sup>* (start_life cap workers) l"

section \<open>What is known once the gateway serves\<close>

lemma Build_providers:
  "Build parse aws cs = Inr reg \<Longrightarrow> list_all2 (\<lambda>(code, pc) (k, p). k = code \<and> build_provider parse aws code pc = Inr p) cs reg"
  by (induction cs arbitrary: reg) (auto simp: rbind_Inr_iff)

lemma list_all2_strengthen:
  "list_all2 (\<lambda>(code, pc) (k, p). k = code \<and> Q code pc p) cs ps \<Longrightarrow> \<forall>a \<in> set cs. C a = None \<Longrightarrow>
   (\<And>code pc. C (code, pc) = None \<Longrightarrow> U pc) \<Longrightarrow> list_all2 (\<lambda>(code, pc) (k, p). k = code \<and> U pc \<and> Q code pc p) cs ps"
  by (induction rule: list_all2_induct) auto

lemma start_secrets_ok:
  assumes "start_secrets en cfg = Some c" and "validate parse cfg = None"
  shows "validate parse c = None \<and> secret_of (enSecretsAPI en) (cpToken (cfControlPlane cfg)) (cpToken (cfControlPlane c))
    \<and> list_all2 (provider_resolved (enSecretsAPI en)) (cfProviders cfg) (cfProviders c)
    \<and> c = cfg\<lparr>cfControlPlane := (cfControlPlane cfg)\<lparr>cpToken := cpToken (cfControlPlane c)\<rparr>, cfProviders := cfProviders c\<rparr>"
proof (cases "HasRefs cfg")
  case True
  with assms(1) obtain r where "Resolve (enSecretsAPI en) cfg NewWithAPI = (Inr c, r)"
    by (auto simp: start_secrets_def New_resolver_def Let_def split: sum.splits option.splits if_splits prod.splits)
  from Resolve_ok [OF this] show ?thesis using assms(2) resolved_stays_valid by metis
next
  case False
  then have "c = cfg" using assms(1) by (simp add: start_secrets_def)
  moreover have "list_all2 (provider_resolved (enSecretsAPI en)) (cfProviders cfg) (cfProviders cfg)"
    using False by (intro list.rel_refl_strong) (auto simp: HasRefs_def provider_resolved_def secret_of_def)
  ultimately show ?thesis using False assms(2) by (simp add: HasRefs_def secret_of_def)
qed

text \<open>The initial loop ends with the first poll that brings a table or is late.\<close>

definition poll_good :: "(nat \<Rightarrow> http_request \<Rightarrow> exchange) \<Rightarrow> client \<Rightarrow> nat \<Rightarrow> bool" where
  "poll_good net c k \<longleftrightarrow> \<not> isl (FetchRoutes (net k (routes_request c [])) [])"

definition poll_result :: "(nat \<Rightarrow> http_request \<Rightarrow> exchange) \<Rightarrow> client \<Rightarrow> nat \<Rightarrow> poller option" where
  "poll_result net c k =
     (case FetchRoutes (net k (routes_request c [])) [] of
        Inl e \<Rightarrow> None
      | Inr (t, etag) \<Rightarrow> Some \<lparr>poRouter = Load t None, poEtag = etag, poRejected = 0\<rparr>)"

lemma Models_None [simp]: "Models None = []"
  by (simp add: Models_def)

lemma first_sync:
  "initial_routes net late c k new_poller =
     (if poll_good net c k then Some (poll_result net c k)
      else if late k then Some None
      else initial_routes net late c (Suc k) new_poller)"
proof (cases "FetchRoutes (net k (routes_request c [])) []")
  case (Inl e)
  then show ?thesis
    by (subst initial_routes.simps)
      (cases e; simp add: Sync_def new_poller_def poll_good_def poll_result_def Ready_def Let_def)
next
  case (Inr te)
  then obtain t etag where "FetchRoutes (net k (routes_request c [])) [] = Inr (t, etag)" by (cases te) simp
  then show ?thesis
    by (subst initial_routes.simps)
      (simp add: Sync_def new_poller_def poll_good_def poll_result_def Ready_def Let_def Load_def)
qed

lemma initial_routes_first:
  "(\<forall>i < n. \<not> poll_good net c (k + i) \<and> \<not> late (k + i)) \<Longrightarrow> poll_good net c (k + n) \<or> late (k + n) \<Longrightarrow>
   initial_routes net late c k new_poller = Some (poll_result net c (k + n))"
proof (induction n arbitrary: k)
  case 0
  have "poll_result net c k = None" if "\<not> poll_good net c k"
    using that by (auto simp: poll_good_def poll_result_def isl_def split: sum.splits)
  with 0 show ?case by (subst first_sync) auto
next
  case (Suc n)
  from Suc.prems(1) [rule_format, of 0] have "\<not> poll_good net c k" "\<not> late k" by simp_all
  moreover have "initial_routes net late c (Suc k) new_poller = Some (poll_result net c (Suc k + n))"
    using Suc.prems Suc.IH [of "Suc k"] by fastforce
  ultimately show ?case by (subst first_sync) simp
qed

text \<open>C26: the wait for the first routes ends: with 3 s of sleep between the polls and a deadline of 60 s, one of the
  first 22 polls is the last, and it is the first that brings a route table or finds the deadline past; the
  gateway goes on exactly in the first case, with that table.\<close>

theorem initial_routes_terminates:
  assumes "0 \<le> elapsed 0" and "\<And>k. elapsed k + 3 * second \<le> elapsed (Suc k)"
    and "\<And>k. elapsed k > 60 * second \<Longrightarrow> late k"
  shows "\<exists>k \<le> 21. (\<forall>i < k. \<not> poll_good net c i \<and> \<not> late i) \<and> (poll_good net c k \<or> late k)
    \<and> initial_routes net late c 0 new_poller = Some (poll_result net c k)
    \<and> (poll_result net c k \<noteq> None \<longleftrightarrow> poll_good net c k)"
proof -
  have "3 * int k * second \<le> elapsed k" for k
  proof (induction k)
    case (Suc k)
    with assms(2) [of k] show ?case by (simp add: algebra_simps)
  qed (use assms(1) in simp)
  from this [of 21] assms(3) [of 21] have "late 21" by (simp add: second_def)
  then have ex: "poll_good net c 21 \<or> late 21" by simp
  then obtain k where k: "poll_good net c k \<or> late k" "\<forall>i < k. \<not> (poll_good net c i \<or> late i)"
    using exists_least_iff [of "\<lambda>k. poll_good net c k \<or> late k"] by blast
  then have "k \<le> 21" using ex by (meson not_le)
  have before: "\<forall>i < k. \<not> poll_good net c i \<and> \<not> late i" using k(2) by blast
  moreover have "initial_routes net late c 0 new_poller = Some (poll_result net c k)"
    using initial_routes_first [of k net c 0 late] before k(1) unfolding add_0 by blast
  moreover have "poll_result net c k \<noteq> None \<longleftrightarrow> poll_good net c k"
    by (auto simp: poll_result_def poll_good_def split: sum.splits)
  ultimately show ?thesis using k(1) \<open>k \<le> 21\<close> by blast
qed

lemma poll_result_ready: "poll_result net c k = Some p \<Longrightarrow> Ready (poRouter p)"
  by (auto simp: poll_result_def Ready_def Load_def split: sum.splits)

lemma initial_routes_ready:
  assumes "initial_routes net late c k p = Some (Some q)"
  shows "Ready (poRouter q)"
proof -
  have "case res of None \<Rightarrow> True | Some q \<Rightarrow> Ready (poRouter q)" if "initial_routes net late c k p = Some res" for res
    using that
    by (rule initial_routes.raw_induct [rotated]) (auto simp: Let_def split: prod.splits if_splits)
  with assms show ?thesis by fastforce
qed

text \<open>C11: a process that serves has a configuration that passed validation with every secret reference replaced by the
  value it names, the control plane's URL secure and its token not empty, the registry built from exactly the configured
  providers, and a route table loaded, so that it is ready from the first request on; and its poll
  interval and queue size are in range.\<close>

theorem serving_is_sound:
  assumes "main_start en = Some (Serving g)"
  shows "\<exists>c0 cfg. enConfig en = Inr c0 \<and> Load_config (enURL en) c0 = Inr cfg \<and> \<not> enHealthCheck en
    \<and> gwConfig g = cfg\<lparr>cfControlPlane := (cfControlPlane cfg)\<lparr>cpToken := cpToken (cfControlPlane (gwConfig g))\<rparr>,
                      cfProviders := cfProviders (gwConfig g)\<rparr>
    \<and> secret_of (enSecretsAPI en) (cpToken (cfControlPlane cfg)) (clToken (gwClient g))
    \<and> list_all2 (provider_resolved (enSecretsAPI en)) (cfProviders cfg) (cfProviders (gwConfig g))
    \<and> clToken (gwClient g) \<noteq> []
    \<and> url_secure (enURL en) (cpAllowInsecure (cfControlPlane cfg)) (cpBaseURL (cfControlPlane (gwConfig g)))
    \<and> list_all2 (\<lambda>(code, pc) (k, p). k = code \<and> usable_provider pc \<and> build_provider (enURL en) (enCredentials en) code pc = Inr p)
        (cfProviders (gwConfig g)) (gwRegistry g)
    \<and> gwRegistry g \<noteq> [] \<and> readyz False (poRouter (gwPoller g)) = text_plain 200 ''ready''
    \<and> 0 < cpRoutesPollInterval (cfControlPlane (gwConfig g)) \<and> 0 \<le> mtQueueSize (cfMetering (gwConfig g))"
proof -
  obtain c0 cfg c reg p where load: "enConfig en = Inr c0" "Load_config (enURL en) c0 = Inr cfg" "\<not> enHealthCheck en"
    and sec: "start_secrets en cfg = Some c" and reg: "Build (enURL en) (enCredentials en) (cfProviders c) = Inr reg"
    and p: "initial_routes (enRoutes en) (enLate en) (gateway_client c) 0 new_poller = Some (Some p)"
    and g: "start_serving c reg p = Serving g"
    using assms by (auto simp: main_start_def rbind_Inr_iff split: sum.splits option.splits if_splits)
  have "validate (enURL en) cfg = None"
    using load(2) by (auto simp: Load_config_def Let_def split: option.splits)
  note ok = start_secrets_ok [OF sec this]
  note parts = ok [THEN conjunct2, THEN conjunct1] ok [THEN conjunct2, THEN conjunct2, THEN conjunct1]
    ok [THEN conjunct2, THEN conjunct2, THEN conjunct2]
  have g': "gwConfig g = c" "gwRegistry g = reg" "gwPoller g = p" "clToken (gwClient g) = cpToken (cfControlPlane c)"
    "0 < cpRoutesPollInterval (cfControlPlane c)" "0 \<le> mtQueueSize (cfMetering c)"
    using g by (auto simp: start_serving_def gateway_client_def New_def split: if_splits)
  have c: "cpToken (cfControlPlane c) \<noteq> []" "check_base_url (enURL en) (cfControlPlane c) = None"
    "cfProviders c \<noteq> []" "\<forall>p \<in> set (cfProviders c). check_provider p = None"
    using ok by (auto simp: validate_def first_error_None split: if_splits)
  have "cpAllowInsecure (cfControlPlane c) = cpAllowInsecure (cfControlPlane cfg)"
    using arg_cong [OF ok [THEN conjunct2, THEN conjunct2, THEN conjunct2], of "\<lambda>c. cpAllowInsecure (cfControlPlane c)"] by simp
  with check_base_url_secure [THEN iffD1, OF c(2)]
  have url: "url_secure (enURL en) (cpAllowInsecure (cfControlPlane cfg)) (cpBaseURL (cfControlPlane c))" by simp
  have "list_all2 (\<lambda>(code, pc) (k, p). k = code \<and> usable_provider pc \<and> build_provider (enURL en) (enCredentials en) code pc = Inr p)
        (cfProviders c) reg"
    using Build_providers [OF reg] c(4) check_provider_usable [THEN iffD1] by (rule list_all2_strengthen)
  moreover from this c(3) have "reg \<noteq> []" by auto
  moreover have "readyz False (poRouter p) = text_plain 200 ''ready''"
    using initial_routes_ready [OF p] by (simp add: readyz_def)
  ultimately show ?thesis
    unfolding g' using load parts url c(1) g'(5,6) by - (rule exI [of _ c0], rule exI [of _ cfg], (rule conjI | assumption)+)
qed

text \<open>A process whose token and provider key are in the secrets manager, and whose first poll fails.\<close>

definition empty_table :: Routes where
  "empty_table = \<lparr>rtVersion = ''v'', rtModels = []\<rparr>"

definition sample_env :: env where
  "sample_env = \<lparr>enConfig = Inr (sample_secret_config ''secretsmanager://gw#token'' ''secretsmanager://gw#key''),
     enURL = https_only, enHealthCheck = False, enSplitHostPort = (\<lambda>a. None), enProbe = (\<lambda>u. Inr 200),
     enRegion = ''us-east-1'', enDefaultRegion = [], enLoadAWS = (\<lambda>r. None), enSecretsAPI = sample_secrets_api,
     enCredentials = (\<lambda>c p. None),
     enRoutes = (\<lambda>k q. if k = 0 then DoFailed ''refused'' else exchange.Answered 200 [] (Inr (json_text (enc_Routes empty_table)))),
     enLate = (\<lambda>k. False)\<rparr>"

lemma empty_table_fetched:
  "FetchRoutes (exchange.Answered 200 [] (Inr (json_text (enc_Routes empty_table)))) old = Inr (empty_table, ''v'')"
proof -
  have "length (json_text (enc_Routes empty_table)) < 100" by code_simp
  then show ?thesis
    by (simp add: FetchRoutes_def limit_body_def json_ok_routes dec_enc_Routes_wire)
      (simp add: empty_table_def)
qed

lemma sample_polls:
  "initial_routes (enRoutes sample_env) (enLate sample_env) c 0 new_poller
    = Some (Some \<lparr>poRouter = Load empty_table None, poEtag = ''v'', poRejected = 0\<rparr>)"
  using initial_routes_first [of 1 "enRoutes sample_env" c 0 "enLate sample_env"]
  by (simp add: sample_env_def poll_good_def poll_result_def empty_table_fetched FetchRoutes_def [of "DoFailed _"])

definition sample_loaded :: "string \<Rightarrow> string \<Rightarrow> Config" where
  "sample_loaded t k = applyDefaults (sample_secret_config t k)"

lemmas sample_loaded_simps = sample_loaded_def sample_secret_config_def sample_config_def applyDefaults_def
  control_plane_defaults_def metering_defaults_def or_str_def or_int_def auth_defs second_def

lemma sample_loads:
  "t \<noteq> [] \<Longrightarrow> k \<noteq> [] \<Longrightarrow> Load_config https_only (sample_secret_config t k) = Inr (sample_loaded t k)"
  by (simp add: Load_config_def validate_def server_defaults_def check_base_url_def https_only_def
      check_secrets_endpoint_def check_provider_def check_auth_def check_endpoint_def endpoint_defs and_then_def
      sample_loaded_simps)

lemma sample_start_secrets:
  "start_secrets sample_env (sample_loaded ''secretsmanager://gw#token'' ''secretsmanager://gw#key'')
    = Some (sample_loaded ''tok'' ''k1'')"
proof -
  have "resolveField sample_secrets_api field [] r = (Inr [], r)" for field r
    by (simp add: resolveField_def sample_refs)
  then show ?thesis
    by (simp add: start_secrets_def HasRefs_def sample_refs New_resolver_def resolver_region_def Resolve_def resolve_provider_def
        sample_token_resolves sample_key_resolves sample_env_def sample_loaded_simps)
qed

lemma sample_serves:
  "main_start sample_env = Some (Serving
     \<lparr>gwConfig = sample_loaded ''tok'' ''k1'',
      gwRegistry = [(''p'', \<lparr>pvCode = ''p'', pvEndpoints = [(''anthropic'', \<lparr>uScheme = ''https'', uHost = ''h'', uPath = []\<rparr>)],
         pvAuth = HeaderAuth ''Authorization'' ''Bearer k1'', pvBedrock = False, pvInvoke = False\<rparr>)],
      gwClient = gateway_client (sample_loaded ''tok'' ''k1''),
      gwPoller = \<lparr>poRouter = Load empty_table None, poEtag = ''v'', poRejected = 0\<rparr>\<rparr>)"
proof -
  have e: "enConfig sample_env = Inr (sample_secret_config ''secretsmanager://gw#token'' ''secretsmanager://gw#key'')"
    "enURL sample_env = https_only" "\<not> enHealthCheck sample_env" by (simp_all add: sample_env_def)
  have b: "Build https_only cr (cfProviders (sample_loaded ''tok'' ''k1'')) =
     Inr [(''p'', \<lparr>pvCode = ''p'', pvEndpoints = [(''anthropic'', \<lparr>uScheme = ''https'', uHost = ''h'', uPath = []\<rparr>)],
         pvAuth = HeaderAuth ''Authorization'' ''Bearer k1'', pvBedrock = False, pvInvoke = False\<rparr>)]" for cr
    by (simp add: sample_loaded_simps build_provider_def build_auth_def https_only_def)
  show ?thesis
    by (simp add: main_start_def e sample_loads sample_start_secrets b sample_polls start_serving_def)
      (simp add: sample_loaded_simps max_queue_def)
qed

lemma serving_is_sound_witness:
  "\<exists>g. main_start sample_env = Some (Serving g) \<and> clToken (gwClient g) = ''tok'' \<and> gwRegistry g \<noteq> []
    \<and> readyz False (poRouter (gwPoller g)) = text_plain 200 ''ready''"
  using serving_is_sound [OF sample_serves] sample_serves
  by (intro exI conjI) (assumption, auto simp: gateway_client_def New_def sample_loaded_simps)

lemma initial_routes_terminates_witness:
  "\<exists>k \<le> 21. initial_routes (\<lambda>k q. DoFailed ''refused'') (\<lambda>k. 20 < k) (New [] [] []) 0 new_poller
      = Some (poll_result (\<lambda>k q. DoFailed ''refused'') (New [] [] []) k)"
  using initial_routes_terminates [of "\<lambda>k. 3 * int k * second" "\<lambda>k. 20 < k" "\<lambda>k q. DoFailed ''refused''" "New [] [] []"]
  by (auto simp: second_def)

section \<open>Paths\<close>

definition clean_part :: "string \<Rightarrow> bool" where
  "clean_part p \<longleftrightarrow> p \<noteq> [] \<and> p \<noteq> ''.'' \<and> p \<noteq> ''..'' \<and> CHR ''/'' \<notin> set p"

lemma split_on_none: "d \<notin> set s \<Longrightarrow> split_on d s = [s]"
  by (induction s) auto

lemma split_on_append: "d \<notin> set a \<Longrightarrow> split_on d (a @ d # b) = a # split_on d b"
  by (induction a) auto

lemma split_on_free: "p \<in> set (split_on d s) \<Longrightarrow> d \<notin> set p"
  by (induction s arbitrary: p) (auto split: if_splits list.splits)

lemma split_on_join: "ps \<noteq> [] \<Longrightarrow> \<forall>p \<in> set ps. d \<notin> set p \<Longrightarrow> split_on d (join [d] ps) = ps"
  by (induction "[d]" ps rule: join.induct) (auto simp: split_on_none split_on_append)

lemma join_snoc: "ps \<noteq> [] \<Longrightarrow> join [d] ps @ [d] = join [d] (ps @ [[]])"
  by (induction "[d]" ps rule: join.induct) auto

lemma clean_parts_clean:
  "\<forall>p \<in> set ps. CHR ''/'' \<notin> set p \<Longrightarrow> \<forall>p \<in> set st. clean_part p \<Longrightarrow> \<forall>p \<in> set (clean_parts st ps). clean_part p"
proof (induction st ps rule: clean_parts.induct)
  case (2 st p ps)
  have t: "\<forall>p \<in> set (tl st). clean_part p" using 2(5) by (cases st) auto
  consider "p = [] \<or> p = ''.''" | "\<not> (p = [] \<or> p = ''.'')" "p = ''..''" | "\<not> (p = [] \<or> p = ''.'')" "p \<noteq> ''..''" by blast
  then show ?case
  proof cases
    case 1
    with 2(1) [OF 1] 2(4,5) show ?thesis by simp
  next
    case 2
    with 2(1,2) "2.IH"(2) [OF 2] "2.prems" t show ?thesis by simp
  next
    case 3
    then have "clean_part p" using "2.prems"(1) by (simp add: clean_part_def)
    with 3 "2.IH"(3) [OF 3] "2.prems" show ?thesis by simp
  qed
qed simp

lemma clean_parts_id: "\<forall>p \<in> set ps. clean_part p \<Longrightarrow> clean_parts st (ps @ qs) = clean_parts (rev ps @ st) qs"
  by (induction ps arbitrary: st) (auto simp: clean_part_def)

lemma last_join: "ps \<noteq> [] \<Longrightarrow> \<forall>p \<in> set ps. clean_part p \<Longrightarrow> join ''/'' ps \<noteq> [] \<and> last (join ''/'' ps) \<noteq> CHR ''/''"
proof (induction "''/''" ps rule: join.induct)
  case (2 x)
  then show ?case by (auto simp: clean_part_def) (metis last_in_set)
qed auto

text \<open>The cleaned path has its parts, and a slash at the end when the path had one.\<close>

lemma cleanPath_form:
  "\<exists>ps t. (\<forall>p \<in> set ps. clean_part p) \<and> (ps = [] \<longrightarrow> \<not> t)
    \<and> cleanPath p = CHR ''/'' # join ''/'' ps @ (if t then ''/'' else [])"
proof (cases "p = []")
  case True
  then show ?thesis by (intro exI [of _ "[]"] exI [of _ False]) (simp add: cleanPath_def)
next
  case False
  let ?q = "if hd p = CHR ''/'' then p else CHR ''/'' # p"
  let ?ps = "clean_parts [] (split_on (CHR ''/'') ?q)"
  have c: "\<forall>p \<in> set ?ps. clean_part p" by (rule clean_parts_clean) (use split_on_free in blast, simp)
  have "CHR ''/'' # join ''/'' ?ps \<noteq> ''/'' \<longleftrightarrow> ?ps \<noteq> []" using last_join [of ?ps] c by (cases "?ps = []") auto
  then show ?thesis using False c
    by (intro exI [of _ ?ps] exI [of _ "last ?q = CHR ''/'' \<and> ?ps \<noteq> []"]) (simp add: cleanPath_def Let_def)
qed

lemma cleanPath_clean:
  assumes "\<forall>p \<in> set ps. clean_part p" and "ps = [] \<longrightarrow> \<not> t"
  shows "cleanPath (CHR ''/'' # join ''/'' ps @ (if t then ''/'' else [])) = CHR ''/'' # join ''/'' ps @ (if t then ''/'' else [])"
proof (cases "ps = []")
  case True
  with assms(2) show ?thesis by (simp add: cleanPath_def)
next
  case False
  have f: "\<forall>p \<in> set ps. CHR ''/'' \<notin> set p" using assms(1) by (simp add: clean_part_def)
  have "split_on (CHR ''/'') (join ''/'' ps @ (if t then ''/'' else [])) = ps @ (if t then [[]] else [])"
    using False f split_on_join [of "ps @ [[]]" "CHR ''/''"] split_on_join [of ps "CHR ''/''"]
    by (cases t) (auto simp: join_snoc)
  then have "clean_parts [] (split_on (CHR ''/'') (CHR ''/'' # join ''/'' ps @ (if t then ''/'' else []))) = ps"
    using clean_parts_id [OF assms(1), of "[]" "if t then [[]] else []"] by simp
  with False last_join [OF False assms(1)] show ?thesis by (auto simp: cleanPath_def Let_def)
qed

lemma cleanPath_idem: "cleanPath (cleanPath p) = cleanPath p"
  using cleanPath_form [of p] cleanPath_clean by metis

text \<open>What the mux does with a path: a redirect leads to a path that is served, the inference endpoints are not
  shadowed by the others, and the liveness probe does not depend on anything.\<close>

lemma mux_redirect_settles:
  "mux_serve d w r = MovedTo q \<Longrightarrow> q \<noteq> ibPath r \<and> (\<forall>q'. mux_serve d w (r\<lparr>ibPath := q\<rparr>) \<noteq> MovedTo q')"
  using cleanPath_idem [of "ibPath r"] by (fastforce simp: mux_serve_def split: if_splits)

lemma mux_reaches_inference:
  "Detect (ibPath r) \<noteq> None \<Longrightarrow> cleanPath (ibPath r) = ibPath r \<Longrightarrow> mux_serve d w r = Inference (ServeHTTP w r)"
  by (auto simp: mux_serve_def Detect_def has_suffix_def trim_suffix_def has_prefix_def split: if_splits)

lemma healthz_always: "ibPath r = ''/healthz'' \<Longrightarrow> mux_serve d w r = Plain (text_plain 200 ''ok'')"
  by (simp add: mux_serve_def cleanPath_def)

lemma healthCheck_own_server:
  assumes "split listen = Some (host, port)"
    and "probe (''http://127.0.0.1:'' @ port @ ''/healthz'') = Inr (hrStatus (text_plain 200 ''ok''))"
  shows "healthCheck split probe listen = 0"
  using assms by (simp add: healthCheck_def text_plain_def)

section \<open>The life of the process\<close>

text \<open>The default stages fit the grace period of 300 s that the deployment grants.\<close>

lemma default_shutdown_budget:
  "svShutdownTimeout (cfServer c) = 0 \<Longrightarrow> shutdown_budget (applyDefaults c) = 295 * second"
  by (simp add: shutdown_budget_def applyDefaults_def server_defaults_def or_int_def drainDelay_def
      meteringFlushTimeout_def second_def)

text \<open>Seen from the queue, the life of the process is a run of the queue.\<close>

lemma life_step_queue: "life_step l l' \<Longrightarrow> step\<^sup>*\<^sup>* (lfQueue l) (lfQueue l')"
  by (erule life_stepE) (auto intro: r_into_rtranclp step.enqueue_enter step.shutdown)

definition life_inv :: "nat \<Rightarrow> nat \<Rightarrow> life \<Rightarrow> bool" where
  "life_inv cap workers l \<longleftrightarrow> reachable cap workers (lfQueue l)
     \<and> (\<not> lfListening l \<longrightarrow> lfDraining l) \<and> (mqDone (lfQueue l) \<longrightarrow> \<not> lfListening l)
     \<and> (mqDone (lfQueue l) \<and> \<not> lfCut l \<longrightarrow> lfActive l = 0 \<and> drained (lfQueue l))"

lemma drained_when_done:
  "reachable cap workers q \<Longrightarrow> 0 < workers \<Longrightarrow> mqEntered q = {#} \<Longrightarrow> \<not> mqDone q \<Longrightarrow> drained (q\<lparr>mqDone := True\<rparr>)"
  using running_workers [of cap workers q] by (auto simp: drained_def)

lemma life_inv_step:
  assumes "life_step l l'" and "life_inv cap workers l" and "0 < workers"
  shows "life_inv cap workers l'"
proof -
  have "reachable cap workers (lfQueue l')"
    using assms(2) life_step_queue [OF assms(1)] unfolding life_inv_def reachable_def by (blast intro: rtranclp_trans)
  with assms show ?thesis
    by (elim life_stepE) (auto simp: life_inv_def dest: drained_step drained_when_done)
qed

lemma life_inv_reachable:
  "life_reachable cap workers l \<Longrightarrow> 0 < workers \<Longrightarrow> life_inv cap workers l"
  unfolding life_reachable_def
proof (induction rule: rtranclp_induct)
  case base
  show ?case by (simp add: life_inv_def start_life_def reachable_def new_queue_def)
qed (blast intro: life_inv_step)

text \<open>C13: in every order of requests, deliveries and shutdown stages, the queue is closed only after the listener, and
  the listener only once the readiness probe fails; and when the requests were not cut off by the deadline and the
  workers have returned, no request is left and every usage report the queue ever accepted has been
  delivered exactly once.\<close>

theorem graceful_shutdown_bills_all:
  assumes "life_reachable cap workers l" and "0 < workers"
  shows "(mqDone (lfQueue l) \<longrightarrow> \<not> lfListening l)
    \<and> (\<not> lfListening l \<longrightarrow> readyz (lfDraining l) rt = text_plain 503 (''draining'' @ [CHR 10]))
    \<and> (\<not> lfCut l \<and> set (mqWorkers (lfQueue l)) \<subseteq> {Exited} \<longrightarrow>
         lfActive l = 0 \<and> mqEntered (lfQueue l) = {#} \<and> mqCh (lfQueue l) = []
         \<and> mset (mqAccepted (lfQueue l)) = mqDelivered (lfQueue l))"
proof -
  have inv: "life_inv cap workers l" using life_inv_reachable assms by blast
  then have r: "reachable cap workers (lfQueue l)" by (simp add: life_inv_def)
  have "lfActive l = 0 \<and> mqEntered (lfQueue l) = {#} \<and> mqCh (lfQueue l) = []
         \<and> mset (mqAccepted (lfQueue l)) = mqDelivered (lfQueue l)"
    if "\<not> lfCut l" and e: "set (mqWorkers (lfQueue l)) \<subseteq> {Exited}"
  proof -
    have x: "Exited \<in> set (mqWorkers (lfQueue l))"
      using e running_workers [OF r] assms(2) by (cases "mqWorkers (lfQueue l)") auto
    then have "mqDone (lfQueue l)" using running_workers [OF r] by blast
    with inv that(1) have d: "lfActive l = 0" "drained (lfQueue l)" by (simp_all add: life_inv_def)
    with x q_inv_reachable [OF r] show ?thesis by (simp add: drained_def q_inv_def held_exited [OF e])
  qed
  with inv show ?thesis by (auto simp: life_inv_def readyz_def)
qed

lemma graceful_shutdown_bills_all_witness:
  "\<exists>l. life_reachable 1 1 l \<and> mqDone (lfQueue l) \<and> set (mqWorkers (lfQueue l)) \<subseteq> {Exited}
     \<and> mqAccepted (lfQueue l) = [sample_report] \<and> mqDelivered (lfQueue l) = {#sample_report#}"
proof -
  let ?s = sample_report
  let ?l = "\<lambda>d li a q. \<lparr>lfDraining = d, lfListening = li, lfActive = a, lfQueue = q, lfCut = False\<rparr>"
  let ?q0 = "new_queue 1 1"
  let ?q1 = "?q0\<lparr>mqEntered := {#?s#}\<rparr>"
  let ?q2 = "?q1\<lparr>mqEntered := {#}, mqCh := [?s], mqAccepted := [?s]\<rparr>"
  let ?q3 = "?q2\<lparr>mqCh := [], mqTaken := [?s], mqWorkers := [Delivering ?s]\<rparr>"
  let ?q4 = "?q3\<lparr>mqWorkers := [Waiting], mqDelivered := {#?s#}\<rparr>"
  let ?q5 = "?q4\<lparr>mqDone := True\<rparr>"
  let ?q6 = "?q5\<lparr>mqWorkers := [Draining]\<rparr>"
  let ?q7 = "?q6\<lparr>mqWorkers := [Exited]\<rparr>"
  note new_queue_def [simp]
  have "life_step (start_life 1 1) (?l False True 1 ?q0)"
    using request_starts [of "start_life 1 1"] by (simp add: start_life_def)
  moreover have "life_step (?l False True 1 ?q0) (?l False True 0 ?q1)"
    using request_reports [of "?l False True 1 ?q0" 0 ?s] by simp
  moreover have "life_step (?l False True 0 ?q1) (?l False True 0 ?q2)"
    using queue_works [of "?l False True 0 ?q1" ?q2] enqueue_send [of ?s ?q1] by simp
  moreover have "life_step (?l False True 0 ?q2) (?l False True 0 ?q3)"
    using queue_works [of "?l False True 0 ?q2" ?q3] worker_receive [of 0 ?q2 ?s "[]"] by simp
  moreover have "life_step (?l False True 0 ?q3) (?l False True 0 ?q4)"
    using queue_works [of "?l False True 0 ?q3" ?q4] worker_delivered [of 0 ?q3 ?s] by simp
  moreover have "life_step (?l False True 0 ?q4) (?l True True 0 ?q4)"
    using signal [of "?l False True 0 ?q4"] by simp
  moreover have "life_step (?l True True 0 ?q4) (?l True False 0 ?q4)"
    using listener_closes [of "?l True True 0 ?q4"] by simp
  moreover have "life_step (?l True False 0 ?q4) (?l True False 0 ?q5)"
    using requests_drained [of "?l True False 0 ?q4"] by simp
  moreover have "life_step (?l True False 0 ?q5) (?l True False 0 ?q6)"
    using queue_works [of "?l True False 0 ?q5" ?q6] worker_done [of 0 ?q5] by simp
  moreover have "life_step (?l True False 0 ?q6) (?l True False 0 ?q7)"
    using queue_works [of "?l True False 0 ?q6" ?q7] worker_exit [of 0 ?q6] by simp
  ultimately have "life_reachable 1 1 (?l True False 0 ?q7)"
    unfolding life_reachable_def by (meson converse_rtranclp_into_rtranclp r_into_rtranclp)
  from graceful_shutdown_bills_all [OF this, of None] this show ?thesis
    by (intro exI [of _ "?l True False 0 ?q7"]) simp
qed

end
