(* ===== verification/Sha256.thy ===== *)
theory Sha256
  imports Json
begin

text \<open>
  The digest of the standard library's package \<^verbatim>\<open>crypto/sha256\<close> (FIPS 180-4), which names route tables, hides user
  ids and covers the payload of a signed request, with the printing of \<^verbatim>\<open>encoding/hex\<close>. Words have 32 bits.
\<close>

unbundle bit_operations_syntax

type_synonym w32 = "32 word"

section \<open>Constants\<close>

text \<open>
  The constants of the algorithm are computed as the standard derives them, the first 32 bits of the fractional
  parts of the cube roots of the first 64 primes and of the square roots of the first 8. A root is found bit by
  bit from the highest; 40 bits hold the roots of \<open>p * 2 ^ 64\<close> and \<open>p * 2 ^ 96\<close>, and the word drops the integer part.
\<close>

definition root_bit :: "nat \<Rightarrow> int \<Rightarrow> nat \<Rightarrow> int \<Rightarrow> int" where
  "root_bit k m i r = (if (r + 2 ^ i) ^ k \<le> m then r + 2 ^ i else r)"

fun root_floor :: "nat \<Rightarrow> int \<Rightarrow> nat \<Rightarrow> int \<Rightarrow> int" where
  "root_floor k m 0 r = r"
| "root_floor k m (Suc i) r = root_floor k m i (root_bit k m i r)"

definition frac_root :: "nat \<Rightarrow> int \<Rightarrow> w32" where
  "frac_root k p = of_int (root_floor k (p * 2 ^ (32 * k)) 40 0)"

definition small_primes :: "int list" where
  "small_primes = filter (\<lambda>p. \<forall>d \<in> set [2..p - 1]. p mod d \<noteq> 0) [2..311]"

definition sha_K :: "w32 list" where
  "sha_K = map (frac_root 3) small_primes"

definition sha_init :: "w32 list" where
  "sha_init = map (frac_root 2) (take 8 small_primes)"

lemma root_floor_exact:
  assumes "r ^ k \<le> m" and "m < (r + 2 ^ n) ^ k"
  shows "root_floor k m n r ^ k \<le> m \<and> m < (root_floor k m n r + 1) ^ k"
  using assms
proof (induction n arbitrary: r)
  case (Suc n)
  have "r + 2 ^ n + 2 ^ n = r + 2 ^ Suc n" by simp
  with Suc.prems have "root_bit k m n r ^ k \<le> m" "m < (root_bit k m n r + 2 ^ n) ^ k"
    by (auto simp only: root_bit_def not_le split: if_splits)
  then show ?case using Suc.IH by simp
qed simp

lemma small_primes_start: "take 8 small_primes = [2, 3, 5, 7, 11, 13, 17, 19]"
proof -
  have "[2..311] = [2..19] @ [20..311 :: int]" using upto_split2 [of 2 19 311] by (simp del: upto_rec_numeral)
  moreover have "filter (\<lambda>p. \<forall>d \<in> set [2..p - 1]. p mod d \<noteq> 0) [2..19] = [2, 3, 5, 7, 11, 13, 17, 19 :: int]"
    by code_simp
  ultimately show ?thesis by (simp add: small_primes_def del: upto_rec_numeral)
qed

section \<open>Padding\<close>

definition byte_word :: "char \<Rightarrow> w32" where
  "byte_word c = of_nat (ord c)"

text \<open>The length in bits, as 8 bytes, the highest first.\<close>

definition length_bytes :: "nat \<Rightarrow> w32 list" where
  "length_bytes n = map (\<lambda>i. ucast (drop_bit (8 * i) (push_bit 3 (of_nat n :: 64 word)) AND 0xFF)) (rev [0..<8])"

definition padded :: "string \<Rightarrow> w32 list" where
  "padded s = map byte_word s @ [0x80] @ replicate ((119 - length s mod 64) mod 64) 0 @ length_bytes (length s)"

fun be_words :: "w32 list \<Rightarrow> w32 list" where
  "be_words (a # b # c # d # r) = (push_bit 24 a OR push_bit 16 b OR push_bit 8 c OR d) # be_words r"
| "be_words _ = []"

section \<open>One block\<close>

text \<open>The schedule is built with the newest word first.\<close>

definition next_word :: "w32 list \<Rightarrow> w32" where
  "next_word ws =
     (let x = ws ! 14; y = ws ! 1
      in (word_rotr 17 y XOR word_rotr 19 y XOR drop_bit 10 y) + ws ! 6
         + (word_rotr 7 x XOR word_rotr 18 x XOR drop_bit 3 x) + ws ! 15)"

definition schedule :: "w32 list \<Rightarrow> w32 list" where
  "schedule block = rev (((\<lambda>ws. next_word ws # ws) ^^ 48) (rev block))"

fun sha_round :: "w32 list \<Rightarrow> w32 \<times> w32 \<Rightarrow> w32 list" where
  "sha_round [a, b, c, d, e, f, g, h] (k, w) =
     (let t1 = h + (word_rotr 6 e XOR word_rotr 11 e XOR word_rotr 25 e) + ((e AND f) XOR (NOT e AND g)) + k + w;
          t2 = (word_rotr 2 a XOR word_rotr 13 a XOR word_rotr 22 a) + ((a AND b) XOR (a AND c) XOR (b AND c))
      in [t1 + t2, a, b, c, d + t1, e, f, g])"
| "sha_round st kw = st"

definition sha_block :: "w32 list \<Rightarrow> w32 list \<Rightarrow> w32 list" where
  "sha_block st block = map2 (+) st (foldl sha_round st (zip sha_K (schedule block)))"

function sha_blocks :: "w32 list \<Rightarrow> w32 list \<Rightarrow> w32 list" where
  "sha_blocks st ws = (if length ws < 16 then st else sha_blocks (sha_block st (take 16 ws)) (drop 16 ws))"
  by auto
termination by (relation "measure (\<lambda>(st, ws). length ws)") auto

declare sha_blocks.simps [simp del]

definition Sum256 :: "string \<Rightarrow> w32 list" where
  "Sum256 s = sha_blocks sha_init (be_words (padded s))"

section \<open>Printing\<close>

definition hex_word :: "w32 \<Rightarrow> string" where
  "hex_word w = map (\<lambda>i. hex_digit (unat (drop_bit (4 * i) w AND 15))) (rev [0..<8])"

definition hex_sum :: "string \<Rightarrow> string" where
  "hex_sum s = concat (map hex_word (Sum256 s))"

text \<open>The digits of the first 8 bytes.\<close>

definition hex_sum8 :: "string \<Rightarrow> string" where
  "hex_sum8 s = concat (map hex_word (take 2 (Sum256 s)))"

section \<open>Sizes\<close>

lemma sha_round_length [simp]: "length (sha_round st kw) = length st"
  by (cases "(st, kw)" rule: sha_round.cases) (simp_all add: Let_def)

lemma foldl_round_length: "length (foldl sha_round st kws) = length st"
  by (induction kws arbitrary: st) simp_all

lemma sha_block_length [simp]: "length (sha_block st b) = length st"
  by (simp add: sha_block_def foldl_round_length)

lemma sha_blocks_length: "length (sha_blocks st ws) = length st"
proof (induction st ws rule: sha_blocks.induct)
  case (1 st ws)
  then show ?case by (cases "length ws < 16") (simp_all add: sha_blocks.simps [of st ws])
qed

lemma Sum256_length [simp]: "length (Sum256 s) = 8"
  by (simp add: Sum256_def sha_blocks_length sha_init_def small_primes_start)

lemma hex_word_length [simp]: "length (hex_word w) = 8"
  by (simp add: hex_word_def)

lemma concat_hex_length: "length (concat (map hex_word ws)) = 8 * length ws"
  by (induction ws) simp_all

lemma hex_sum_length [simp]: "length (hex_sum s) = 64" "length (hex_sum8 s) = 16"
  by (simp_all add: hex_sum_def hex_sum8_def concat_hex_length)

lemma hex_word_digits: "c \<in> set (hex_word w) \<Longrightarrow> \<exists>n < 16. c = hex_digit n"
proof -
  have "unat (x AND (15 :: w32)) < 16" for x
  proof -
    have "x AND 15 \<le> (15 :: w32)" by (rule word_and_le1)
    then have "unat (x AND 15) \<le> unat (15 :: w32)" by (rule word_le_nat_alt [THEN iffD1])
    then show ?thesis by simp
  qed
  then show "c \<in> set (hex_word w) \<Longrightarrow> \<exists>n < 16. c = hex_digit n" by (auto simp: hex_word_def)
qed

lemma hex_sum_digits: "c \<in> set (hex_sum s) \<Longrightarrow> \<exists>n < 16. c = hex_digit n"
  by (auto simp: hex_sum_def dest: hex_word_digits)

text \<open>The padding fills whole blocks.\<close>

lemma padded_blocks: "length (padded s) mod 64 = 0"
proof -
  define q m where "q = length s div 64" and "m = length s mod 64"
  then have s: "length s = 64 * q + m" "m < 64" by simp_all
  have "length (padded s) = length s + 1 + (119 - m) mod 64 + 8"
    by (simp add: padded_def length_bytes_def m_def)
  moreover have "(119 - m) mod 64 = (if m \<le> 55 then 55 - m else 119 - m)"
  proof (cases "m \<le> 55")
    case True
    then have "119 - m = 55 - m + 64" by simp
    then have "(119 - m) mod 64 = (55 - m) mod 64" by (simp only: mod_add_self2)
    with True show ?thesis by simp
  qed (use s(2) in simp)
  ultimately have "length (padded s) = 64 * (if m \<le> 55 then q + 1 else q + 2)" using s by (simp split: if_splits)
  then show ?thesis by simp
qed

end
