(* ===== verification/RecordProxy.thy ===== *)
theory RecordProxy
  imports Sha256
begin

text \<open>
  \<^verbatim>\<open>tools/recordproxy\<close>: the development proxy that records exchanges between a client and the gateway: names of
  the recordings, redaction of the headers, the request rewriting for Bedrock, and the recorder of a response. A
  header is the list of its names with their values, in the order the loop meets them. The reverse proxy of the standard library and the files are outside; a
  file is its name and what is written to it.
\<close>

section \<open>Names of recordings\<close>

text \<open>The width of the first rune of a text, 1 for a byte that starts none.\<close>

definition between :: "nat \<Rightarrow> nat \<Rightarrow> char \<Rightarrow> bool" where
  "between lo hi c \<longleftrightarrow> lo \<le> ord c \<and> ord c \<le> hi"

abbreviation continuation :: "char \<Rightarrow> bool" where
  "continuation \<equiv> between 0x80 0xBF"

fun rune_width :: "string \<Rightarrow> nat" where
  "rune_width (a # b # c # d # s) =
     (if between 0xC2 0xDF a \<and> continuation b then 2
      else if (ord a = 0xE0 \<and> between 0xA0 0xBF b \<or> ord a = 0xED \<and> between 0x80 0x9F b
               \<or> (between 0xE1 0xEC a \<or> between 0xEE 0xEF a) \<and> continuation b) \<and> continuation c then 3
      else if (ord a = 0xF0 \<and> between 0x90 0xBF b \<or> ord a = 0xF4 \<and> between 0x80 0x8F b
               \<or> between 0xF1 0xF3 a \<and> continuation b) \<and> continuation c \<and> continuation d then 4
      else 1)"
| "rune_width [a, b, c] =
     (if between 0xC2 0xDF a \<and> continuation b then 2
      else if (ord a = 0xE0 \<and> between 0xA0 0xBF b \<or> ord a = 0xED \<and> between 0x80 0x9F b
               \<or> (between 0xE1 0xEC a \<or> between 0xEE 0xEF a) \<and> continuation b) \<and> continuation c then 3
      else 1)"
| "rune_width [a, b] = (if between 0xC2 0xDF a \<and> continuation b then 2 else 1)"
| "rune_width s = 1"

definition name_char :: "char \<Rightarrow> bool" where
  "name_char c \<longleftrightarrow> between 97 122 c \<or> between 65 90 c \<or> between 48 57 c \<or> c \<in> {CHR ''.'', CHR ''-'', CHR ''_''}"

text \<open>\<open>strings.Map\<close>: every other rune becomes one underscore.\<close>

function map_name :: "string \<Rightarrow> string" where
  "map_name [] = []"
| "map_name (c # s) =
     (if name_char c then c # map_name s else CHR ''_'' # map_name (drop (rune_width (c # s) - 1) s))"
  by pat_completeness auto
termination by (relation "measure length") auto

fun replace_dots :: "string \<Rightarrow> string" where
  "replace_dots (a # b # s) =
     (if a = CHR ''.'' \<and> b = CHR ''.'' then CHR ''_'' # replace_dots s else a # replace_dots (b # s))"
| "replace_dots s = s"

definition trim_slashes :: "string \<Rightarrow> string" where
  "trim_slashes s = rev (dropWhile (\<lambda>c. c = CHR ''/'') (rev (dropWhile (\<lambda>c. c = CHR ''/'') s)))"

text \<open>\<open>filepath.IsLocal\<close> of a system with slashes.\<close>

fun clean_relative :: "string list \<Rightarrow> string list \<Rightarrow> string list" where
  "clean_relative st [] = rev st"
| "clean_relative st (p # ps) =
     (if p = [] \<or> p = ''.'' then clean_relative st ps
      else if p = ''..'' \<and> st \<noteq> [] \<and> hd st \<noteq> ''..'' then clean_relative (tl st) ps
      else clean_relative (p # st) ps)"

definition isLocal :: "string \<Rightarrow> bool" where
  "isLocal p \<longleftrightarrow> p \<noteq> [] \<and> hd p \<noteq> CHR ''/''
     \<and> (case clean_relative [] (split_on (CHR ''/'') p) of [] \<Rightarrow> True | q # qs \<Rightarrow> q \<noteq> ''..'')"

definition sanitize :: "string \<Rightarrow> string" where
  "sanitize p =
     (let q = replace_dots (map_name (trim_slashes p)) in if q = [] \<or> \<not> isLocal q then ''root'' else q)"

definition pad3 :: "nat \<Rightarrow> string" where
  "pad3 n = replicate (3 - length (nat_text n)) (CHR ''0'') @ nat_text n"

definition record_name :: "nat \<Rightarrow> string \<Rightarrow> string \<Rightarrow> string" where
  "record_name n reqMethod path = pad3 n @ ''-'' @ reqMethod @ ''-'' @ sanitize path"

section \<open>Headers\<close>

type_synonym headers = "(string \<times> string list) list"

definition credential :: "string \<Rightarrow> bool" where
  "credential k \<longleftrightarrow> (let lk = to_lower k
     in lk = ''authorization'' \<or> lk = ''x-api-key'' \<or> cut_at ''token'' lk \<noteq> None)"

definition header_line :: "string \<Rightarrow> string \<Rightarrow> string" where
  "header_line k v = k @ '': '' @ (if credential k then ''<redacted>'' else v) @ [CHR 10]"

definition headersText :: "string \<Rightarrow> headers \<Rightarrow> string" where
  "headersText first h = first @ [CHR 10] @ concat (map (\<lambda>(k, vs). concat (map (header_line k) vs)) h)"

definition bedrockUnsupportedBeta :: "string list" where
  "bedrockUnsupportedBeta = [''prompt-caching-scope-2026-01-05'']"

definition stripUnsupportedBeta :: "string \<Rightarrow> string" where
  "stripUnsupportedBeta hv =
     join '','' (filter (\<lambda>v. v \<noteq> [] \<and> v \<notin> set bedrockUnsupportedBeta) (map trim_space (split_on (CHR '','') hv)))"

section \<open>Bodies\<close>

definition validUserID :: "string \<Rightarrow> bool" where
  "validUserID s \<longleftrightarrow> (\<forall>c \<in> set s. between 97 122 c \<or> between 65 90 c \<or> between 48 57 c
     \<or> c \<in> {CHR ''_'', CHR ''-'', CHR ''.'', CHR ''@''})"

text \<open>The metadata with its user id replaced by its digest, when it needs to be.\<close>

definition fix_metadata :: "json \<Rightarrow> json option" where
  "fix_metadata raw =
     (case dec_map raw of
        None \<Rightarrow> None
      | Some md \<Rightarrow>
          (case map_of md ''user_id'' of
             None \<Rightarrow> None
           | Some uid \<Rightarrow>
               (case dec_str uid of
                  None \<Rightarrow> None
                | Some s \<Rightarrow> if validUserID s then None
                    else Some (jmap (AList.update ''user_id'' (JStr (hex_sum s)) md)))))"

definition compat_map :: "(string \<times> json) list \<Rightarrow> (string \<times> json) list \<times> bool" where
  "compat_map m =
     (let (m1, c1) = (case Option.bind (map_of m ''metadata'') (fix_metadata) of
                        None \<Rightarrow> (m, False) | Some md \<Rightarrow> (AList.update ''metadata'' md m, True))
      in if map_of m1 ''output_config'' \<noteq> None then (AList.delete ''output_config'' m1, True) else (m1, c1))"

definition bedrockCompat :: "string \<Rightarrow> string \<times> bool" where
  "bedrockCompat body =
     (case unmarshal dec_map body of
        None \<Rightarrow> (body, False)
      | Some m \<Rightarrow> (case compat_map m of (m1, changed) \<Rightarrow>
          if changed then (json_text (jmap m1), True) else (body, False)))"

text \<open>An element of tools: null stays null.\<close>

definition dec_tool :: "(string \<times> json) list option decoder" where
  "dec_tool j = (if j = JNull then Some None else map_option Some (dec_map j))"

definition tool_json :: "(string \<times> json) list option \<Rightarrow> json" where
  "tool_json t = (case t of None \<Rightarrow> JNull | Some m \<Rightarrow> jmap m)"

definition tool_type :: "(string \<times> json) list option \<Rightarrow> string" where
  "tool_type t = (case Option.bind (Option.bind t (\<lambda>m. map_of m ''type'')) dec_str of None \<Rightarrow> [] | Some s \<Rightarrow> s)"

definition hosted :: "(string \<times> json) list option \<Rightarrow> bool" where
  "hosted t \<longleftrightarrow> tool_type t = ''web_search'' \<or> tool_type t = ''web_search_preview''"

definition stripHostedTools :: "string \<Rightarrow> string \<times> bool" where
  "stripHostedTools body =
     (case unmarshal dec_map body of
        None \<Rightarrow> (body, False)
      | Some m \<Rightarrow>
          (case Option.bind (map_of m ''tools'') (dec_arr dec_tool) of
             None \<Rightarrow> (body, False)
           | Some tools \<Rightarrow>
               if \<not> (\<exists>t \<in> set tools. hosted t) then (body, False)
               else (json_text (jmap (AList.update ''tools''
                       (JArr (map tool_json (filter (\<lambda>t. \<not> hosted t) tools))) m)), True)))"

section \<open>One exchange\<close>

type_synonym files = "(string \<times> string) list"

text \<open>What is written before the request goes on, the body that goes on, and its headers.\<close>

definition h_first :: "string \<Rightarrow> headers \<Rightarrow> string" where
  "h_first k h = (case map_of h k of Some (v # vs) \<Rightarrow> v | _ \<Rightarrow> [])"

definition filter_beta :: "headers \<Rightarrow> headers" where
  "filter_beta h =
     (let hv = h_first ''Anthropic-Beta'' h; filtered = stripUnsupportedBeta hv
      in if hv \<noteq> [] \<and> filtered \<noteq> hv
         then (if filtered = [] then AList.delete ''Anthropic-Beta'' h else AList.update ''Anthropic-Beta'' [filtered] h)
         else h)"

definition record_request :: "bool \<Rightarrow> string \<Rightarrow> string \<Rightarrow> string \<Rightarrow> string \<Rightarrow> headers \<Rightarrow> string
    \<Rightarrow> files \<times> string \<times> headers" where
  "record_request bedrock base reqMethod path uri h body =
     (let files = [(base @ ''.req.headers'', headersText (reqMethod @ '' '' @ uri) h), (base @ ''.req.json'', body)];
          post = bedrock \<and> reqMethod = ''POST'';
          (fwd, changed) = (if post \<and> has_suffix ''/v1/responses'' path then stripHostedTools body
                            else if post \<and> has_suffix ''/v1/messages'' path then bedrockCompat body
                            else (body, False));
          h1 = (if post \<and> has_suffix ''/v1/messages'' path then filter_beta h else h)
      in (files @ (if changed then [(base @ ''.req.forwarded.json'', fwd)] else []), fwd,
          AList.update ''Content-Length'' [nat_text (length fwd)] h1))"

text \<open>The recorder: the headers of the response are its own, and what is passed on is what is kept.\<close>

record recorder =
  rcBase :: string
  rcStatus :: int
  rcBuf :: string
  rcSSE :: bool
  rcHeaderDone :: bool
  rcFiles :: files
  rcPassed :: string

datatype recorder_call = CallWriteHeader int headers | CallWrite string headers | CallFlush

definition WriteHeader :: "int \<Rightarrow> headers \<Rightarrow> recorder \<Rightarrow> recorder" where
  "WriteHeader code h rc =
     (let rc1 = rc\<lparr>rcStatus := code\<rparr>
      in if rcHeaderDone rc then rc1
         else rc1\<lparr>rcHeaderDone := True,
                  rcSSE := has_prefix ''text/event-stream'' (to_lower (h_first ''Content-Type'' h)),
                  rcFiles := rcFiles rc @ [(rcBase rc @ ''.res.headers'', headersText (''HTTP '' @ int_text code) h)]\<rparr>)"

fun recorder_do :: "recorder \<Rightarrow> recorder_call \<Rightarrow> recorder" where
  "recorder_do rc (CallWriteHeader code h) = WriteHeader code h rc"
| "recorder_do rc (CallWrite p h) =
     (let rc1 = (if rcHeaderDone rc then rc else WriteHeader 200 h rc)
      in rc1\<lparr>rcBuf := rcBuf rc1 @ p, rcPassed := rcPassed rc1 @ p\<rparr>)"
| "recorder_do rc CallFlush = rc"

definition finish :: "recorder \<Rightarrow> recorder" where
  "finish rc = rc\<lparr>rcFiles := rcFiles rc @ [(rcBase rc @ (if rcSSE rc then ''.res.sse'' else ''.res.body''), rcBuf rc)]\<rparr>"

definition new_recorder :: "string \<Rightarrow> recorder" where
  "new_recorder base = \<lparr>rcBase = base, rcStatus = 0, rcBuf = [], rcSSE = False, rcHeaderDone = False, rcFiles = [], rcPassed = []\<rparr>"

definition record_response :: "string \<Rightarrow> recorder_call list \<Rightarrow> recorder" where
  "record_response base calls = finish (foldl recorder_do (new_recorder base) calls)"

section \<open>Recordings stay in their directory\<close>

lemma name_chars: "\<forall>c \<in> set (map_name s). name_char c"
  by (induction s rule: map_name.induct) (auto simp: name_char_def)

lemma replace_dots_chars: "\<forall>c \<in> set s. name_char c \<Longrightarrow> \<forall>c \<in> set (replace_dots s). name_char c"
  by (induction s rule: replace_dots.induct) (auto simp: name_char_def)

text \<open>No two dots follow each other.\<close>

fun no_dots :: "string \<Rightarrow> bool" where
  "no_dots (a # b # s) \<longleftrightarrow> \<not> (a = CHR ''.'' \<and> b = CHR ''.'') \<and> no_dots (b # s)"
| "no_dots s \<longleftrightarrow> True"

lemma no_dots_Cons: "no_dots (a # s) \<longleftrightarrow> no_dots s \<and> (a = CHR ''.'' \<longrightarrow> (s = [] \<or> hd s \<noteq> CHR ''.''))"
  by (cases s) auto

lemma replace_dots_hd: "s \<noteq> [] \<Longrightarrow> hd s \<noteq> CHR ''.'' \<Longrightarrow> replace_dots s \<noteq> [] \<and> hd (replace_dots s) = hd s"
  by (cases s rule: replace_dots.cases) auto

lemma replace_dots_hd_dot: "s \<noteq> [] \<Longrightarrow> replace_dots s \<noteq> [] \<and> hd (replace_dots s) \<in> {hd s, CHR ''_''}"
  by (cases s rule: replace_dots.cases) auto

lemma replace_dots_none: "no_dots (replace_dots s)"
proof (induction s rule: replace_dots.induct)
  case (1 a b s)
  show ?case
  proof (cases "a = CHR ''.'' \<and> b = CHR ''.''")
    case False
    then have "a = CHR ''.'' \<longrightarrow> hd (replace_dots (b # s)) \<noteq> CHR ''.''"
      using replace_dots_hd [of "b # s"] by auto
    with False 1(2) show ?thesis by (auto simp add: no_dots_Cons)
  qed (use 1 in \<open>simp add: no_dots_Cons\<close>)
qed simp_all

lemma no_dots_append: "no_dots (a @ b) \<Longrightarrow> no_dots b"
  by (induction a) (auto simp: no_dots_Cons)

lemma sanitize_chars: "\<forall>c \<in> set (sanitize p). name_char c"
  by (auto simp: sanitize_def Let_def name_char_def between_def
      dest: replace_dots_chars [OF name_chars, THEN bspec])

text \<open>The methods net/http lets through: tokens of RFC 9110.\<close>

definition token_char :: "char \<Rightarrow> bool" where
  "token_char c \<longleftrightarrow> between 97 122 c \<or> between 65 90 c \<or> between 48 57 c
     \<or> c \<in> set [CHR ''!'', CHR ''#'', CHR ''$'', CHR ''%'', CHR ''&'', CHR 0x27, CHR ''*'', CHR ''+'', CHR ''-'', CHR ''.'',
         CHR ''^'', CHR ''_'', CHR 0x60, CHR ''|'', CHR ''~'']"

text \<open>A name of a file that lies in the directory it is joined to.\<close>

definition in_directory :: "string \<Rightarrow> bool" where
  "in_directory name \<longleftrightarrow> name \<noteq> [] \<and> CHR ''/'' \<notin> set name \<and> name \<noteq> ''.'' \<and> name \<noteq> ''..''"

lemma pad3_digits: "\<forall>c \<in> set (pad3 n). is_digit c" "pad3 n \<noteq> []"
  using nat_text_digits [of n] nat_text_nonempty [of n] by (auto simp: pad3_def is_digit_def)

lemma record_name_in_directory:
  assumes "list_all token_char reqMethod" and "CHR ''/'' \<notin> set ext"
  shows "in_directory (record_name n reqMethod path @ ext)"
proof -
  obtain d ds where p: "pad3 n = d # ds" using pad3_digits(2) [of n] by (cases "pad3 n") auto
  then have d: "is_digit d" "CHR ''/'' \<notin> set (d # ds)" using pad3_digits(1) [of n] by (auto simp: is_digit_def)
  have "CHR ''/'' \<notin> set reqMethod" using assms(1) by (auto simp: list_all_iff token_char_def between_def)
  moreover have "CHR ''/'' \<notin> set (sanitize path)" using sanitize_chars [of path] by (auto simp: name_char_def between_def)
  moreover have "d \<noteq> CHR ''.''" using d(1) by (auto simp: is_digit_def)
  ultimately show ?thesis using p d(2) assms(2) by (simp add: in_directory_def record_name_def)
qed

lemma recorder_names:
  "fst ` set (rcFiles (foldl recorder_do rc calls)) \<subseteq> fst ` set (rcFiles rc) \<union> {rcBase rc @ ''.res.headers''}
   \<and> rcBase (foldl recorder_do rc calls) = rcBase rc"
proof (induction calls arbitrary: rc)
  case (Cons c calls)
  have "rcBase (recorder_do rc c) = rcBase rc"
    "fst ` set (rcFiles (recorder_do rc c)) \<subseteq> fst ` set (rcFiles rc) \<union> {rcBase rc @ ''.res.headers''}"
    by (cases c; auto simp: WriteHeader_def Let_def)+
  with Cons [of "recorder_do rc c"] show ?case unfolding foldl_Cons by (simp only:) blast
qed auto

lemma response_names: "fst ` set (rcFiles (record_response base calls)) \<subseteq> (@) base ` {''.res.headers'', ''.res.sse'', ''.res.body''}"
  using recorder_names [of "new_recorder base" calls]
  by (auto simp: record_response_def finish_def new_recorder_def)

lemma request_names: "fst ` set (fst (record_request bedrock base m path uri h body))
    \<subseteq> (@) base ` {''.req.headers'', ''.req.json'', ''.req.forwarded.json''}"
  by (auto simp: record_request_def Let_def split_beta)

text \<open>C34: whatever the path of a request is and whatever its method, which net/http has checked to be a token, every file
  that is written for the exchange lies in the output directory itself: its name is made of the number, the method and
  the path, is not empty, has no slash and is no name of a directory; and the part made of the path has only letters,
  digits, dots, dashes and underscores, and no two dots in a row.\<close>

theorem recording_stays_in_directory:
  assumes "list_all token_char reqMethod"
  shows "list_all (\<lambda>(name, content). in_directory name)
      (fst (record_request bedrock (record_name n reqMethod path) reqMethod path uri h body)
       @ rcFiles (record_response (record_name n reqMethod path) calls))
    \<and> sanitize path \<noteq> [] \<and> list_all name_char (sanitize path) \<and> (\<nexists>a b. sanitize path = a @ ''..'' @ b)"
proof -
  let ?base = "record_name n reqMethod path"
  have dir: "in_directory (?base @ ext)" if "CHR ''/'' \<notin> set ext" for ext
    using record_name_in_directory [OF assms that] .
  have "in_directory f" if "f \<in> fst ` set (fst (record_request bedrock ?base reqMethod path uri h body))" for f
    using subsetD [OF request_names that] by (auto intro!: dir)
  moreover have "in_directory f" if "f \<in> fst ` set (rcFiles (record_response ?base calls))" for f
    using subsetD [OF response_names that] by (auto intro!: dir)
  ultimately have "list_all (\<lambda>(name, content). in_directory name)
      (fst (record_request bedrock ?base reqMethod path uri h body) @ rcFiles (record_response ?base calls))"
    by (fastforce simp: list_all_iff)
  moreover have "no_dots (sanitize path)" using replace_dots_none by (simp add: sanitize_def Let_def)
  then have "\<nexists>a b. sanitize path = a @ ''..'' @ b" using no_dots_append by fastforce
  moreover have "sanitize path \<noteq> []" by (simp add: sanitize_def Let_def)
  ultimately show ?thesis using sanitize_chars [of path] by (simp add: list_all_iff)
qed

lemma recording_stays_in_directory_witness:
  "list_all (\<lambda>(name, content). in_directory name)
     (fst (record_request False (record_name 1 ''POST'' ''/../etc/passwd'') ''POST'' ''/../etc/passwd'' ''/../etc/passwd'' [] ''x''))"
  using recording_stays_in_directory [of "''POST''" False 1 "''/../etc/passwd''" "''/../etc/passwd''" "[]" "''x''" "[]"]
  by (simp add: token_char_def between_def)

section \<open>Credentials are not recorded\<close>

text \<open>Headers that differ only in the values of credentials.\<close>

definition same_but_credentials :: "headers \<Rightarrow> headers \<Rightarrow> bool" where
  "same_but_credentials = list_all2 (\<lambda>(k, vs) (k', vs'). k' = k
     \<and> (if credential k then length vs' = length vs else vs' = vs))"

lemma header_lines_same:
  "length vs = length ws \<Longrightarrow> credential k \<Longrightarrow> map (header_line k) vs = map (header_line k) ws"
  by (induction vs ws rule: list_induct2) (simp_all add: header_line_def)

lemma recorded_headers_hide_credentials:
  "same_but_credentials h h' \<Longrightarrow> headersText first h = headersText first h'"
  unfolding same_but_credentials_def headersText_def
  by (induction rule: list_all2_induct) (auto split: if_splits dest: header_lines_same)

lemma credentials_named: "credential ''Authorization'' \<and> credential ''X-Api-Key'' \<and> credential ''X-Higress-Token''"
  by code_simp

section \<open>What goes on to Bedrock\<close>

lemma hex_digit_valid: "n < 16 \<Longrightarrow> validUserID [hex_digit n]"
  by (auto simp: hex_digit_def validUserID_def between_def)

lemma hex_sum_valid [simp]: "validUserID (hex_sum s)"
  using hex_digit_valid by (fastforce simp: validUserID_def dest: hex_sum_digits)

lemma fix_metadata_valid:
  assumes "fix_metadata raw = Some md" and "json_ok raw"
  shows "fix_metadata md = None \<and> json_ok md"
proof -
  obtain m uid s where m: "dec_map raw = Some m" "map_of m ''user_id'' = Some uid" "dec_str uid = Some s"
    and md: "md = jmap (AList.update ''user_id'' (JStr (hex_sum s)) m)"
    using assms(1) by (auto simp: fix_metadata_def split: option.splits if_splits)
  have "map_ok (AList.update ''user_id'' (JStr (hex_sum s)) m)" using dec_map_ok [OF assms(2) m(1)] by simp
  with md show ?thesis by (simp add: fix_metadata_def dec_map_jmap update_conv')
qed

definition meta_ok :: "(string \<times> json) list \<Rightarrow> bool" where
  "meta_ok m \<longleftrightarrow> Option.bind (map_of m ''metadata'') (fix_metadata) = None \<and> map_of m ''output_config'' = None"

lemma compat_unchanged: "compat_map m = (m1, False) \<longleftrightarrow> meta_ok m \<and> m1 = m"
  by (auto simp: compat_map_def meta_ok_def Let_def split: option.splits if_splits)

lemma compat_map_ok:
  assumes "map_ok m"
  shows "map_ok (fst (compat_map m)) \<and> meta_ok (fst (compat_map m))
    \<and> (\<forall>k. k \<notin> {''metadata'', ''output_config''} \<longrightarrow> map_of (fst (compat_map m)) k = map_of m k)"
proof (cases "Option.bind (map_of m ''metadata'') (fix_metadata)")
  case None
  with assms(1) show ?thesis
    by (auto simp: compat_map_def meta_ok_def Let_def delete_conv')
next
  case (Some md)
  then obtain raw where raw: "map_of m ''metadata'' = Some raw" "fix_metadata raw = Some md"
    by (auto simp: Option.bind_eq_Some_conv)
  have "fix_metadata md = None" "json_ok md"
    using fix_metadata_valid [OF raw(2)] map_ok_lookup [OF assms(1) raw(1)] by simp_all
  with Some assms(1) show ?thesis
    by (auto simp: compat_map_def meta_ok_def Let_def delete_conv' update_conv')
qed

text \<open>The body has a user id that Bedrock refuses: its metadata and the id.\<close>

definition refused_user :: "(string \<times> json) list \<Rightarrow> (string \<times> json) list \<Rightarrow> string \<Rightarrow> bool" where
  "refused_user m md s \<longleftrightarrow> (\<exists>raw uid. map_of m ''metadata'' = Some raw \<and> dec_map raw = Some md
     \<and> map_of md ''user_id'' = Some uid \<and> dec_str uid = Some s \<and> \<not> validUserID s)"

lemma fix_refused: "refused_user m md s \<longleftrightarrow> (\<exists>raw uid. map_of m ''metadata'' = Some raw \<and> dec_map raw = Some md
    \<and> map_of md ''user_id'' = Some uid \<and> dec_str uid = Some s
    \<and> fix_metadata raw = Some (jmap (AList.update ''user_id'' (JStr (hex_sum s)) md)))"
  unfolding refused_user_def
  by (intro iff_exI conj_cong refl) (simp add: fix_metadata_def)

lemma not_refused: "(\<nexists>md s. refused_user m md s) \<longleftrightarrow> Option.bind (map_of m ''metadata'') fix_metadata = None"
  by (auto simp: refused_user_def fix_metadata_def split: option.splits bind_splits)

lemma compat_metadata:
  assumes "map_ok m" and "compat_map m = (m1, c)"
  shows "c \<longleftrightarrow> (\<exists>md s. refused_user m md s) \<or> map_of m ''output_config'' \<noteq> None"
    and "\<forall>md s. refused_user m md s \<longrightarrow> (\<exists>raw md'. map_of m1 ''metadata'' = Some raw \<and> dec_map raw = Some md'
           \<and> map_of md' ''user_id'' = Some (JStr (hex_sum s)) \<and> (\<forall>k. k \<noteq> ''user_id'' \<longrightarrow> map_of md' k = map_of md k))"
    and "(\<nexists>md s. refused_user m md s) \<longrightarrow> map_of m1 ''metadata'' = map_of m ''metadata''"
proof -
  show "c \<longleftrightarrow> (\<exists>md s. refused_user m md s) \<or> map_of m ''output_config'' \<noteq> None"
  proof (cases "\<exists>md s. refused_user m md s")
    case True
    then obtain x where "Option.bind (map_of m ''metadata'') fix_metadata = Some x" using not_refused [of m] by auto
    with True assms(2) show ?thesis by (auto simp: compat_map_def Let_def split: if_splits)
  next
    case False
    with assms(2) show ?thesis using not_refused [of m] by (auto simp: compat_map_def Let_def split: if_splits)
  qed
  show "\<forall>md s. refused_user m md s \<longrightarrow> (\<exists>raw md'. map_of m1 ''metadata'' = Some raw \<and> dec_map raw = Some md'
      \<and> map_of md' ''user_id'' = Some (JStr (hex_sum s)) \<and> (\<forall>k. k \<noteq> ''user_id'' \<longrightarrow> map_of md' k = map_of md k))"
  proof (intro allI impI)
    fix md s assume "refused_user m md s"
    then obtain raw where raw: "map_of m ''metadata'' = Some raw" "dec_map raw = Some md"
      "fix_metadata raw = Some (jmap (AList.update ''user_id'' (JStr (hex_sum s)) md))" by (auto simp: fix_refused)
    let ?md = "AList.update ''user_id'' (JStr (hex_sum s)) md"
    have ok: "map_ok ?md" using dec_map_ok [OF map_ok_lookup [OF assms(1) raw(1)] raw(2)] by simp
    have "map_of m1 ''metadata'' = Some (jmap ?md)"
      using raw assms(2) by (auto simp: compat_map_def Let_def update_conv' delete_conv' split: if_splits)
    with dec_map_jmap [OF ok] map_of_sorted [OF ok] show "\<exists>raw md'. map_of m1 ''metadata'' = Some raw \<and> dec_map raw = Some md'
        \<and> map_of md' ''user_id'' = Some (JStr (hex_sum s)) \<and> (\<forall>k. k \<noteq> ''user_id'' \<longrightarrow> map_of md' k = map_of md k)"
      by (intro exI [of _ "jmap ?md"] exI [of _ "sort_key fst ?md"]) (simp add: update_conv')
  qed
  show "(\<nexists>md s. refused_user m md s) \<longrightarrow> map_of m1 ''metadata'' = map_of m ''metadata''"
    unfolding not_refused using assms(2) by (auto simp: compat_map_def Let_def delete_conv' split: if_splits)
qed

text \<open>C39: the body forwarded to Bedrock is rewritten exactly when the client's is an object with a refused user id or with
  output_config, and is the client's own otherwise. Rewritten, it has no output_config; a refused user id is replaced by
  its SHA-256 digest, beside the other members of the metadata; every other member is as it was; and rewriting it again
  changes nothing.\<close>

theorem bedrock_body_compatible:
  assumes "bedrockCompat body = (out, changed)"
  shows "(changed \<longleftrightarrow> (\<exists>m. unmarshal dec_map body = Some m
        \<and> ((\<exists>md s. refused_user m md s) \<or> map_of m ''output_config'' \<noteq> None)))
    \<and> (\<not> changed \<longrightarrow> out = body)
    \<and> (changed \<longrightarrow> (\<exists>m m'. unmarshal dec_map body = Some m \<and> unmarshal dec_map out = Some m' \<and> meta_ok m'
         \<and> (\<forall>md s. refused_user m md s \<longrightarrow> (\<exists>raw md'. map_of m' ''metadata'' = Some raw \<and> dec_map raw = Some md'
              \<and> map_of md' ''user_id'' = Some (JStr (hex_sum s)) \<and> (\<forall>k. k \<noteq> ''user_id'' \<longrightarrow> map_of md' k = map_of md k)))
         \<and> ((\<nexists>md s. refused_user m md s) \<longrightarrow> map_of m' ''metadata'' = map_of m ''metadata'')
         \<and> (\<forall>k. k \<notin> {''metadata'', ''output_config''} \<longrightarrow> map_of m' k = map_of m k)))
    \<and> bedrockCompat out = (out, False)"
proof (cases "unmarshal dec_map body")
  case None
  with assms show ?thesis by (simp add: bedrockCompat_def)
next
  case (Some m)
  obtain m1 c where c: "compat_map m = (m1, c)" by fastforce
  have ok: "map_ok m1" "meta_ok m1" "\<forall>k. k \<notin> {''metadata'', ''output_config''} \<longrightarrow> map_of m1 k = map_of m k"
    using compat_map_ok [of m] unmarshal_map_ok [OF Some] c by auto
  note meta = compat_metadata [OF unmarshal_map_ok [OF Some] c]
  show ?thesis
  proof (cases c)
    case True
    then have out: "out = json_text (jmap m1)" "changed" using Some c assms by (simp_all add: bedrockCompat_def)
    let ?m = "sort_key fst m1"
    have m: "unmarshal dec_map out = Some ?m" unfolding out using ok(1) by (rule unmarshal_map)
    have same: "map_of ?m = map_of m1" using ok(1) by simp
    then have "meta_ok ?m" using ok(2) by (simp add: meta_ok_def)
    moreover from this have "compat_map ?m = (?m, False)" by (simp add: compat_unchanged)
    then have "bedrockCompat out = (out, False)" using m by (simp add: bedrockCompat_def)
    ultimately show ?thesis using Some m ok(3) same out(2) meta True by simp
  next
    case False
    with Some c assms have "out = body" "\<not> changed" by (auto simp: bedrockCompat_def)
    with False Some c meta(1) show ?thesis by (simp add: bedrockCompat_def)
  qed
qed

definition sample_body :: json where
  "sample_body = JObj [(''model'', JStr ''m''), (''metadata'', JObj [(''user_id'', JStr ''a b'')]), (''output_config'', JNull)]"

lemma sample_compat:
  "bedrockCompat (json_text sample_body)
    = (json_text (JObj [(''metadata'', JObj [(''user_id'', JStr (hex_sum ''a b''))]), (''model'', JStr ''m'')]), True)"
proof -
  have v: "\<not> validUserID ''a b''" by (simp add: validUserID_def between_def)
  show ?thesis
    by (simp add: bedrockCompat_def sample_body_def dec_map_def compat_map_def fix_metadata_def v jmap_def)
qed

lemma bedrock_body_compatible_witness:
  "snd (bedrockCompat (json_text sample_body))
    \<and> bedrockCompat (fst (bedrockCompat (json_text sample_body))) = (fst (bedrockCompat (json_text sample_body)), False)"
  using bedrock_body_compatible [OF sample_compat] unfolding sample_compat by simp

text \<open>The hosted tools are gone, the others are there in their order, and a second pass finds nothing to do.\<close>

lemma those_tools: "those (map dec_tool (map tool_json ts)) = Some (map (map_option (sort_key fst)) ts)"
  if "\<forall>t \<in> set ts. \<forall>m. t = Some m \<longrightarrow> map_ok m"
  using that
proof (induction ts)
  case (Cons t ts)
  have "jmap m \<noteq> JNull" for m by (simp add: jmap_def)
  with Cons show ?case by (cases t) (simp_all add: dec_tool_def tool_json_def dec_map_jmap)
qed simp

lemma dec_tool_ok: "json_ok j \<Longrightarrow> dec_tool j = Some (Some m) \<Longrightarrow> map_ok m"
  by (auto simp: dec_tool_def split: if_splits dest: dec_map_ok)

lemma those_Some: "those (map f xs) = Some ys \<Longrightarrow> list_all2 (\<lambda>x y. f x = Some y) xs ys"
  by (induction xs arbitrary: ys) (auto split: option.splits)

lemma dec_tools_ok:
  assumes "json_ok j" and "dec_arr dec_tool j = Some ts"
  shows "\<forall>t \<in> set ts. \<forall>m. t = Some m \<longrightarrow> map_ok m"
proof (cases j)
  case (JArr xs)
  then have "list_all2 (\<lambda>x y. dec_tool x = Some y) xs ts" using assms(2) by (simp add: those_Some)
  moreover have "\<forall>x \<in> set xs. json_ok x" using assms(1) JArr by simp
  ultimately show ?thesis
    by (induction rule: list_all2_induct) (auto dest: dec_tool_ok)
qed (use assms(2) in auto)

lemma hosted_sorted: "\<forall>m. t = Some m \<longrightarrow> map_ok m \<Longrightarrow> hosted (map_option (sort_key fst) t) = hosted t"
  by (cases t) (simp_all add: hosted_def tool_type_def)

lemma map_ok_tools: "\<forall>t \<in> set ts. \<forall>m. t = Some m \<longrightarrow> map_ok m \<Longrightarrow> json_ok (JArr (map tool_json ts))"
  by (auto simp: tool_json_def split: option.split)

lemma hosted_tools_stripped:
  assumes "stripHostedTools body = (out, True)"
  shows "\<exists>m m' tools. unmarshal dec_map body = Some m \<and> Option.bind (map_of m ''tools'') (dec_arr dec_tool) = Some tools
    \<and> unmarshal dec_map out = Some m'
    \<and> Option.bind (map_of m' ''tools'') (dec_arr dec_tool)
        = Some (map (map_option (sort_key fst)) (filter (\<lambda>t. \<not> hosted t) tools))
    \<and> (\<forall>k. k \<noteq> ''tools'' \<longrightarrow> map_of m' k = map_of m k)
    \<and> stripHostedTools out = (out, False)"
proof -
  obtain m tools where m: "unmarshal dec_map body = Some m"
    and t: "Option.bind (map_of m ''tools'') (dec_arr dec_tool) = Some tools"
    and out: "out = json_text (jmap (AList.update ''tools'' (JArr (map tool_json (filter (\<lambda>t. \<not> hosted t) tools))) m))"
    using assms by (auto simp: stripHostedTools_def split: option.splits if_splits)
  obtain j where j: "map_of m ''tools'' = Some j" "dec_arr dec_tool j = Some tools" using t by (auto simp: Option.bind_eq_Some_conv)
  have ok: "map_ok m" using m by (rule unmarshal_map_ok)
  have ts: "\<forall>t \<in> set tools. \<forall>m. t = Some m \<longrightarrow> map_ok m"
    using dec_tools_ok [OF map_ok_lookup [OF ok j(1)] j(2)] .
  let ?keep = "filter (\<lambda>t. \<not> hosted t) tools"
  let ?m = "AList.update ''tools'' (JArr (map tool_json ?keep)) m"
  have "json_ok (JArr (map tool_json ?keep))" using ts by (intro map_ok_tools) auto
  with ok have okm: "map_ok ?m" by (rule map_ok_update)
  have u: "unmarshal dec_map out = Some (sort_key fst ?m)" unfolding out using okm by (rule unmarshal_map)
  have same: "map_of (sort_key fst ?m) = map_of ?m" using okm by (rule map_of_sorted)
  have k: "Option.bind (map_of (sort_key fst ?m) ''tools'') (dec_arr dec_tool) = Some (map (map_option (sort_key fst)) ?keep)"
    unfolding same using ts by (simp only: update_conv' fun_upd_same bind.bind_lunit dec_arr.simps)
      (intro those_tools; auto)
  have "\<not> (\<exists>t \<in> set (map (map_option (sort_key fst)) ?keep). hosted t)"
    using ts hosted_sorted by auto
  then have "stripHostedTools out = (out, False)" using u k by (simp add: stripHostedTools_def)
  moreover have "\<forall>k. k \<noteq> ''tools'' \<longrightarrow> map_of (sort_key fst ?m) k = map_of m k" unfolding same by (simp add: update_conv')
  ultimately show ?thesis using m t u k by blast
qed

section \<open>The recorder\<close>

definition written :: "recorder_call list \<Rightarrow> string" where
  "written calls = concat (map (\<lambda>c. case c of CallWrite p h \<Rightarrow> p | _ \<Rightarrow> []) calls)"

definition answers :: "recorder_call \<Rightarrow> bool" where
  "answers c \<longleftrightarrow> c \<noteq> CallFlush"

text \<open>The headers are recorded once, at the first call that answers, and the body as it was passed on.\<close>

lemma recorder_run:
  "let rc = foldl recorder_do (new_recorder base) calls
   in rcBuf rc = written calls \<and> rcPassed rc = written calls \<and> rcBase rc = base
     \<and> rcHeaderDone rc = (\<exists>c \<in> set calls. answers c)
     \<and> map fst (rcFiles rc) = (if \<exists>c \<in> set calls. answers c then [base @ ''.res.headers''] else [])"
proof (induction calls rule: rev_induct)
  case (snoc c calls)
  then show ?case
    by (cases c) (auto simp: Let_def written_def answers_def WriteHeader_def)
qed (simp add: new_recorder_def written_def)

lemma response_recorded:
  assumes "record_response base calls = rc"
  shows "rcPassed rc = written calls
    \<and> last (rcFiles rc) = (base @ (if rcSSE rc then ''.res.sse'' else ''.res.body''), written calls)
    \<and> map fst (butlast (rcFiles rc)) = (if \<exists>c \<in> set calls. answers c then [base @ ''.res.headers''] else [])"
  using recorder_run [of base calls] assms by (auto simp: record_response_def finish_def Let_def)

text \<open>The kind of the body is taken from the first header call: after an informational response the recording of a
  stream gets the name of a plain body.\<close>

lemma stream_after_early_hints:
  "map fst (rcFiles (record_response base [CallWriteHeader 103 [], CallWriteHeader 200 [(''Content-Type'', [''text/event-stream''])],
      CallWrite d [(''Content-Type'', [''text/event-stream''])]]))
    = [base @ ''.res.headers'', base @ ''.res.body'']"
  by (simp add: record_response_def new_recorder_def WriteHeader_def h_first_def finish_def has_prefix_def to_lower_def)

end
