(* ===== verification/SigV4.thy ===== *)
theory SigV4
  imports Provider Sha256
begin

text \<open>
  \<^verbatim>\<open>provider/sigv4.go\<close>: where the credentials of an \<^verbatim>\<open>aws_iam\<close> provider come from and what its requests are signed
  with. The AWS SDK is outside: loading its configuration for a region (\<open>load_aws\<close>), getting credentials
  from a source (\<open>retrieve\<close>) and the signature (\<open>sign\<close>) are arguments; the caller identity that is only logged is left out.
\<close>

text \<open>The default chain, or a role assumed through STS: the region of STS, the role, the session and the external id.\<close>

datatype credentials_source =
    DefaultChain string
  | AssumedRole string string string "string option"

record sigV4Auth =
  saCreds :: credentials_source
  saRegion :: string

definition bedrockServiceName :: string where "bedrockServiceName = ''bedrock''"

text \<open>How long before they expire credentials are refreshed: in nanoseconds, with the share of jitter in percent.\<close>

definition credentialsCacheOptions :: "int \<times> int" where
  "credentialsCacheOptions = (5 * 60 * second, 10)"

definition sts_region :: "string \<Rightarrow> string \<Rightarrow> ProviderConfig \<Rightarrow> string" where
  "sts_region env_region env_default pc = or_str (or_str (or_str (pcSTSRegion pc) env_region) env_default) (pcRegion pc)"

definition credentials_of :: "string \<Rightarrow> string \<Rightarrow> ProviderConfig \<Rightarrow> credentials_source" where
  "credentials_of region code pc =
     (if pcRoleARN pc \<noteq> []
      then AssumedRole region (pcRoleARN pc) (''llm-gateway-'' @ code)
             (if pcExternalID pc \<noteq> [] then Some (pcExternalID pc) else None)
      else DefaultChain region)"

definition newSigV4 :: "(string \<Rightarrow> err option) \<Rightarrow> (credentials_source \<Rightarrow> 'k result) \<Rightarrow> string \<Rightarrow> string
    \<Rightarrow> string \<Rightarrow> ProviderConfig \<Rightarrow> sigV4Auth result" where
  "newSigV4 load_aws retrieve env_region env_default code pc =
     (let region = sts_region env_region env_default pc
      in case load_aws region of
           Some e \<Rightarrow> Inl (''load aws config: '' @ e)
         | None \<Rightarrow>
             (let creds = credentials_of region code pc
              in case retrieve creds of
                   Inl e \<Rightarrow> Inl (''resolve aws credentials: '' @ e)
                 | Inr _ \<Rightarrow> Inr \<lparr>saCreds = creds, saRegion = pcRegion pc\<rparr>))"

definition sigV4_Authenticate :: "(credentials_source \<Rightarrow> 'k result)
    \<Rightarrow> ('k \<Rightarrow> header \<Rightarrow> string \<Rightarrow> string \<Rightarrow> string \<Rightarrow> header result) \<Rightarrow> sigV4Auth \<Rightarrow> header \<Rightarrow> string \<Rightarrow> header result" where
  "sigV4_Authenticate retrieve sign s h body =
     (case retrieve (saCreds s) of
        Inl e \<Rightarrow> Inl (''aws credentials: '' @ e)
      | Inr k \<Rightarrow> sign k (h_del ''x-api-key'' (h_del ''Authorization'' h)) (hex_sum body) bedrockServiceName (saRegion s))"

section \<open>Against the interface of the registry\<close>

text \<open>The two arguments that Build and Authenticate of a provider have for this code.\<close>

definition aws_errors :: "(string \<Rightarrow> err option) \<Rightarrow> (credentials_source \<Rightarrow> 'k result) \<Rightarrow> string \<Rightarrow> string
    \<Rightarrow> string \<Rightarrow> ProviderConfig \<Rightarrow> err option" where
  "aws_errors load_aws retrieve env_region env_default code pc =
     (case newSigV4 load_aws retrieve env_region env_default code pc of Inl e \<Rightarrow> Some e | Inr _ \<Rightarrow> None)"

definition sdk_signer :: "(credentials_source \<Rightarrow> 'k result)
    \<Rightarrow> ('k \<Rightarrow> header \<Rightarrow> string \<Rightarrow> string \<Rightarrow> string \<Rightarrow> header result) \<Rightarrow> sigV4Auth \<Rightarrow> header \<Rightarrow> string \<Rightarrow> header result" where
  "sdk_signer retrieve sign s h body =
     (case retrieve (saCreds s) of
        Inl e \<Rightarrow> Inl (''aws credentials: '' @ e)
      | Inr k \<Rightarrow> sign k h (hex_sum body) bedrockServiceName (saRegion s))"

lemma sigV4_Authenticate_refines:
  "sigV4_Authenticate retrieve sign s h body = Authenticate_sigv4 (sdk_signer retrieve sign s) h body"
  by (simp add: sigV4_Authenticate_def Authenticate_sigv4_def sdk_signer_def)

lemma h_del_other: "to_lower n \<noteq> to_lower m \<Longrightarrow> h_values n (h_del m h) = h_values n h"
  by simp

lemma auth_names [simp]:
  "to_lower ''Authorization'' = ''authorization''" "to_lower ''x-api-key'' = ''x-api-key''"
  by code_simp+

text \<open>What is signed: the exact body under the provider's own region, no authentication that a client sent, every other
  field as it was; with credentials of the configured role, whose STS calls stay in the configured region.\<close>

theorem sigv4_signs_exactly:
  assumes "newSigV4 load_aws retrieve env_region env_default code pc = Inr s"
    and "sigV4_Authenticate retrieve sign s h body = Inr h'"
  shows "\<exists>k h0. retrieve (credentials_of (sts_region env_region env_default pc) code pc) = Inr k
    \<and> sign k h0 (hex_sum body) ''bedrock'' (pcRegion pc) = Inr h'
    \<and> h_values ''Authorization'' h0 = [] \<and> h_values ''x-api-key'' h0 = []
    \<and> (\<forall>n. to_lower n \<notin> {''authorization'', ''x-api-key''} \<longrightarrow> h_values n h0 = h_values n h)
    \<and> (pcSTSRegion pc \<noteq> [] \<longrightarrow> sts_region env_region env_default pc = pcSTSRegion pc)
    \<and> (pcRoleARN pc \<noteq> [] \<longrightarrow> (\<exists>x. saCreds s = AssumedRole (sts_region env_region env_default pc) (pcRoleARN pc) (''llm-gateway-'' @ code) x
         \<and> (x = None \<longleftrightarrow> pcExternalID pc = [])))"
proof -
  have s: "saCreds s = credentials_of (sts_region env_region env_default pc) code pc" "saRegion s = pcRegion pc"
    using assms(1) by (auto simp: newSigV4_def Let_def split: option.splits sum.splits)
  obtain k where k: "retrieve (saCreds s) = Inr k"
    "sign k (h_del ''x-api-key'' (h_del ''Authorization'' h)) (hex_sum body) bedrockServiceName (saRegion s) = Inr h'"
    using assms(2) by (auto simp: sigV4_Authenticate_def split: sum.splits)
  then show ?thesis unfolding s
    by (intro exI [of _ k] exI [of _ "h_del ''x-api-key'' (h_del ''Authorization'' h)"])
      (auto simp: bedrockServiceName_def sts_region_def or_str_def credentials_of_def)
qed

end
