(* ===== verification/RelayProps.thy ===== *)
theory RelayProps
  imports Relay
begin

text \<open>
  The properties of the relay: what it sends and bills does not depend on how the network cuts the
  stream into pieces; a stream passed through arrives byte for byte; a translated stream is a complete
  message; and which responses are billed.
\<close>

section \<open>The lines and events of a stream\<close>

function lines_of :: "string \<Rightarrow> string list" where
  "lines_of s = (case take_line s of Some (l, r) \<Rightarrow> l # lines_of r | None \<Rightarrow> if s = [] then [] else [s])"
  by pat_completeness auto
termination by (relation "measure length") (auto dest: take_line_length)

declare lines_of.simps [simp del]

lemma lines_of_Nil [simp]: "lines_of [] = []"
  by (simp add: lines_of.simps)

lemma lines_of_line [simp]: "newline \<notin> set l \<Longrightarrow> lines_of (l @ newline # r) = l # lines_of r"
  by (subst lines_of.simps) (simp add: take_line_append)

lemma lines_of_take: "take_line b = Some (l, r) \<Longrightarrow> lines_of (b @ z) = l # lines_of (r @ z)"
  by (auto dest!: take_line_Some)

lemma lines_of_last: "take_line b = None \<Longrightarrow> b \<noteq> [] \<Longrightarrow> lines_of b = [b]"
  by (subst lines_of.simps) simp

lemma lines_of_prefix:
  assumes "take_line b = None" and "b \<noteq> []"
  shows "\<exists>l \<in> set (lines_of (b @ z)). length b \<le> length l"
proof (cases "take_line z")
  case None
  with assms have "take_line (b @ z) = None" by (simp add: take_line_None)
  with assms(2) show ?thesis by (simp add: lines_of_last)
next
  case (Some p)
  then obtain l r where "z = l @ newline # r" "newline \<notin> set l" by (cases p) (auto dest: take_line_Some)
  then have "lines_of (b @ z) = (b @ l) # lines_of r"
    using assms(1) lines_of_line [of "b @ l" r] by (simp add: take_line_None)
  then show ?thesis by simp
qed

text \<open>A line that the scanner can hold.\<close>

definition short_lines :: "nat \<Rightarrow> string \<Rightarrow> bool" where
  "short_lines mx s \<longleftrightarrow> (\<forall>l \<in> set (lines_of s). length l < mx)"

lemma short_buffer: "short_lines mx (b @ z) \<Longrightarrow> take_line b = None \<Longrightarrow> 0 < mx \<Longrightarrow> length b < mx"
  using lines_of_prefix [of b z] by (cases "b = []") (fastforce simp: short_lines_def)+

lemma short_rest: "short_lines mx (b @ z) \<Longrightarrow> take_line b = Some (l, r) \<Longrightarrow> short_lines mx (r @ z)"
  by (simp add: short_lines_def lines_of_take)

section \<open>The loop over lines\<close>

fun run_lines :: "relay_ctx \<Rightarrow> relay_state \<Rightarrow> string list \<Rightarrow> relay_state" where
  "run_lines c s [] = s"
| "run_lines c s (l # ls) = (if stopped s then s else run_lines c (on_line c l s) ls)"

lemma run_lines_stopped [simp]: "stopped s \<Longrightarrow> run_lines c s ls = s"
  by (cases ls) simp_all

lemmas line_defs = on_line_def dispatch_def translate_event_def write_frames_def fw_write_def Let_def ended_def

lemma stopped_first [simp]: "stopped (s\<lparr>rsFirst := f\<rparr>) = stopped s"
  by (simp add: stopped_def)

lemma on_line_first: "on_line c l (s\<lparr>rsFirst := f\<rparr>) = (on_line c l s)\<lparr>rsFirst := f\<rparr>"
  by (auto simp: line_defs split: option.splits sum.splits prod.splits)

lemma run_lines_first: "run_lines c (s\<lparr>rsFirst := f\<rparr>) ls = (run_lines c s ls)\<lparr>rsFirst := f\<rparr>"
  by (induction ls arbitrary: s) (simp_all add: on_line_first)

lemma on_line_keeps_first [simp]: "rsFirst (on_line c l s) = rsFirst s"
  by (auto simp: line_defs split: option.splits sum.splits prod.splits)

lemma on_line_stream_None [simp]: "rsStream (on_line c l s) = None \<longleftrightarrow> rsStream s = None"
  by (auto simp: line_defs split: option.splits sum.splits prod.splits)

text \<open>Without a translator the lines only feed the parser.\<close>

definition tee :: "string \<Rightarrow> err option \<Rightarrow> bool \<Rightarrow> relay_state \<Rightarrow> relay_state" where
  "tee out er f s = s\<lparr>rsOut := out, rsClientErr := er, rsFirst := f\<rparr>"

lemma stopped_tee [simp]: "stopped (tee out er f s) = stopped s"
  by (simp add: stopped_def tee_def)

lemma tee_simps [simp]:
  "rsStream (tee out er f s) = rsStream s" "rsFirst (tee out er f s) = f" "rsOut (tee out er f s) = out"
  "rsClientErr (tee out er f s) = er" "rsTransErr (tee out er f s) = rsTransErr s"
  "rsDone (tee out er f s) = rsDone s" "rsParser (tee out er f s) = rsParser s"
  "tee out er f (tee out' er' f' s) = tee out er f s"
  by (simp_all add: tee_def)

lemma on_line_tee: "rsStream s = None \<Longrightarrow> on_line c l (tee out er f s) = tee out er f (on_line c l s)"
  by (auto simp: line_defs tee_def)

lemma run_lines_tee: "rsStream s = None \<Longrightarrow> run_lines c (tee out er f s) ls = tee out er f (run_lines c s ls)"
  by (induction ls arbitrary: s) (simp_all add: on_line_tee)

lemma on_line_pass: "rsStream s = None \<Longrightarrow> rsOut (on_line c l s) = rsOut s \<and> rsClientErr (on_line c l s) = rsClientErr s"
  by (auto simp: line_defs)

lemma on_line_pass_running: "rsStream s = None \<Longrightarrow> \<not> stopped s \<Longrightarrow> \<not> stopped (on_line c l s)"
  by (auto simp: line_defs stopped_def)

lemma run_lines_pass:
  "rsStream s = None \<Longrightarrow> \<not> stopped s \<Longrightarrow> rsOut (run_lines c s ls) = rsOut s
     \<and> rsClientErr (run_lines c s ls) = rsClientErr s \<and> \<not> stopped (run_lines c s ls)
     \<and> rsStream (run_lines c s ls) = None \<and> rsTransErr (run_lines c s ls) = None \<and> \<not> rsDone (run_lines c s ls)"
proof (induction ls arbitrary: s)
  case (Cons l ls)
  then show ?case using on_line_pass [OF Cons.prems(1), of c l] on_line_pass_running [OF Cons.prems, of c l] by simp
qed (simp add: stopped_def)

text \<open>A client that takes every byte of every write.\<close>

definition takes_all :: "relay_ctx \<Rightarrow> bool" where
  "takes_all c \<longleftrightarrow> (\<forall>out p. rcClient c out p = None)"

lemma on_read_pass:
  "rsStream s = None \<Longrightarrow> on_read c p s = tee (rsOut (on_read c p s)) (rsClientErr (on_read c p s)) (rsFirst s \<or> p \<noteq> []) s"
  by (auto simp: on_read_def fw_write_def Let_def tee_def split: option.split)

lemma on_read_takes:
  "rsStream s = None \<Longrightarrow> (takes_all c \<and> rsClientErr s = None \<longrightarrow> rsClientErr (on_read c p s) = None)
   \<and> (rsClientErr (on_read c p s) = None \<longrightarrow> rsClientErr s = None \<and> rsOut (on_read c p s) = rsOut s @ p)"
  by (auto simp: on_read_def fw_write_def Let_def takes_all_def split: option.splits)

lemma on_read_translating: "rsStream s \<noteq> None \<Longrightarrow> on_read c p s = s\<lparr>rsFirst := rsFirst s \<or> p \<noteq> []\<rparr>"
  unfolding on_read_def Let_def by auto

text \<open>Passing through: the loop is the run over the lines, under the tee.\<close>

lemma loop_pass:
  "0 < mx \<Longrightarrow> rsStream s = None \<Longrightarrow> \<not> stopped s \<Longrightarrow> short_lines mx (buf @ concat chunks) \<Longrightarrow>
    \<exists>out er. relay_loop mx c buf chunks fin s =
        (tee out er (rsFirst s \<or> concat chunks \<noteq> []) (run_lines c s (lines_of (buf @ concat chunks))), fin)
      \<and> (takes_all c \<and> rsClientErr s = None \<longrightarrow> er = None)
      \<and> (er = None \<longrightarrow> rsClientErr s = None \<and> out = rsOut s @ concat chunks)"
proof (induction mx c buf chunks fin s rule: relay_loop.induct)
  case (1 mx c buf chunks fin s)
  note pass = on_line_pass [OF 1(4)] on_line_pass_running [OF 1(4,5)]
  show ?case
  proof (cases "take_line buf")
    case (Some p)
    then obtain l r where p: "take_line buf = Some (l, r)" by (cases p) auto
    have "\<exists>out er. relay_loop mx c r chunks fin (on_line c l s) =
        (tee out er (rsFirst s \<or> concat chunks \<noteq> []) (run_lines c (on_line c l s) (lines_of (r @ concat chunks))), fin)
      \<and> (takes_all c \<and> rsClientErr s = None \<longrightarrow> er = None)
      \<and> (er = None \<longrightarrow> rsClientErr s = None \<and> out = rsOut s @ concat chunks)"
      using 1(2) [OF 1(5) p refl 1(3)] 1(4,5) short_rest [OF 1(6) p] pass [of c l] by simp
    with p 1(4,5) show ?thesis by (subst relay_loop.simps) (simp add: lines_of_take)
  next
    case None
    with 1(3,6) have len: "\<not> length buf \<ge> mx" by (auto dest: short_buffer simp: not_le)
    show ?thesis
    proof (cases chunks)
      case Nil
      then have "relay_loop mx c buf chunks fin s = (run_lines c s (lines_of buf), fin)"
        using None len 1(5) by (subst relay_loop.simps) (simp add: lines_of_last)
      moreover have "run_lines c s (lines_of buf) = tee (rsOut s) (rsClientErr s) (rsFirst s) (run_lines c s (lines_of buf))"
        using run_lines_tee [OF 1(4), of c "rsOut s" "rsClientErr s" "rsFirst s" "lines_of buf"] by (simp add: tee_def)
      ultimately show ?thesis using Nil by auto
    next
      case (Cons p ps)
      let ?s = "on_read c p s"
      have s: "?s = tee (rsOut ?s) (rsClientErr ?s) (rsFirst s \<or> p \<noteq> []) s" by (rule on_read_pass [OF 1(4)])
      then have "rsStream ?s = None" "\<not> stopped ?s" "rsFirst ?s = (rsFirst s \<or> p \<noteq> [])"
        using 1(4,5) tee_simps(1,2) stopped_tee by metis+
      then obtain out er where loop: "relay_loop mx c (buf @ p) ps fin ?s =
          (tee out er (rsFirst s \<or> p \<noteq> [] \<or> concat ps \<noteq> []) (run_lines c ?s (lines_of (buf @ concat chunks))), fin)"
        and out: "takes_all c \<and> rsClientErr ?s = None \<longrightarrow> er = None"
          "er = None \<longrightarrow> rsClientErr ?s = None \<and> out = rsOut ?s @ concat ps"
        using 1(1) [OF 1(5) None len Cons 1(3)] 1(6) Cons by auto
      have "run_lines c ?s (lines_of (buf @ concat chunks))
          = tee (rsOut ?s) (rsClientErr ?s) (rsFirst s \<or> p \<noteq> []) (run_lines c s (lines_of (buf @ concat chunks)))"
        by (subst s, rule run_lines_tee [OF 1(4)])
      with loop have "relay_loop mx c buf chunks fin s = (tee out er (rsFirst s \<or> concat chunks \<noteq> [])
          (run_lines c s (lines_of (buf @ concat chunks))), fin)"
        using None len 1(5) Cons by (subst relay_loop.simps) (simp add: disj_assoc)
      moreover have "takes_all c \<and> rsClientErr s = None \<longrightarrow> er = None"
          "er = None \<longrightarrow> rsClientErr s = None \<and> out = rsOut s @ concat chunks"
        using out on_read_takes [OF 1(4), of c p] unfolding Cons concat.simps append_assoc [symmetric] by blast+
      ultimately show ?thesis by blast
    qed
  qed
qed

text \<open>Translating, the scan error is the end of the body unless the loop stopped before it.\<close>

lemma loop_translating:
  "0 < mx \<Longrightarrow> rsStream s \<noteq> None \<Longrightarrow> short_lines mx (buf @ concat chunks) \<Longrightarrow> (buf \<noteq> [] \<longrightarrow> rsFirst s) \<Longrightarrow>
    \<exists>er. relay_loop mx c buf chunks fin s =
        ((run_lines c s (lines_of (buf @ concat chunks)))\<lparr>rsFirst := rsFirst s \<or> \<not> stopped s \<and> concat chunks \<noteq> []\<rparr>, er)
      \<and> (\<not> stopped (run_lines c s (lines_of (buf @ concat chunks))) \<longrightarrow> er = fin)"
proof (induction mx c buf chunks fin s rule: relay_loop.induct)
  case (1 mx c buf chunks fin s)
  show ?case
  proof (cases "stopped s")
    case True
    then show ?thesis by (subst relay_loop.simps) simp
  next
    case run: False
    show ?thesis
    proof (cases "take_line buf")
      case (Some p)
      then obtain l r where p: "take_line buf = Some (l, r)" by (cases p) auto
      then have first: "rsFirst s" using 1(6) by auto
      with 1(2) [OF run p refl 1(3)] short_rest [OF 1(5) p] 1(4) p run
      show ?thesis by (subst relay_loop.simps) (simp add: lines_of_take)
    next
      case None
      with 1(3,5) have len: "\<not> length buf \<ge> mx" by (auto dest: short_buffer simp: not_le)
      show ?thesis
      proof (cases chunks)
        case Nil
        have "run_lines c s (lines_of buf) = (run_lines c s (lines_of buf))\<lparr>rsFirst := rsFirst s\<rparr>"
          using run_lines_first [of c "rsFirst s" s "lines_of buf"] by simp
        with Nil None len run show ?thesis by (subst relay_loop.simps) (simp add: lines_of_last)
      next
        case (Cons p ps)
        let ?s = "on_read c p s"
        have s: "?s = s\<lparr>rsFirst := rsFirst s \<or> p \<noteq> []\<rparr>" by (rule on_read_translating [OF 1(4)])
        with 1(1) [OF run None len Cons 1(3)] 1(4,5,6) Cons run None len
        show ?thesis by (subst relay_loop.simps) (auto simp: run_lines_first)
      qed
    qed
  qed
qed

section \<open>Chunks do not matter\<close>

lemma dispatch_done [simp]: "rsDone (dispatch c s) = rsDone s"
  by (auto simp: line_defs split: option.splits sum.splits prod.splits)

lemma relay_end_stopped: "stopped s \<Longrightarrow> relay_end c s e1 = relay_end c s e2"
  by (auto simp: relay_end_def stopped_def Let_def)

lemma stream_initial: "rsStream (initial_state proto tr) = (case tr of None \<Rightarrow> None | Some t \<Rightarrow> NewStream t)"
  by (simp add: initial_state_def)

lemma initial_running [simp]: "\<not> stopped (initial_state proto tr)" "\<not> rsFirst (initial_state proto tr)"
    "rsOut (initial_state proto tr) = []" "rsClientErr (initial_state proto tr) = None"
    "rsEvent (initial_state proto tr) = []" "rsData (initial_state proto tr) = []"
    "rsTransErr (initial_state proto tr) = None" "\<not> rsDone (initial_state proto tr)"
  by (simp_all add: initial_state_def stopped_def)

text \<open>The relay of a stream as a function of its bytes.\<close>

definition relay_reference :: "relay_ctx \<Rightarrow> protocol \<Rightarrow> translator option \<Rightarrow> string \<Rightarrow> err option
    \<Rightarrow> relay_state \<times> err option \<times> err option" where
  "relay_reference c proto tr whole fin =
     (let t = run_lines c (initial_state proto tr) (lines_of whole)
      in relay_end c (if rsStream (initial_state proto tr) = None then tee whole None (whole \<noteq> []) t
                      else t\<lparr>rsFirst := whole \<noteq> []\<rparr>) fin)"

definition translating :: "translator option \<Rightarrow> bool" where
  "translating tr \<longleftrightarrow> (\<exists>t. tr = Some t \<and> NewStream t \<noteq> None)"

lemma maxLine_pos [simp]: "0 < maxLine"
  by (simp add: maxLine_def)

lemma relay_stream_reference:
  assumes "takes_all c \<or> translating tr" and short: "short_lines maxLine (concat (bdChunks (upBody resp)))"
  shows "relay_stream c h resp proto tr =
     (if header_status (upStatus resp)
      then stream_result c (h_set ''X-Accel-Buffering'' ''no'' h) (upStatus resp)
        (relay_reference c proto tr (concat (bdChunks (upBody resp))) (bdErr (upBody resp)))
      else (no_response (upStatus resp) (h_set ''X-Accel-Buffering'' ''no'' h), new_result (upStatus resp)))"
proof -
  let ?s = "initial_state proto tr" and ?w = "concat (bdChunks (upBody resp))" and ?f = "bdErr (upBody resp)"
  let ?t = "run_lines c ?s (lines_of ?w)"
  have "\<exists>er. relay_loop maxLine c [] (bdChunks (upBody resp)) ?f ?s =
      (if rsStream ?s = None then tee ?w None (?w \<noteq> []) ?t else ?t\<lparr>rsFirst := ?w \<noteq> []\<rparr>, er)
    \<and> (\<not> stopped ?t \<longrightarrow> er = ?f)"
  proof (cases "rsStream ?s")
    case None
    then have "takes_all c" using assms(1) by (auto simp: translating_def stream_initial)
    with loop_pass [OF maxLine_pos None, of "[]" "bdChunks (upBody resp)" c ?f] short None show ?thesis by auto
  next
    case (Some st)
    with loop_translating [of maxLine ?s "[]" "bdChunks (upBody resp)" c ?f] short show ?thesis by auto
  qed
  then obtain er where er: "relay_loop maxLine c [] (bdChunks (upBody resp)) ?f ?s =
      (if rsStream ?s = None then tee ?w None (?w \<noteq> []) ?t else ?t\<lparr>rsFirst := ?w \<noteq> []\<rparr>, er)"
    "\<not> stopped ?t \<longrightarrow> er = ?f" by blast
  have "relay_end c (if rsStream ?s = None then tee ?w None (?w \<noteq> []) ?t else ?t\<lparr>rsFirst := ?w \<noteq> []\<rparr>) er
      = relay_end c (if rsStream ?s = None then tee ?w None (?w \<noteq> []) ?t else ?t\<lparr>rsFirst := ?w \<noteq> []\<rparr>) ?f"
    using er(2) by (cases "stopped ?t") (auto intro!: relay_end_stopped)
  with er(1) show ?thesis by (simp add: relay_stream_def relay_reference_def Let_def)
qed

text \<open>C3: what the client gets and what is metered does not depend on how the network cuts the body
  into reads: two bodies with the same bytes, no line of them over the limit of the scanner, and the same end give
  the same response and the same result, passed through to a client that takes all of it, or translated for any
  client.\<close>

theorem relay_ignores_chunking:
  assumes "takes_all c \<or> translating tr"
    and "short_lines maxLine (concat (bdChunks (upBody resp)))"
    and "concat (bdChunks b) = concat (bdChunks (upBody resp))" and "bdErr b = bdErr (upBody resp)"
  shows "relay c h (resp\<lparr>upBody := b\<rparr>) proto tr = relay c h resp proto tr"
proof -
  have "read_limited n b = read_limited n (upBody resp)" for n unfolding read_limited_def assms(3,4) ..
  moreover have "upBody (resp\<lparr>upBody := b\<rparr>) = b" "upStatus (resp\<lparr>upBody := b\<rparr>) = upStatus resp" by simp_all
  ultimately have "relay_body c hh (resp\<lparr>upBody := b\<rparr>) proto tr = relay_body c hh resp proto tr" for hh
    unfolding relay_body_def by (simp only:)
  with relay_stream_reference [OF assms(1), of resp] relay_stream_reference [OF assms(1), of "resp\<lparr>upBody := b\<rparr>"]
  show ?thesis using assms(2,3,4) by (simp add: relay_def Let_def)
qed

definition quiet_ctx :: relay_ctx where
  "quiet_ctx = \<lparr>rcEnv = \<lparr>eRand = \<lambda>k. [], eNow = 0\<rparr>, rcRand = 0, rcClient = \<lambda>out p. None, rcTTFT = 1\<rparr>"

definition sse_response :: "string list \<Rightarrow> err option \<Rightarrow> upstream_response" where
  "sse_response chunks fin =
     \<lparr>upStatus = 200, upHeader = [(''content-type'', ''text/event-stream'')], upBody = \<lparr>bdChunks = chunks, bdErr = fin\<rparr>\<rparr>"

lemma quiet_takes_all [simp]: "takes_all quiet_ctx"
  by (simp add: takes_all_def quiet_ctx_def)

lemma relay_ignores_chunking_witness:
  "relay quiet_ctx [] (sse_response [''data: [DO'', ''NE]'', [newline], [newline]] None) OpenAIChat None
   = relay quiet_ctx [] (sse_response [''data: [DONE]'' @ [newline, newline]] None) OpenAIChat None"
proof -
  have "short_lines maxLine (''data: [DONE]'' @ newline # newline # [])"
    by (simp add: short_lines_def maxLine_def newline_def lines_of.simps)
  with relay_ignores_chunking [of quiet_ctx None "sse_response [''data: [DONE]'' @ [newline, newline]] None"
      "\<lparr>bdChunks = [''data: [DO'', ''NE]'', [newline], [newline]], bdErr = None\<rparr>" "[]" OpenAIChat]
  show ?thesis by (simp add: sse_response_def)
qed

section \<open>Passing a stream through\<close>

text \<open>The events of a stream: a reference for what the loop dispatches.\<close>

definition sse_flush :: "string \<Rightarrow> string \<Rightarrow> (string \<times> string) list" where
  "sse_flush ev d = (if d = [] \<and> ev = [] then [] else [(ev, trim_suffix [newline] d)])"

fun sse_events :: "string \<Rightarrow> string \<Rightarrow> string list \<Rightarrow> (string \<times> string) list" where
  "sse_events ev d [] = sse_flush ev d"
| "sse_events ev d (raw # ls) =
     (let line = drop_cr (drop_cr raw)
      in if line = [] then sse_flush ev d @ sse_events [] [] ls
         else if has_prefix ''event:'' line then sse_events (trim_space (drop 6 line)) d ls
         else if has_prefix ''data:'' line
         then sse_events ev (d @ trim_prefix '' '' (drop 5 line) @ [newline]) ls
         else sse_events ev d ls)"

definition events_of :: "string \<Rightarrow> (string \<times> string) list" where
  "events_of s = sse_events [] [] (lines_of s)"

definition metered :: "protocol \<Rightarrow> string \<Rightarrow> usage" where
  "metered p s = parser_Usage (fold (\<lambda>(e, d) t. parser_Feed t e d) (events_of s) (NewStreamParser p))"

lemma dispatch_pass:
  "rsStream s = None \<Longrightarrow> dispatch c s = s\<lparr>rsParser := fold (\<lambda>(e, d) t. parser_Feed t e d)
     (sse_flush (rsEvent s) (rsData s)) (rsParser s), rsEvent := [], rsData := []\<rparr>"
  by (auto simp: dispatch_def translate_event_def sse_flush_def Let_def)

lemma on_line_events:
  assumes "rsStream s = None" and "\<not> rsDone s"
  shows "on_line c l s =
    (let line = drop_cr (drop_cr l)
     in if line = [] then dispatch c s
        else if has_prefix ''event:'' line then s\<lparr>rsEvent := trim_space (drop 6 line)\<rparr>
        else if has_prefix ''data:'' line then s\<lparr>rsData := rsData s @ trim_prefix '' '' (drop 5 line) @ [newline]\<rparr>
        else s)"
  using assms by (auto simp: on_line_def Let_def dispatch_pass ended_def)

lemma run_lines_parser:
  "rsStream s = None \<Longrightarrow> \<not> stopped s \<Longrightarrow>
   rsParser (dispatch c (run_lines c s ls))
     = fold (\<lambda>(e, d) t. parser_Feed t e d) (sse_events (rsEvent s) (rsData s) ls) (rsParser s)"
proof (induction ls arbitrary: s)
  case (Cons l ls)
  have "\<not> rsDone s" using Cons.prems by (simp add: stopped_def)
  note step = on_line_events [OF Cons.prems(1) this, of c l] on_line_pass_running [OF Cons.prems, of c l]
  have "rsStream (on_line c l s) = None" using Cons.prems by simp
  from Cons.IH [OF this step(2)] Cons.prems step(1) show ?case
    by (simp add: Let_def dispatch_pass)
qed (simp add: dispatch_pass)

text \<open>The state after the loop, for any client.\<close>

lemma passthrough_result:
  assumes "is_sse (upHeader resp)" and "header_status (upStatus resp)"
    and "short_lines maxLine (concat (bdChunks (upBody resp)))"
  obtains out er where "crBody (fst (relay c h resp proto None)) = out"
    "crStatus (fst (relay c h resp proto None)) = upStatus resp"
    "rrStatus (snd (relay c h resp proto None)) = upStatus resp"
    "rrUsage (snd (relay c h resp proto None)) = metered proto (concat (bdChunks (upBody resp)))"
    "rrUpstreamErr (snd (relay c h resp proto None)) = bdErr (upBody resp)"
    "rrClientErr (snd (relay c h resp proto None)) = er"
    "takes_all c \<Longrightarrow> er = None" "er = None \<Longrightarrow> out = concat (bdChunks (upBody resp))"
    "rrTruncated (snd (relay c h resp proto None)) = []"
proof -
  let ?s = "initial_state proto None" and ?w = "concat (bdChunks (upBody resp))"
  have s: "rsStream ?s = None" by (simp add: stream_initial)
  note run = run_lines_pass [OF s initial_running(1), of c "lines_of ?w"]
  have parser: "rsParser (dispatch c (run_lines c ?s (lines_of ?w)))
      = fold (\<lambda>(e, d) t. parser_Feed t e d) (events_of ?w) (NewStreamParser proto)"
    using run_lines_parser [OF s initial_running(1), of c "lines_of ?w"]
    by (simp add: events_of_def initial_state_def)
  obtain out er where loop: "relay_loop maxLine c [] (bdChunks (upBody resp)) (bdErr (upBody resp)) ?s =
      (tee out er (?w \<noteq> []) (run_lines c ?s (lines_of ?w)), bdErr (upBody resp))"
    and out: "takes_all c \<Longrightarrow> er = None" "er = None \<Longrightarrow> out = ?w"
    using loop_pass [OF maxLine_pos s, of "[]" "bdChunks (upBody resp)" c "bdErr (upBody resp)"] assms(3) by auto
  show ?thesis
    using that [of out er] out run s parser loop assms(1,2)
    by (simp add: relay_def relay_stream_def relay_end_def stream_result_def Let_def dispatch_pass metered_def
        new_result_def tee_def)
qed

text \<open>C12: a stream with a status that can be sent, and no line over the limit of the scanner, is billed when it is
  passed through only if it was delivered: if it is not classified as
  truncated, its body was read to the end, every byte of it was taken by the client, and the
  usage is the fold of the usage parser over its events; otherwise no token is billed and the
  status reported is 504, 499 or 502. A client that takes everything gets every byte, also before an error.\<close>

theorem passthrough_billed_iff_delivered:
  assumes "is_sse (upHeader resp)" and "header_status (upStatus resp)"
    and "short_lines maxLine (concat (bdChunks (upBody resp)))"
    and "b = classifyTruncation deadline gone (snd (relay c h resp proto None))"
  shows "crStatus (fst (relay c h resp proto None)) = upStatus resp
    \<and> (if rrTruncated b = []
       then crBody (fst (relay c h resp proto None)) = concat (bdChunks (upBody resp)) \<and> bdErr (upBody resp) = None
         \<and> rrStatus b = upStatus resp \<and> rrUsage b = metered proto (concat (bdChunks (upBody resp)))
       else rrUsage b = no_usage \<and> rrStatus b \<in> {504, 499, 502})
    \<and> (takes_all c \<longrightarrow> crBody (fst (relay c h resp proto None)) = concat (bdChunks (upBody resp))
         \<and> (rrTruncated b = [] \<longleftrightarrow> bdErr (upBody resp) = None))"
proof -
  obtain out er where r: "crBody (fst (relay c h resp proto None)) = out"
    "crStatus (fst (relay c h resp proto None)) = upStatus resp"
    "rrStatus (snd (relay c h resp proto None)) = upStatus resp"
    "rrUsage (snd (relay c h resp proto None)) = metered proto (concat (bdChunks (upBody resp)))"
    "rrUpstreamErr (snd (relay c h resp proto None)) = bdErr (upBody resp)"
    "rrClientErr (snd (relay c h resp proto None)) = er"
    "takes_all c \<Longrightarrow> er = None" "er = None \<Longrightarrow> out = concat (bdChunks (upBody resp))"
    "rrTruncated (snd (relay c h resp proto None)) = []"
    using passthrough_result [OF assms(1,2,3)] by metis
  show ?thesis
  proof (cases "bdErr (upBody resp) = None \<and> er = None")
    case True
    then have "b = snd (relay c h resp proto None)" using r assms(4) by (simp add: classifyTruncation_def)
    with True r show ?thesis by simp
  next
    case False
    then have "rrTruncated b \<noteq> []" "rrUsage b = no_usage" "rrStatus b \<in> {504, 499, 502}"
      using r assms(4) by (auto simp: classifyTruncation_def Let_def StatusClientClosedRequest_def)
    with False r show ?thesis by auto
  qed
qed

lemma passthrough_billed_iff_delivered_witness:
  "crBody (fst (relay quiet_ctx [] (sse_response [''data: [DO'', ''NE]'', [newline], [newline]] (Some ''EOF'')) OpenAIChat None))
     = ''data: [DONE]'' @ [newline, newline]
   \<and> rrTruncated (classifyTruncation False False
       (snd (relay quiet_ctx [] (sse_response [''data: [DO'', ''NE]'', [newline], [newline]] (Some ''EOF'')) OpenAIChat None))) \<noteq> []"
proof -
  have "short_lines maxLine (''data: [DONE]'' @ newline # newline # [])"
    by (simp add: short_lines_def maxLine_def newline_def lines_of.simps)
  with passthrough_billed_iff_delivered [of "sse_response [''data: [DO'', ''NE]'', [newline], [newline]] (Some ''EOF'')",
      OF _ _ _ refl, of quiet_ctx "[]" OpenAIChat False False]
  show ?thesis by (simp add: sse_response_def is_sse_def h_get_def h_values_def to_lower_def header_status_def)
qed

section \<open>Frames are read back as they were written\<close>

definition name_ok :: "string \<Rightarrow> bool" where
  "name_ok e \<longleftrightarrow> e \<noteq> [] \<and> (\<forall>c \<in> set e. 32 < ord c)"

fun frame_wf :: "frame \<Rightarrow> bool" where
  "frame_wf (Named e j) \<longleftrightarrow> name_ok e \<and> json_ok j"
| "frame_wf (Data j) \<longleftrightarrow> json_ok j"
| "frame_wf DoneFrame \<longleftrightarrow> True"

fun frame_event :: "frame \<Rightarrow> string \<times> string" where
  "frame_event (Named e j) = (e, json_text j)"
| "frame_event (Data j) = ([], json_text j)"
| "frame_event DoneFrame = ([], DONE)"

lemma drop_cr_id: "l = [] \<or> last l \<noteq> CHR 13 \<Longrightarrow> drop_cr l = l"
  by (auto simp: drop_cr_def trim_suffix_def has_suffix_iff)

lemma printable_last: "printable l \<Longrightarrow> drop_cr l = l"
  by (rule drop_cr_id) (cases l rule: rev_cases, auto)

lemma printable_no_newline: "printable l \<Longrightarrow> newline \<notin> set l"
  by (auto simp: printable_def newline_def)

lemma name_ok_printable: "name_ok e \<Longrightarrow> printable e"
  by (auto simp: name_ok_def printable_def)

lemma dropWhile_blank: "\<forall>c \<in> set e. 32 < ord c \<Longrightarrow> dropWhile is_blank e = e"
  by (cases e) (auto simp: is_blank_def)

lemma trim_space_name: "name_ok e \<Longrightarrow> trim_space (CHR '' '' # e) = e"
  by (simp add: trim_space_def name_ok_def dropWhile_blank is_blank_def)

lemma sse_event_line:
  "name_ok e \<Longrightarrow> sse_events ev d ((''event: '' @ e) # ls) = sse_events e d ls"
  using name_ok_printable [of e] by (simp add: printable_last Let_def trim_space_name)

lemma sse_data_line:
  "printable t \<Longrightarrow> sse_events ev d ((''data: '' @ t) # ls) = sse_events ev (d @ t @ [newline]) ls"
  by (simp add: printable_last Let_def trim_prefix_def)

lemma sse_blank_line: "sse_events ev (t @ [newline]) ([] # ls) = (ev, t) # sse_events [] [] ls"
  by (simp add: drop_cr_id Let_def sse_flush_def)

fun frame_lines :: "frame \<Rightarrow> string list" where
  "frame_lines (Named e j) = [''event: '' @ e, ''data: '' @ json_text j, []]"
| "frame_lines (Data j) = [''data: '' @ json_text j, []]"
| "frame_lines DoneFrame = [''data: '' @ DONE, []]"

lemma lines_of_frame: "frame_wf f \<Longrightarrow> lines_of (frame_bytes f @ r) = frame_lines f @ lines_of r"
proof (cases f)
  case (Named e j)
  assume "frame_wf f"
  then have "newline \<notin> set e" "newline \<notin> set (json_text j)"
    using Named by (auto dest: name_ok_printable printable_json printable_no_newline)
  then show ?thesis
    using lines_of_line [of "''event: '' @ e"] lines_of_line [of "''data: '' @ json_text j"] lines_of_line [of "[]" r] Named
    by (simp add: newline_def)
next
  case (Data j)
  assume "frame_wf f"
  then have "newline \<notin> set (json_text j)" using Data by (auto dest: printable_json printable_no_newline)
  then show ?thesis
    using lines_of_line [of "''data: '' @ json_text j"] lines_of_line [of "[]" r] Data by (simp add: newline_def)
next
  case DoneFrame
  then show ?thesis
    using lines_of_line [of "''data: '' @ DONE"] lines_of_line [of "[]" r] by (simp add: newline_def DONE_def)
qed

lemma lines_of_frames: "\<forall>f \<in> set fs. frame_wf f \<Longrightarrow> lines_of (stream_bytes fs) = concat (map frame_lines fs)"
  by (induction fs) (simp_all add: lines_of_frame)

lemma frame_line_events:
  "frame_wf f \<Longrightarrow> sse_events [] [] (frame_lines f @ ls) = frame_event f # sse_events [] [] ls"
  using sse_event_line [of _ "[]" "[]"] sse_data_line [of _ _ "[]"] sse_blank_line sse_blank_line [of "[]" DONE]
  by (cases f) (simp_all add: printable_json DONE_def del: sse_events.simps)

lemma events_roundtrip:
  "\<forall>f \<in> set fs. frame_wf f \<Longrightarrow> events_of (stream_bytes fs) = map frame_event fs"
  by (induction fs) (simp_all add: events_of_def lines_of_frame frame_line_events, simp add: sse_flush_def)

text \<open>The bytes of any frames that an encoder may write are cut by the relay into exactly these
  frames' events again, names and data, in order; so a gateway behind a gateway reads what the first
  one wrote.\<close>

theorem frames_roundtrip:
  assumes "\<forall>f \<in> set fs. frame_wf f"
  shows "events_of (stream_bytes fs) = map frame_event fs"
  using assms by (rule events_roundtrip)

lemma frames_roundtrip_witness:
  "events_of (stream_bytes [Named ''ping'' (JObj [(''type'', JStr ''ping'')]), DoneFrame])
     = [(''ping'', json_text (JObj [(''type'', JStr ''ping'')])), ([], ''[DONE]'')]"
  using frames_roundtrip [of "[Named ''ping'' (JObj [(''type'', JStr ''ping'')]), DoneFrame]"]
  by (simp add: name_ok_def DONE_def)

section \<open>Translating a stream\<close>

text \<open>The events of the upstream fed in order, up to the first that cannot be translated.\<close>

fun feed_run :: "env \<Rightarrow> tstream \<Rightarrow> string list \<Rightarrow> tstream \<times> frame list \<times> err option" where
  "feed_run e st [] = (st, [], None)"
| "feed_run e st (d # ds) =
     (if tsEnded st then (st, [], None)
      else (case Stream_Feed e st d of
              (st1, Inl er) \<Rightarrow> (case Stream_Fail e st1 (''protocol translation failed: '' @ er) of
                                  (st2, out) \<Rightarrow> (st2, out, Some er))
            | (st1, Inr out) \<Rightarrow> (case feed_run e st1 ds of (st2, out2, er) \<Rightarrow> (st2, out @ out2, er))))"

lemma feed_run_ended [simp]: "tsEnded st \<Longrightarrow> feed_run e st ds = (st, [], None)"
  by (cases ds) simp_all

lemma translate_stream_ended: "tsEnded st \<Longrightarrow> translate_stream e eof st ds = (st, [])"
  by (induction ds) (simp_all add: Stream_Fail_def Stream_Feed_def)

lemma Stream_Fail_ends: "tsEnded (fst (Stream_Fail e st m))"
  by (simp add: Stream_Fail_def Let_def split_beta)

lemma Stream_Fail_ended: "tsEnded st \<Longrightarrow> Stream_Fail e st m = (st, [])"
  by (simp add: Stream_Fail_def)

lemma translate_stream_run:
  "translate_stream e eof st ds = (case feed_run e st ds of (st1, out, er) \<Rightarrow>
     case Stream_Fail e st1 eof of (st2, out2) \<Rightarrow> (st2, out @ out2))"
proof (induction ds arbitrary: st)
  case (Cons d ds)
  show ?case
  proof (cases "tsEnded st")
    case True
    then show ?thesis by (simp add: Stream_Fail_ended translate_stream_ended del: translate_stream.simps)
  next
    case False
    obtain st1 r where fd: "Stream_Feed e st d = (st1, r)" by fastforce
    show ?thesis
    proof (cases r)
      case (Inl er)
      let ?f = "Stream_Fail e st1 (''protocol translation failed: '' @ er)"
      have "Stream_Fail e (fst ?f) eof = (fst ?f, [])" by (rule Stream_Fail_ended [OF Stream_Fail_ends])
      with False fd Inl show ?thesis by (cases ?f) simp
    next
      case (Inr out)
      with False fd Cons show ?thesis by (simp split: prod.splits)
    qed
  qed
qed simp

lemma feed_run_append:
  "feed_run e st (xs @ ys) = (case feed_run e st xs of (st1, o1, er) \<Rightarrow>
     if er \<noteq> None then (st1, o1, er)
     else (case feed_run e st1 ys of (st2, o2, er2) \<Rightarrow> (st2, o1 @ o2, er2)))"
proof (induction xs arbitrary: st)
  case (Cons d xs)
  obtain st1 r where fd: "Stream_Feed e st d = (st1, r)" by fastforce
  obtain a b er where rec: "feed_run e st1 xs = (a, b, er)" by (rule prod_cases3)
  show ?case
  proof (cases r)
    case (Inl m)
    with fd show ?thesis by (simp split: prod.split)
  next
    case (Inr out)
    with fd rec Cons [of st1] show ?thesis by (simp split: prod.split)
  qed
qed (simp split: prod.splits)

lemma feed_run_error_ends: "feed_run e st ds = (st1, out, Some er) \<Longrightarrow> tsEnded st1"
proof (induction ds arbitrary: st out)
  case (Cons d ds)
  then have live: "\<not> tsEnded st" by auto
  obtain st2 r where fd: "Stream_Feed e st d = (st2, r)" by fastforce
  show ?case
  proof (cases r)
    case (Inl m)
    with Cons.prems fd live have "st1 = fst (Stream_Fail e st2 (''protocol translation failed: '' @ m))"
      by (cases "Stream_Fail e st2 (''protocol translation failed: '' @ m)") simp
    then show ?thesis by (simp only: Stream_Fail_ends)
  next
    case (Inr o1)
    obtain a b m where "feed_run e st2 ds = (a, b, m)" by (rule prod_cases3)
    with Cons fd live Inr show ?thesis by simp
  qed
qed simp

lemma write_frames_takes:
  "takes_all c \<Longrightarrow> rsClientErr s = None \<Longrightarrow> write_frames c fs s = s\<lparr>rsOut := rsOut s @ stream_bytes fs\<rparr>"
  by (simp add: write_frames_def fw_write_def takes_all_def)

text \<open>The events that reach the usage parser: all up to the one that ends the stream or cannot be translated.\<close>

fun consumed :: "env \<Rightarrow> tstream \<Rightarrow> (string \<times> string) list \<Rightarrow> (string \<times> string) list" where
  "consumed e st [] = []"
| "consumed e st (p # ps) = p #
     (case Stream_Feed e st (snd p) of
        (st1, Inl er) \<Rightarrow> []
      | (st1, Inr out) \<Rightarrow> if tsEnded st1 then [] else consumed e st1 ps)"

abbreviation feed_parser :: "(string \<times> string) list \<Rightarrow> stream_parser \<Rightarrow> stream_parser" where
  "feed_parser evs \<equiv> fold (\<lambda>(e, d) t. parser_Feed t e d) evs"

text \<open>What a dispatch does to the translating part of the state.\<close>

lemma dispatch_translating:
  assumes "takes_all c" and "rsClientErr s = None" and "rsStream s = Some st" and "rsTransErr s = None"
    and "feed_run (rcEnv c) st (map snd (sse_flush (rsEvent s) (rsData s))) = (st1, out, er)"
  shows "rsStream (dispatch c s) = Some st1 \<and> rsOut (dispatch c s) = rsOut s @ stream_bytes out
    \<and> rsTransErr (dispatch c s) = er \<and> rsClientErr (dispatch c s) = None
    \<and> rsEvent (dispatch c s) = [] \<and> rsData (dispatch c s) = []"
proof (cases "tsEnded st")
  case True
  with assms show ?thesis
    by (auto simp: dispatch_def translate_event_def Let_def Stream_Feed_def write_frames_takes)
next
  case False
  with assms show ?thesis
    by (auto simp: dispatch_def translate_event_def Let_def sse_flush_def write_frames_takes
        split: prod.splits sum.splits if_splits)
qed

lemma translate_event_parser [simp]: "rsParser (translate_event c p s) = rsParser s"
  by (auto simp: translate_event_def write_frames_def fw_write_def split: option.splits sum.splits prod.splits)

lemma dispatch_parser: "rsParser (dispatch c s) = feed_parser (sse_flush (rsEvent s) (rsData s)) (rsParser s)"
  by (simp add: dispatch_def Let_def sse_flush_def)

definition settle :: "relay_ctx \<Rightarrow> relay_state \<Rightarrow> relay_state" where
  "settle c s = (if rsTransErr s = None then dispatch c s else s)"

text \<open>A stream whose last line is blank has nothing left over.\<close>

definition flushed :: "string list \<Rightarrow> bool" where
  "flushed ls \<longleftrightarrow> ls \<noteq> [] \<and> drop_cr (drop_cr (last ls)) = []"

lemma consumed_flush:
  assumes "feed_run e st (map snd (sse_flush ev d)) = (st2, out, er)" and "\<not> tsEnded st"
  shows "consumed e st (sse_flush ev d @ evs) =
    sse_flush ev d @ (if er \<noteq> None \<or> tsEnded st2 then [] else consumed e st2 evs)"
  using assms by (auto simp: sse_flush_def split: prod.splits sum.splits if_splits dest: feed_run_error_ends)

lemma run_lines_translating:
  "takes_all c \<Longrightarrow> rsClientErr s = None \<Longrightarrow> rsStream s = Some st \<Longrightarrow> \<not> stopped s \<Longrightarrow> \<not> tsEnded st \<Longrightarrow>
   feed_run (rcEnv c) st (map snd (sse_events (rsEvent s) (rsData s) ls)) = (st1, out, er) \<Longrightarrow>
   rsStream (settle c (run_lines c s ls)) = Some st1 \<and> rsOut (settle c (run_lines c s ls)) = rsOut s @ stream_bytes out
   \<and> rsTransErr (settle c (run_lines c s ls)) = er \<and> rsClientErr (settle c (run_lines c s ls)) = None
   \<and> (rsDone (settle c (run_lines c s ls)) \<longrightarrow> tsEnded st1)
   \<and> (flushed ls \<and> tsEnded st1 \<longrightarrow> rsDone (settle c (run_lines c s ls)))
   \<and> rsParser (settle c (run_lines c s ls))
       = feed_parser (consumed (rcEnv c) st (sse_events (rsEvent s) (rsData s) ls)) (rsParser s)"
proof (induction ls arbitrary: s st out)
  case Nil
  then have run: "rsTransErr s = None" "\<not> rsDone s" by (simp_all add: stopped_def)
  have "consumed (rcEnv c) st (sse_flush (rsEvent s) (rsData s)) = sse_flush (rsEvent s) (rsData s)"
    using consumed_flush [of "rcEnv c" st _ _ st1 out er "[]"] Nil.prems by simp
  with Nil run dispatch_translating [of c s st st1 out er] show ?case
    by (simp add: settle_def dispatch_parser flushed_def)
next
  case (Cons l ls)
  have run: "rsTransErr s = None" "\<not> rsDone s" using Cons.prems(4) by (simp_all add: stopped_def)
  let ?line = "drop_cr (drop_cr l)"
  show ?case
  proof (cases "?line = []")
    case True
    obtain st2 o2 er2 where flush:
        "feed_run (rcEnv c) st (map snd (sse_flush (rsEvent s) (rsData s))) = (st2, o2, er2)" by (rule prod_cases3)
    note d = dispatch_translating [OF Cons.prems(1,2,3) run(1) flush]
    note used = consumed_flush [OF flush Cons.prems(5), of "sse_events [] [] ls"]
    have next_state: "on_line c l s = (dispatch c s)\<lparr>rsDone := tsEnded st2\<rparr>" (is "_ = ?s")
      using True d by (simp add: on_line_def Let_def ended_def)
    have fr: "(if er2 \<noteq> None then (st2, o2, er2)
        else (case feed_run (rcEnv c) st2 (map snd (sse_events [] [] ls)) of (a, b, e) \<Rightarrow> (a, o2 @ b, e))) = (st1, out, er)"
      using Cons.prems(6) True flush by (simp add: feed_run_append)
    show ?thesis
    proof (cases "stopped ?s")
      case stop: True
      have "settle c ?s = ?s" using d by (auto simp: settle_def dispatch_def)
      moreover have "er2 \<noteq> None \<or> tsEnded st2" using stop d by (auto simp: stopped_def)
      ultimately show ?thesis
        using stop d fr next_state Cons.prems(4) True used dispatch_parser [of c s]
        by (auto simp: stopped_def split: if_splits prod.splits)
    next
      case False
      then have live: "er2 = None" "\<not> tsEnded st2" using d by (auto simp: stopped_def)
      then obtain b where rec: "feed_run (rcEnv c) st2 (map snd (sse_events [] [] ls)) = (st1, b, er)" "out = o2 @ b"
        using fr by (auto split: prod.splits)
      have fl: "flushed (l # ls) \<and> tsEnded st1 \<longrightarrow> flushed ls"
        using live(2) rec(1) True by (cases ls) (auto simp: flushed_def sse_flush_def)
      define s2 where "s2 = on_line c l s"
      have s: "rsClientErr s2 = None" "rsStream s2 = Some st2" "\<not> stopped s2" "rsEvent s2 = []" "rsData s2 = []"
          "rsOut s2 = rsOut s @ stream_bytes o2" "rsParser s2 = feed_parser (sse_flush (rsEvent s) (rsData s)) (rsParser s)"
        using d False dispatch_parser [of c s] by (simp_all add: s2_def next_state)
      note ih = Cons.IH [OF Cons.prems(1) s(1,2,3) live(2), unfolded s(4,5), OF rec(1)]
      have consumed: "consumed (rcEnv c) st (sse_events (rsEvent s) (rsData s) (l # ls))
          = sse_flush (rsEvent s) (rsData s) @ consumed (rcEnv c) st2 (sse_events [] [] ls)"
        using used live True by simp
      have run_eq: "run_lines c s (l # ls) = run_lines c s2 ls" using Cons.prems(4) by (simp add: s2_def)
      show ?thesis
        using ih fl
        unfolding consumed rec(2) run_eq s(6,7) fold_append stream_bytes_simps(3) comp_apply append_assoc by blast
    qed
  next
    case False
    then have st: "rsStream (on_line c l s) = Some st" "rsClientErr (on_line c l s) = None" "\<not> stopped (on_line c l s)"
        "rsOut (on_line c l s) = rsOut s" "rsParser (on_line c l s) = rsParser s"
      using Cons.prems by (auto simp: on_line_def Let_def stopped_def)
    have "sse_events (rsEvent s) (rsData s) (l # ls) = sse_events (rsEvent (on_line c l s)) (rsData (on_line c l s)) ls"
      using False by (simp add: on_line_def Let_def)
    moreover have "flushed (l # ls) \<longleftrightarrow> flushed ls" using False by (auto simp: flushed_def)
    ultimately show ?thesis
      using Cons.IH [OF Cons.prems(1) st(2,1,3) Cons.prems(5)] st Cons.prems(4,6) by simp
  qed
qed

definition eof_message :: err where
  "eof_message = ''upstream stream ended before completion''"

lemma relay_translated:
  assumes "takes_all c" and "is_sse (upHeader resp)" and status: "header_status (upStatus resp)" and "NewStream t = Some st"
    and "short_lines maxLine (concat (bdChunks (upBody resp)))"
    and run: "feed_run (rcEnv c) st (map snd (events_of (concat (bdChunks (upBody resp))))) = (st1, out, er)"
  shows "crBody (fst (relay c h resp proto (Some t))) =
      (if er = None \<and> bdErr (upBody resp) = None then stream_bytes (out @ snd (Stream_Fail (rcEnv c) st1 eof_message))
       else stream_bytes out)
    \<and> rrTranslateErr (snd (relay c h resp proto (Some t))) = er
    \<and> rrClientErr (snd (relay c h resp proto (Some t))) = None
    \<and> (er = None \<and> \<not> tsEnded st1 \<longrightarrow> rrUpstreamErr (snd (relay c h resp proto (Some t)))
         = Some (case bdErr (upBody resp) of None \<Rightarrow> ended_early | Some e \<Rightarrow> e))
    \<and> (er = None \<and> tsEnded st1 \<and> bdErr (upBody resp) = None \<longrightarrow>
         rrUpstreamErr (snd (relay c h resp proto (Some t))) = None)
    \<and> (er \<noteq> None \<longrightarrow> rrUpstreamErr (snd (relay c h resp proto (Some t))) = er)
    \<and> (er = None \<and> tsEnded st1 \<and> flushed (lines_of (concat (bdChunks (upBody resp)))) \<longrightarrow>
         rrUpstreamErr (snd (relay c h resp proto (Some t))) = None)
    \<and> rrStatus (snd (relay c h resp proto (Some t))) = upStatus resp
    \<and> rrUsage (snd (relay c h resp proto (Some t))) = parser_Usage (feed_parser
         (consumed (rcEnv c) st (events_of (concat (bdChunks (upBody resp))))) (NewStreamParser (trTo t)))"
proof -
  let ?s = "initial_state proto (Some t)" and ?w = "concat (bdChunks (upBody resp))"
  have st: "rsStream ?s = Some st" using assms(4) by (simp add: stream_initial)
  define r where "r = (run_lines c ?s (lines_of ?w))\<lparr>rsFirst := ?w \<noteq> []\<rparr>"
  have "r = run_lines c (?s\<lparr>rsFirst := ?w \<noteq> []\<rparr>) (lines_of ?w)" by (simp add: r_def run_lines_first)
  moreover have "\<not> tsEnded st" using assms(4) by (auto simp: NewStream_def split: option.splits)
  ultimately have settled: "rsStream (settle c r) = Some st1" "rsOut (settle c r) = stream_bytes out" "rsTransErr (settle c r) = er"
      "rsClientErr (settle c r) = None" "rsDone (settle c r) \<longrightarrow> tsEnded st1"
      "flushed (lines_of ?w) \<and> tsEnded st1 \<longrightarrow> rsDone (settle c r)"
      "rsParser (settle c r) = feed_parser (consumed (rcEnv c) st (events_of ?w)) (rsParser ?s)"
    using run_lines_translating [of c "?s\<lparr>rsFirst := ?w \<noteq> []\<rparr>" st "lines_of ?w" st1 out er] assms st
    by (simp_all add: events_of_def)
  have body: "relay c h resp proto (Some t)
      = stream_result c (h_set ''X-Accel-Buffering'' ''no'' (response_headers (upHeader resp) h)) (upStatus resp) (relay_end c r (bdErr (upBody resp)))"
    using relay_stream_reference [of c "Some t" resp "response_headers (upHeader resp) h" proto] assms st
    by (simp add: relay_def relay_reference_def r_def Let_def)
  have "relay_end c r f = (let s = settle c r; up = (if rsDone s then None else f)
      in case er of Some e \<Rightarrow> (s, None, Some e)
       | None \<Rightarrow> if \<not> tsEnded st1 \<and> up = None
           then (write_frames c (snd (Stream_Fail (rcEnv c) st1 eof_message)) (s\<lparr>rsStream := Some (fst (Stream_Fail (rcEnv c) st1 eof_message))\<rparr>),
                 None, Some ended_early)
           else (s, None, up))" for f
  proof (cases er)
    case None
    with settled show ?thesis
      unfolding relay_end_def settle_def [symmetric]
      by (simp add: Let_def eof_message_def split_beta)
  next
    case (Some e)
    with settled show ?thesis
      unfolding relay_end_def settle_def [symmetric] by (simp add: Let_def)
  qed
  note ends = this
  have "rsParser ?s = NewStreamParser (trTo t)" by (simp add: initial_state_def)
  note settled = settled this
  show ?thesis
  proof (cases er)
    case None
    with body settled assms(1) ends show ?thesis
      by (cases "tsEnded st1"; cases "bdErr (upBody resp)")
        (simp_all add: stream_result_def Let_def write_frames_takes new_result_def Stream_Fail_ended)
  next
    case (Some e)
    with body settled ends run show ?thesis
      by (simp add: stream_result_def Let_def new_result_def)
  qed
qed

text \<open>C6: a Chat Completions stream relayed to an Anthropic client that takes every byte is a complete message whenever
  the upstream body ends without a read error, has no line over the limit of the scanner and no chunk with a tool
  call index that is negative or the largest integer, whatever else it contains, events that are no JSON and bodies
  that break off among them: the client's bytes are frames whose content blocks are well bracketed and all closed,
  and the message is closed exactly once, by the last frame.\<close>

theorem translated_relay_complete:
  assumes "New_translator Anthropic OpenAIChat opts = Inr t" and "NewStream t = Some st"
    and "takes_all c" and "is_sse (upHeader resp)" and "header_status (upStatus resp)"
    and "bdErr (upBody resp) = None" and "short_lines maxLine (concat (bdChunks (upBody resp)))"
    and "\<forall>p \<in> set (events_of (concat (bdChunks (upBody resp)))). chat_data_fits (snd p)"
  shows "\<exists>fs n. crBody (fst (relay c h resp Anthropic (Some t))) = stream_bytes fs
    \<and> client_run block_client (None, 0) fs = Some (None, n)
    \<and> length (filter closing fs) = 1 \<and> closing (last fs)"
proof -
  let ?ds = "map snd (events_of (concat (bdChunks (upBody resp))))"
  obtain st1 out er where run: "feed_run (rcEnv c) st ?ds = (st1, out, er)" by (rule prod_cases3)
  note r = relay_translated [OF assms(3,4,5,2,7) run, of h Anthropic]
  have "snd (translate_stream (rcEnv c) eof_message st ?ds) = out @ snd (Stream_Fail (rcEnv c) st1 eof_message)"
    by (simp add: translate_stream_run run split_beta)
  moreover have "er \<noteq> None \<Longrightarrow> snd (Stream_Fail (rcEnv c) st1 eof_message) = []"
    using run by (auto dest: feed_run_error_ends simp: Stream_Fail_ended)
  ultimately have body: "crBody (fst (relay c h resp Anthropic (Some t))) = stream_bytes (snd (translate_stream (rcEnv c) eof_message st ?ds))"
    using conjunct1 [OF r] assms(6) by (cases er) simp_all
  have "\<forall>d \<in> set ?ds. chat_data_fits d" using assms(8) by simp
  from stream_complete [OF assms(1,2) this, of "rcEnv c" eof_message] body show ?thesis by blast
qed

text \<open>
  Which events count for the account: the first always, and each next one if the translation was still running,
  neither ended nor failed, after those before it. So the event that ends the message counts, and nothing after it.
\<close>

definition live_after :: "env \<Rightarrow> tstream \<Rightarrow> (string \<times> string) list \<Rightarrow> nat \<Rightarrow> bool" where
  "live_after e st evs n \<longleftrightarrow> \<not> tsEnded (fst (feed_run e st (map snd (take n evs))))"

definition metered_events :: "env \<Rightarrow> tstream \<Rightarrow> (string \<times> string) list \<Rightarrow> (string \<times> string) list" where
  "metered_events e st evs = take (length (takeWhile (live_after e st evs) [0..<length evs])) evs"

lemma live_after_0 [simp]: "live_after e st evs 0 \<longleftrightarrow> \<not> tsEnded st"
  by (simp add: live_after_def)

lemma live_after_ended: "tsEnded st \<Longrightarrow> \<not> live_after e st evs n"
  by (simp add: live_after_def)

lemma live_after_Suc:
  "\<not> tsEnded st \<Longrightarrow> live_after e st (p # ps) (Suc n) \<longleftrightarrow>
     (case Stream_Feed e st (snd p) of (st1, Inl er) \<Rightarrow> False | (st1, Inr out) \<Rightarrow> live_after e st1 ps n)"
  using Stream_Fail_ends [of e] by (auto simp: live_after_def split_beta split: prod.split sum.split)

lemma metered_events_ended: "tsEnded st \<Longrightarrow> metered_events e st evs = []"
  by (cases evs) (simp_all add: metered_events_def upt_conv_Cons del: upt_Suc)

lemma metered_events_Cons:
  assumes "\<not> tsEnded st"
  shows "metered_events e st (p # ps) = p #
     (case Stream_Feed e st (snd p) of (st1, Inl er) \<Rightarrow> [] | (st1, Inr out) \<Rightarrow> metered_events e st1 ps)"
proof -
  have "[0..<length (p # ps)] = 0 # map Suc [0..<length ps]"
    by (simp add: upt_conv_Cons map_Suc_upt del: upt_Suc)
  moreover have "live_after e st (p # ps) \<circ> Suc = (case Stream_Feed e st (snd p) of
      (st1, Inl er) \<Rightarrow> (\<lambda>n. False) | (st1, Inr out) \<Rightarrow> live_after e st1 ps)"
    by (rule ext) (auto simp: live_after_Suc [OF assms] split: prod.split sum.split)
  moreover have "takeWhile (\<lambda>n. False) xs = []" for xs :: "nat list" by (cases xs) simp_all
  ultimately show ?thesis
    using assms by (auto simp: metered_events_def takeWhile_map simp del: upt_Suc split: prod.split sum.split)
qed

lemma consumed_metered: "\<not> tsEnded st \<Longrightarrow> consumed e st evs = metered_events e st evs"
proof (induction evs arbitrary: st)
  case (Cons p ps)
  then show ?case
    by (auto simp: metered_events_Cons metered_events_ended split: prod.split sum.split)
qed (simp add: metered_events_def)

lemma feed_run_live: "live_after e st evs n \<Longrightarrow> m \<le> n \<Longrightarrow> live_after e st evs m"
proof -
  assume n: "live_after e st evs n" and "m \<le> n"
  then obtain k where "map snd (take n evs) = map snd (take m evs) @ map snd (take k (drop m evs))"
    using take_add [of m "n - m" evs] by auto
  with n show ?thesis
    by (auto simp: live_after_def feed_run_append split: prod.splits if_splits)
qed

text \<open>A translation that is running before the last event has them all counted.\<close>

lemma metered_events_all: "live_after e st evs (length evs - 1) \<Longrightarrow> metered_events e st evs = evs"
proof -
  assume live: "live_after e st evs (length evs - 1)"
  have "\<forall>n \<in> set [0..<length evs]. live_after e st evs n" using feed_run_live [OF live] by auto
  then have "takeWhile (live_after e st evs) [0..<length evs] = [0..<length evs]" by (simp only: takeWhile_eq_all_conv)
  then show ?thesis unfolding metered_events_def by (simp only: length_upt diff_zero take_all_iff order_refl)
qed

text \<open>C30: translated or not, the account is the provider's: for every direction of translation to a client that takes
  every byte, the usage of a relayed stream is what the parser of the provider's protocol makes of the raw events, in
  order, each that came while the translation was running and none after: so with the event that ends the message,
  which may be the one that carries the usage, or that cannot be translated. A stream not ended before its
  last event is metered exactly as if it had been passed through.\<close>

theorem translated_metering_is_raw:
  assumes "takes_all c" and "is_sse (upHeader resp)" and "header_status (upStatus resp)" and "NewStream t = Some st"
    and "short_lines maxLine (concat (bdChunks (upBody resp)))"
  shows "rrUsage (snd (relay c h resp proto (Some t))) = parser_Usage
      (feed_parser (metered_events (rcEnv c) st (events_of (concat (bdChunks (upBody resp))))) (NewStreamParser (trTo t)))
    \<and> (live_after (rcEnv c) st (events_of (concat (bdChunks (upBody resp))))
         (length (events_of (concat (bdChunks (upBody resp)))) - 1) \<longrightarrow>
       rrUsage (snd (relay c h resp proto (Some t))) = metered (trTo t) (concat (bdChunks (upBody resp))))"
proof -
  let ?evs = "events_of (concat (bdChunks (upBody resp)))"
  obtain st1 out er where "feed_run (rcEnv c) st (map snd ?evs) = (st1, out, er)" by (rule prod_cases3)
  then have "rrUsage (snd (relay c h resp proto (Some t)))
      = parser_Usage (feed_parser (consumed (rcEnv c) st ?evs) (NewStreamParser (trTo t)))"
    using relay_translated [OF assms(1-3) assms(4,5), of st1 out er h proto] by simp
  moreover have "\<not> tsEnded st" using assms(4) by (auto simp: NewStream_def split: option.splits)
  ultimately show ?thesis by (simp add: consumed_metered metered_events_all metered_def)
qed

section \<open>Two streams\<close>

text \<open>A chunk with usage, an error event, and a chunk that opens a tool.\<close>

definition usage_chunk :: json where
  "usage_chunk = JObj [(''usage'', JObj [(''prompt_tokens'', num64 (i64_of 10)), (''completion_tokens'', num64 (i64_of 5))])]"

definition error_chunk :: json where
  "error_chunk = JObj [(''error'', JObj [(''type'', JStr ''overloaded''), (''message'', JStr ''busy'')])]"

definition chat_to_anthropic :: translator where
  "chat_to_anthropic = \<lparr>trFrom = Anthropic, trTo = OpenAIChat, trOpts = \<lparr>oDefaultMaxTokens = 1, oTargetIsBedrock = False\<rparr>\<rparr>"

definition chat_to_anthropic_stream :: tstream where
  "chat_to_anthropic_stream = \<lparr>tsDec = DecChat newChatStreamIn, tsEnc = EncAnthropic newAnthropicStreamOut,
     tsEnded = False, tsUsage = no_usage\<rparr>"

lemma chat_to_anthropic:
  "New_translator Anthropic OpenAIChat \<lparr>oDefaultMaxTokens = 1, oTargetIsBedrock = False\<rparr> = Inr chat_to_anthropic"
  "NewStream chat_to_anthropic = Some chat_to_anthropic_stream"
  by (simp_all add: New_translator_def Supported_def Valid_def has_codec_def NewStream_def newStreamDecoder_def
      newStreamEncoder_def Anthropic_def OpenAIChat_def chat_to_anthropic_def chat_to_anthropic_stream_def)

lemma chunks_ok [simp]: "json_ok usage_chunk" "json_ok error_chunk"
  by (simp_all add: usage_chunk_def error_chunk_def)

lemma chunk_texts [simp]:
  "json_text usage_chunk \<noteq> []" "json_text usage_chunk \<noteq> DONE" "json_text error_chunk \<noteq> []" "json_text error_chunk \<noteq> DONE"
  by (simp_all add: usage_chunk_def error_chunk_def json_text.simps DONE_def)

lemma small_i64 [simp]: "in_i64 10" "in_i64 5"
  by (simp_all add: in_i64_def)

lemma dec_chunks:
  "unmarshal dec_chatChunk (json_text usage_chunk) = Some \<lparr>ckID = [], ckModel = [], ckChoices = [],
     ckUsage = Some (JObj [(''prompt_tokens'', num64 (i64_of 10)), (''completion_tokens'', num64 (i64_of 5))]), ckError = None\<rparr>"
  "unmarshal dec_chatChunk (json_text error_chunk) = Some \<lparr>ckID = [], ckModel = [], ckChoices = [],
     ckUsage = None, ckError = Some (''overloaded'', ''busy'')\<rparr>"
  by (simp_all add: usage_chunk_def error_chunk_def dec_chatChunk_def dec_chunkError_def json_dec)

lemma dec_chunk_usage:
  "unmarshal dec_chat_usage (json_text usage_chunk) = Some (Some \<lparr>ouPromptTokens = i64_of 10, ouCompletionTokens = i64_of 5,
     ouCachedTokens = 0, ouDetailCacheWrite = 0, ouReasoningTokens = 0, ouCacheCreation = 0, ouCacheWrite = 0\<rparr>)"
  "unmarshal dec_chat_usage (json_text error_chunk) = Some None"
  by (simp_all add: usage_chunk_def error_chunk_def dec_chat_usage_def dec_openAIUsage_def json_dec)

lemmas chat_run = Stream_Feed_def map_state_def chatStreamIn_ToIR_def chatChunk_ToIR_def chunk_start_def
  chunk_usage_def hasUsage_def raw_set_def newChatStreamIn_def chat_to_anthropic_stream_def Let_def

lemma usage_then_error:
  "\<exists>st out. feed_run e chat_to_anthropic_stream [json_text usage_chunk, json_text error_chunk] = (st, out, None) \<and> tsEnded st
     \<and> consumed e chat_to_anthropic_stream [([], json_text usage_chunk), ([], json_text error_chunk)]
         = [([], json_text usage_chunk), ([], json_text error_chunk)]"
  by (simp add: chat_run dec_chunks split_beta)

lemma usage_alone:
  "\<exists>st out. feed_run e chat_to_anthropic_stream [json_text usage_chunk] = (st, out, None) \<and> out \<noteq> [] \<and> filter closing out = []
     \<and> \<not> tsEnded st"
  by (simp add: chat_run dec_chunks split_beta newAnthropicStreamOut_def message_start_frame_def sse_def)

lemma sample_lengths: "length (json_text usage_chunk) < 1000" "length (json_text error_chunk) < 1000"
  by (simp_all add: usage_chunk_def error_chunk_def json_text.simps str_text_def num64_def i64_text_def int_text_def
      nat_text.simps esc_char_def)

lemma short_frames:
  assumes "\<forall>f \<in> set fs. frame_wf f" and "\<forall>f \<in> set fs. \<forall>l \<in> set (frame_lines f). length l < mx"
  shows "short_lines mx (stream_bytes fs)"
  using assms by (auto simp: short_lines_def lines_of_frames)

definition two_chunks :: "err option \<Rightarrow> upstream_response" where
  "two_chunks fin = sse_response [stream_bytes [Data usage_chunk, Data error_chunk]] fin"

lemma two_chunks_simps [simp]:
  "concat (bdChunks (upBody (two_chunks fin))) = stream_bytes [Data usage_chunk, Data error_chunk]"
  "bdErr (upBody (two_chunks fin)) = fin" "is_sse (upHeader (two_chunks fin))" "upStatus (two_chunks fin) = 200"
  "header_status (upStatus (two_chunks fin))"
  by (simp_all add: two_chunks_def sse_response_def is_sse_def h_get_def h_values_def to_lower_def header_status_def)

lemma two_chunks_lines: "short_lines maxLine (stream_bytes [Data usage_chunk, Data error_chunk])"
  "flushed (lines_of (stream_bytes [Data usage_chunk, Data error_chunk]))"
  "events_of (stream_bytes [Data usage_chunk, Data error_chunk]) = [([], json_text usage_chunk), ([], json_text error_chunk)]"
proof -
  have wf: "\<forall>f \<in> set [Data usage_chunk, Data error_chunk]. frame_wf f" by simp
  have "\<forall>f \<in> set [Data usage_chunk, Data error_chunk]. \<forall>l \<in> set (frame_lines f). length l < maxLine"
    using sample_lengths by (simp add: maxLine_def)
  with wf show "short_lines maxLine (stream_bytes [Data usage_chunk, Data error_chunk])" by (rule short_frames)
  show "flushed (lines_of (stream_bytes [Data usage_chunk, Data error_chunk]))"
    unfolding lines_of_frames [OF wf] by (simp add: flushed_def drop_cr_id)
  show "events_of (stream_bytes [Data usage_chunk, Data error_chunk]) = [([], json_text usage_chunk), ([], json_text error_chunk)]"
    unfolding events_roundtrip [OF wf] by simp
qed

lemma usage_of_chunks:
  "uInput (parser_Usage (feed_parser [([], json_text usage_chunk), ([], json_text error_chunk)] (NewStreamParser OpenAIChat))) = i64_of 10"
  by (simp add: NewStreamParser_def openAIChatStream_Feed_def dec_chunk_usage openAI_normalize_def clamp_def zero_neg_def neg64_def)

lemma translated_metering_is_raw_witness:
  "rrUsage (snd (relay quiet_ctx [] (two_chunks None) Anthropic (Some chat_to_anthropic)))
     = metered OpenAIChat (stream_bytes [Data usage_chunk, Data error_chunk])
   \<and> uInput (rrUsage (snd (relay quiet_ctx [] (two_chunks None) Anthropic (Some chat_to_anthropic)))) = i64_of 10"
proof -
  have short: "short_lines maxLine (concat (bdChunks (upBody (two_chunks None))))" by (simp only: two_chunks_simps two_chunks_lines)
  have live: "live_after (rcEnv quiet_ctx) chat_to_anthropic_stream (events_of (concat (bdChunks (upBody (two_chunks None)))))
      (length (events_of (concat (bdChunks (upBody (two_chunks None))))) - 1)"
    unfolding two_chunks_simps two_chunks_lines using usage_alone [of "rcEnv quiet_ctx"] by (auto simp: live_after_def)
  have to: "trTo chat_to_anthropic = OpenAIChat" by (simp add: chat_to_anthropic_def)
  have "rrUsage (snd (relay quiet_ctx [] (two_chunks None) Anthropic (Some chat_to_anthropic)))
      = metered OpenAIChat (stream_bytes [Data usage_chunk, Data error_chunk])"
    using conjunct2 [OF translated_metering_is_raw [OF quiet_takes_all two_chunks_simps(3,5) chat_to_anthropic(2) short,
      of "[]" Anthropic]] live unfolding two_chunks_simps(1) to by blast
  with usage_of_chunks show ?thesis unfolding metered_def two_chunks_lines by simp
qed

lemma translated_relay_complete_witness:
  "\<exists>fs. crBody (fst (relay quiet_ctx [] (two_chunks None) Anthropic (Some chat_to_anthropic))) = stream_bytes fs
     \<and> length (filter closing fs) = 1 \<and> closing (last fs)"
proof -
  have short: "short_lines maxLine (concat (bdChunks (upBody (two_chunks None))))"
    by (simp only: two_chunks_simps two_chunks_lines)
  have "\<forall>p \<in> set (events_of (concat (bdChunks (upBody (two_chunks None))))). chat_data_fits (snd p)"
    unfolding two_chunks_simps two_chunks_lines by (simp add: chat_data_fits_def dec_chunks)
  from translated_relay_complete [OF chat_to_anthropic quiet_takes_all two_chunks_simps(3,5,2) short this, of "[]"]
  show ?thesis by blast
qed

text \<open>An upstream that fails in its stream sends an error event and breaks the stream off, as the
  InvokeModel pump does on purpose so that the stream is not billed. Passed through, it is not; but a
  translating relay stops at the error event as at any that ends the message, does not see the read
  error, and reports a complete response with its tokens.
\<close>

theorem inband_error_is_billed:
  "rrTruncated (classifyTruncation False False (snd (relay quiet_ctx [] (two_chunks (Some ''failed'')) Anthropic (Some chat_to_anthropic)))) = []
   \<and> rrStatus (classifyTruncation False False (snd (relay quiet_ctx [] (two_chunks (Some ''failed'')) Anthropic (Some chat_to_anthropic)))) = 200
   \<and> uInput (rrUsage (classifyTruncation False False (snd (relay quiet_ctx [] (two_chunks (Some ''failed'')) Anthropic (Some chat_to_anthropic))))) = i64_of 10
   \<and> rrStatus (classifyTruncation False False (snd (relay quiet_ctx [] (two_chunks (Some ''failed'')) OpenAIChat None))) = 502
   \<and> rrUsage (classifyTruncation False False (snd (relay quiet_ctx [] (two_chunks (Some ''failed'')) OpenAIChat None))) = no_usage"
proof -
  let ?t = "relay quiet_ctx [] (two_chunks (Some ''failed'')) Anthropic (Some chat_to_anthropic)"
  obtain st out where run: "feed_run (rcEnv quiet_ctx) chat_to_anthropic_stream [json_text usage_chunk, json_text error_chunk]
      = (st, out, None)" "tsEnded st"
    and used: "consumed (rcEnv quiet_ctx) chat_to_anthropic_stream [([], json_text usage_chunk), ([], json_text error_chunk)]
      = [([], json_text usage_chunk), ([], json_text error_chunk)]"
    using usage_then_error by blast
  have short: "short_lines maxLine (concat (bdChunks (upBody (two_chunks (Some ''failed'')))))"
    by (simp only: two_chunks_simps two_chunks_lines)
  have feed: "feed_run (rcEnv quiet_ctx) chat_to_anthropic_stream
      (map snd (events_of (concat (bdChunks (upBody (two_chunks (Some ''failed''))))))) = (st, out, None)"
    unfolding two_chunks_simps two_chunks_lines using run(1) by (simp only: list.map snd_conv)
  have to: "trTo chat_to_anthropic = OpenAIChat" by (simp add: chat_to_anthropic_def)
  note rt = relay_translated [OF quiet_takes_all two_chunks_simps(3,5) chat_to_anthropic(2) short feed, of "[]" Anthropic,
    unfolded two_chunks_simps two_chunks_lines to used]
  have t: "rrUpstreamErr (snd ?t) = None" "rrClientErr (snd ?t) = None" "rrStatus (snd ?t) = 200"
     "rrUsage (snd ?t) = parser_Usage (feed_parser [([], json_text usage_chunk), ([], json_text error_chunk)] (NewStreamParser OpenAIChat))"
    using rt run(2) two_chunks_lines(2) by (blast, blast, blast, blast)
  have "rrTruncated (snd ?t) = []" by (simp add: relay_def relay_stream_def stream_result_def new_result_def two_chunks_simps Let_def split_beta)
  moreover have "uInput (rrUsage (snd ?t)) = i64_of 10"
    unfolding t(4) by (rule usage_of_chunks)
  moreover have "rrUpstreamErr (snd (relay quiet_ctx [] (two_chunks (Some ''failed'')) OpenAIChat None)) = Some ''failed''"
      "rrClientErr (snd (relay quiet_ctx [] (two_chunks (Some ''failed'')) OpenAIChat None)) = None"
    using quiet_takes_all two_chunks_lines(1) passthrough_result [of "two_chunks (Some ''failed'')"] by (metis two_chunks_simps)+
  ultimately show ?thesis using t by (auto simp: classifyTruncation_def Let_def)
qed

text \<open>Fail is documented to close a message after an upstream failure, but the relay calls it only when the
  body ends without an error: when reading it fails, the client of a translating relay is left with a
  message that has no closing frame.
\<close>

theorem read_error_leaves_message_open:
  "\<exists>fs. crBody (fst (relay quiet_ctx [] (sse_response [stream_bytes [Data usage_chunk]] (Some ''connection reset''))
        Anthropic (Some chat_to_anthropic))) = stream_bytes fs
     \<and> fs \<noteq> [] \<and> filter closing fs = []"
proof -
  let ?r = "sse_response [stream_bytes [Data usage_chunk]] (Some ''connection reset'')"
  have wf: "\<forall>f \<in> set [Data usage_chunk]. frame_wf f" by simp
  have short: "short_lines maxLine (stream_bytes [Data usage_chunk])"
    by (rule short_frames [OF wf]) (use sample_lengths in \<open>simp add: maxLine_def\<close>)
  obtain st out where run: "feed_run (rcEnv quiet_ctx) chat_to_anthropic_stream [json_text usage_chunk] = (st, out, None)"
    "out \<noteq> []" "filter closing out = []" using usage_alone by blast
  have "is_sse (upHeader ?r)" "header_status (upStatus ?r)"
    by (simp_all add: sse_response_def is_sse_def h_get_def h_values_def to_lower_def header_status_def)
  with relay_translated [of quiet_ctx ?r chat_to_anthropic chat_to_anthropic_stream st out None "[]" Anthropic]
    run short events_roundtrip [OF wf] chat_to_anthropic(2) show ?thesis by (auto simp: sse_response_def)
qed

end
