(* ===== verification/StreamTypes.thy ===== *)
theory StreamTypes
  imports RelayProps
begin

text \<open>
  The types of translated streams: which frames a protocol has, and that whatever comes from upstream the
  client of a translated stream is sent only frames of its own protocol, each a line of well-formed JSON that
  the relay of another gateway reads back.
\<close>

section \<open>The frames of a protocol\<close>

fun jmember :: "json \<Rightarrow> string \<Rightarrow> json option" where
  "jmember (JObj fs) k = map_of fs k"
| "jmember _ k = None"

lemma jmember_jmap [simp]: "distinct (map fst fs) \<Longrightarrow> jmember (jmap fs) k = map_of fs k"
  by (simp add: jmap_def)

text \<open>An Anthropic frame is named by the type of its event.\<close>

definition anthropic_typed :: "string \<Rightarrow> json \<Rightarrow> bool" where
  "anthropic_typed e j \<longleftrightarrow> jmember j ''type'' = Some (JStr e)
     \<and> e \<in> set [''message_start'', ''content_block_start'', ''content_block_delta'', ''content_block_stop'',
                 ''message_delta'', ''message_stop'', ''error'']"

text \<open>A Chat Completions frame is a chunk with at most one choice, or an error.\<close>

definition chat_typed :: "json \<Rightarrow> bool" where
  "chat_typed j \<longleftrightarrow>
     jmember j ''object'' = Some (JStr ''chat.completion.chunk'')
       \<and> (case jmember j ''choices'' of Some (JArr cs) \<Rightarrow> length cs \<le> 1 | _ \<Rightarrow> False)
     \<or> jmember j ''error'' \<noteq> None"

text \<open>A Responses frame says its type and carries a sequence number.\<close>

definition responses_typed :: "json \<Rightarrow> bool" where
  "responses_typed j \<longleftrightarrow>
     (case jmember j ''type'' of Some (JStr t) \<Rightarrow> has_prefix ''response.'' t | _ \<Rightarrow> False)
     \<and> (case jmember j ''sequence_number'' of Some (JNum l) \<Rightarrow> True | _ \<Rightarrow> False)"

definition frame_typed :: "protocol \<Rightarrow> frame \<Rightarrow> bool" where
  "frame_typed p f \<longleftrightarrow>
     (case f of
        Named e j \<Rightarrow> p = Anthropic \<and> json_ok j \<and> anthropic_typed e j
      | Data j \<Rightarrow> json_ok j \<and> (p = OpenAIChat \<and> chat_typed j \<or> p = OpenAIResponses \<and> responses_typed j)
      | DoneFrame \<Rightarrow> p = OpenAIChat)"

lemma anthropic_names: "anthropic_typed e j \<Longrightarrow> name_ok e"
  by (auto simp: anthropic_typed_def name_ok_def)

lemma frame_typed_wf: "frame_typed p f \<Longrightarrow> frame_wf f"
  by (cases f) (auto simp: frame_typed_def dest: anthropic_names)

text \<open>A client that looks at nothing but the types.\<close>

definition typed_client :: "protocol \<Rightarrow> unit \<Rightarrow> frame \<Rightarrow> unit option" where
  "typed_client p c f = (if frame_typed p f then Some () else None)"

lemma typed_run: "client_run (typed_client p) c fs = (if list_all (frame_typed p) fs then Some () else None)"
  by (induction fs arbitrary: c) (simp_all add: typed_client_def)

text \<open>An event whose raw JSON, if any, is well-formed.\<close>

fun event_ok :: "StreamEvent \<Rightarrow> bool" where
  "event_ok (EventThinkingDone i t sig raw) \<longleftrightarrow> raw_ok raw"
| "event_ok _ \<longleftrightarrow> True"

section \<open>The encoders\<close>

subsection \<open>Anthropic\<close>

lemmas typed_defs = frame_typed_def json_ok_jmap json_ok_members

lemma usage_json_ok [simp]:
  "json_ok (enc_anthropicUsage a b c d)" "json_ok (anthropicUsageFromIR u)" "raw_ok (chatUsageFromIR u)"
  "json_ok (responsesUsageFromIR u)"
  by (auto simp: enc_anthropicUsage_def anthropicUsageFromIR_def chatUsageFromIR_def responsesUsageFromIR_def
      json_ok_jmap Let_def)

lemma anthropic_frames [simp]:
  "frame_typed Anthropic (block_start_frame i b) \<longleftrightarrow> json_ok b"
  "frame_typed Anthropic (block_delta_frame i d) \<longleftrightarrow> members_ok d"
  "frame_typed Anthropic (block_stop_frame i)" "frame_typed Anthropic (error_frame m)"
  "frame_typed Anthropic (message_start_frame n m u)" "frame_typed Anthropic (input_delta_frame i t)"
  "list_all (frame_typed Anthropic) (message_stop_frames r u)"
  by (simp_all add: typed_defs anthropic_typed_def block_start_frame_def block_delta_frame_def block_stop_frame_def
      error_frame_def message_start_frame_def input_delta_frame_def message_stop_frames_def sse_def del: json_ok.simps(3))

lemma aclose_typed [simp]: "list_all (frame_typed Anthropic) (snd (aclose s))"
  by (simp add: aclose_def)

lemma ensureOpen_typed [simp]: "list_all (frame_typed Anthropic) (snd (ensureOpen k s))"
  by (simp add: ensureOpen_def Let_def split_beta open_block_json_def json_ok_jmap)

lemma tool_start_typed [simp]: "list_all (frame_typed Anthropic) (snd (tool_start e s i c n))"
  by (simp add: tool_start_def Let_def split_beta json_ok_jmap)

lemma anthropic_step_typed: "list_all (frame_typed Anthropic) (snd (anthropicStreamOut_FromIR e s ev))"
  by (cases ev) (simp_all add: Let_def split_beta json_ok_jmap split: option.split)

subsection \<open>Chat Completions\<close>

lemma chat_frames [simp]:
  "frame_typed OpenAIChat (chunk s d f u) \<longleftrightarrow> (case d of None \<Rightarrow> True | Some ms \<Rightarrow> members_ok ms) \<and> raw_ok u"
  "frame_typed OpenAIChat DoneFrame" "members_ok (tool_calls_delta j) = json_ok j"
  by (auto simp: typed_defs chat_typed_def chunk_def tool_calls_delta_def opt_json_def Let_def split: option.split)

lemma chat_tool_start_typed [simp]: "list_all (frame_typed OpenAIChat) (snd (chat_tool_start e s i c n))"
  by (simp add: chat_tool_start_def Let_def split_beta json_ok_jmap)

lemma chat_args_typed [simp]: "frame_typed OpenAIChat (chat_args_chunk s i d)"
  by (simp add: chat_args_chunk_def json_ok_jmap)

lemma chat_step_typed: "list_all (frame_typed OpenAIChat) (snd (chatStreamOut_FromIR e s ev))"
proof (cases ev)
  case (EventMessageStop r u)
  then show ?thesis using usage_json_ok(3) [of u] by (cases "chatUsageFromIR u") simp_all
next
  case (EventError m)
  then show ?thesis by (simp add: typed_defs chat_typed_def)
qed (simp_all add: Let_def split_beta split: option.split)

subsection \<open>Responses\<close>

definition ev_typed :: "(string \<times> json) list \<Rightarrow> bool" where
  "ev_typed v \<longleftrightarrow> ev_wf v \<and> members_ok v
     \<and> (case map_of v ''type'' of Some (JStr t) \<Rightarrow> has_prefix ''response.'' t | _ \<Rightarrow> False)"

lemma rframe_typed:
  assumes "ev_typed v"
  shows "list_all (frame_typed OpenAIResponses) (snd (rframe s v))"
proof -
  have "distinct (map fst (v @ [(''sequence_number'', num_int (roSeq s))]))" "map_of v ''sequence_number'' = None"
    using assms by (auto simp: ev_typed_def ev_wf_def map_of_eq_None_iff)
  then show ?thesis
    using assms by (cases "map_of v ''type''")
      (simp_all add: rframe_def typed_defs responses_typed_def ev_typed_def num_int_def map_add_def)
qed

lemma rframes_typed: "list_all ev_typed vs \<Longrightarrow> list_all (frame_typed OpenAIResponses) (snd (rframes s vs))"
  by (induction vs arbitrary: s) (simp_all add: rframes.simps rframe_typed Let_def split_beta)

lemma out_items_ok [simp]:
  "json_ok (annotated_text t)" "json_ok (out_call i c n a)" "json_ok (out_reasoning i t)"
  "json_ok (out_message i [annotated_text t])"
  by (simp_all add: annotated_text_def out_call_def out_reasoning_def out_message_def json_ok_jmap)

lemma ev_typed_simps [simp]:
  "ev_typed (item_added i it) = json_ok it" "ev_typed (item_done i it) = json_ok it"
  "has_prefix ''response.'' t \<Longrightarrow> ev_typed (ev_json t [(''response'', r)]) = json_ok r"
  "has_prefix ''response.'' t \<Longrightarrow> ev_typed (content_event t i iid fs) = (ev_wf (content_event t i iid fs) \<and> members_ok fs)"
  by (auto simp: ev_typed_def ev_wf_def item_added_def item_done_def ev_json_def content_event_def)

lemma part_index_ok [simp]: "members_ok (part_index # fs) = members_ok fs"
  by (simp add: part_index_def)

definition output_ok :: "responsesStreamOut \<Rightarrow> bool" where
  "output_ok s \<longleftrightarrow> (\<forall>j \<in> set (roOutput s). json_ok j)"

definition typed_step :: "responsesStreamOut \<times> frame list \<Rightarrow> bool" where
  "typed_step x \<longleftrightarrow> output_ok (fst x) \<and> list_all (frame_typed OpenAIResponses) (snd x)"

lemma output_ok_simps [simp]:
  "output_ok (s\<lparr>roOutput := xs\<rparr>) = (\<forall>j \<in> set xs. json_ok j)" "output_ok (s\<lparr>roSeq := n\<rparr>) = output_ok s"
  "output_ok (s\<lparr>roOpen := p\<rparr>) = output_ok s" "output_ok (s\<lparr>roSrcToItem := m\<rparr>) = output_ok s"
  "output_ok (s\<lparr>roItems := its\<rparr>) = output_ok s" "output_ok (s\<lparr>roNextOut := n\<rparr>) = output_ok s"
  "output_ok (s\<lparr>roDraws := k\<rparr>) = output_ok s" "output_ok (alloc_item s it) = output_ok s"
  "output_ok (s\<lparr>roID := i\<rparr>) = output_ok s" "output_ok (s\<lparr>roModel := i\<rparr>) = output_ok s"
  "output_ok (s\<lparr>roCreated := n\<rparr>) = output_ok s" "output_ok (add_text s t) = output_ok s" "output_ok newResponsesStreamOut"
  by (simp_all add: output_ok_def alloc_item_def add_text_def newResponsesStreamOut_def split: option.split)

lemma responseObj_ok: "output_ok s \<Longrightarrow> json_ok u \<Longrightarrow> json_ok er \<Longrightarrow> json_ok inc \<Longrightarrow> json_ok (responseObj s st u er inc)"
  by (simp add: responseObj_def json_ok_jmap output_ok_def)

lemma typed_rframes: "output_ok s \<Longrightarrow> list_all ev_typed vs \<Longrightarrow> typed_step (rframes s vs)"
  by (simp add: typed_step_def rframes_typed)

lemma typed_seq: "typed_step x \<Longrightarrow> (output_ok (fst x) \<Longrightarrow> typed_step y) \<Longrightarrow> typed_step (fst y, snd x @ snd y)"
  by (simp add: typed_step_def)

lemma closeTool_typed: "output_ok s \<Longrightarrow> typed_step (closeTool s it)"
  unfolding closeTool_def Let_def
  by (rule typed_rframes) (auto simp: output_ok_def)

lemma rclose_typed:
  assumes "output_ok s"
  shows "typed_step (rclose s)"
proof (cases "roOpen s")
  case None
  with assms show ?thesis by (simp add: rclose_def typed_step_def)
next
  case (Some p)
  with assms show ?thesis
    by (cases "oiKind (roItems s ! p)")
      (simp_all add: rclose_def Let_def closeTool_typed typed_rframes typed_step_def [of "(_, [])"],
       auto intro!: typed_rframes simp: output_ok_def)
qed

lemma open_text_typed: "output_ok s \<Longrightarrow> typed_step (open_text e s)"
  using rclose_typed [of s] unfolding open_text_def Let_def split_beta
  by (auto simp: typed_step_def json_ok_jmap intro!: rframes_typed)

lemma open_thinking_typed: "output_ok s \<Longrightarrow> typed_step (open_thinking e s)"
  using rclose_typed [of s] unfolding open_thinking_def Let_def split_beta
  by (auto simp: typed_step_def json_ok_jmap intro!: rframes_typed)

lemma rtool_start_typed: "output_ok s \<Longrightarrow> typed_step (rtool_start e s src c n)"
  using rclose_typed [of s] unfolding rtool_start_def Let_def split_beta
  by (auto simp: typed_step_def json_ok_jmap intro!: rframes_typed)

lemma tool_args_typed: "output_ok s \<Longrightarrow> typed_step (tool_args s p d)"
  by (auto simp: tool_args_def Let_def typed_step_def intro!: rframes_typed)

lemma status_json_ok [simp]: "json_ok (snd (responsesStatusFromIR r))"
  by (cases r) simp_all

lemma responses_step_typed:
  assumes "output_ok s" and "event_ok ev"
  shows "typed_step (responsesStreamOut_FromIR e s ev)"
proof -
  note step = rclose_typed [OF assms(1)] open_text_typed [OF assms(1), of e] open_thinking_typed [OF assms(1), of e]
    rtool_start_typed [OF assms(1)]
  show ?thesis
  proof (cases ev)
    case (EventMessageStart i m u)
    then show ?thesis using assms
      by (auto simp: Let_def split_beta intro!: typed_rframes responseObj_ok)
  next
    case (EventTextDelta i t)
    then show ?thesis using step
      by (auto simp: Let_def split_beta typed_step_def intro!: rframes_typed)
  next
    case (EventThinkingDelta i t)
    then show ?thesis using step
      by (auto simp: Let_def split_beta typed_step_def intro!: rframes_typed)
  next
    case (EventThinkingDone i t sig raw)
    then show ?thesis using step assms
      by (auto simp: Let_def split_beta typed_step_def output_ok_def intro!: rframes_typed)
  next
    case (EventToolInputDelta i c n d)
    then show ?thesis using step tool_args_typed [OF assms(1)] tool_args_typed
      by (auto simp: Let_def split_beta typed_step_def split: option.split)
  next
    case (EventToolUseStop i c n)
    then show ?thesis using assms closeTool_typed
      by (auto simp: Let_def typed_step_def split: option.split)
  next
    case (EventMessageStop r u)
    then show ?thesis using step
      by (auto simp: Let_def split_beta typed_step_def intro!: rframes_typed responseObj_ok)
  next
    case (EventError m)
    then show ?thesis using step
      by (auto simp: Let_def split_beta typed_step_def json_ok_jmap intro!: rframes_typed responseObj_ok)
  qed (use step in simp)
qed

section \<open>The decoders\<close>

text \<open>Raw JSON in an event is a part of what was parsed.\<close>

lemma chat_small_ok [simp]:
  "list_all event_ok (snd (closeCurrentTool s))" "list_all event_ok (snd (close_reasoning s))"
  "list_all event_ok (snd (chunk_reasoning s r))" "list_all event_ok (snd (chunk_start s c))"
  by (simp_all add: closeCurrentTool_def close_reasoning_def chunk_reasoning_def chunk_start_def Let_def
      split: option.split)

lemma chat_parts_ok [simp]:
  "list_all event_ok (snd (finishIfNeeded s))" "list_all event_ok (snd (chunk_text s t))"
  "list_all event_ok (snd (chunk_finish s t))" "list_all event_ok (snd (fragment_open s tc))"
  by (simp_all add: finishIfNeeded_def chunk_text_def chunk_finish_def fragment_open_def Let_def split_beta split: option.split)

lemma tool_fragments_ok: "tool_fragments s tcs = Inr (s', evs) \<Longrightarrow> list_all event_ok evs"
proof (induction tcs arbitrary: s s' evs)
  case (Cons tc tcs)
  have "tool_fragment s tc = Inr (s1, o1) \<Longrightarrow> list_all event_ok o1" for s1 o1
    by (auto simp: tool_fragment_def Let_def split_beta split: if_splits)
  with Cons show ?case by (auto simp: rbind_Inr_iff)
qed simp

lemma chunk_choice_ok: "chunk_choice s ch = Inr (s', evs) \<Longrightarrow> list_all event_ok evs"
  by (auto simp: chunk_choice_def Let_def split_beta rbind_Inr_iff dest: tool_fragments_ok split: if_splits)

lemma chunk_choices_ok: "chunk_choices s cs = Inr (s', evs) \<Longrightarrow> list_all event_ok evs"
  by (induction cs arbitrary: s s' evs) (auto simp: rbind_Inr_iff dest: chunk_choice_ok)

lemma chat_events_ok: "chatStreamIn_ToIR s d = Inr (s', evs) \<Longrightarrow> list_all event_ok evs"
  using chat_parts_ok(1) [of s]
  by (cases "finishIfNeeded s") (auto simp: chatStreamIn_ToIR_def chatChunk_ToIR_def Let_def split_beta rbind_Inr_iff dest: chunk_choices_ok
      split: if_splits option.splits)

lemma anthropic_events_ok: "anthropicStreamIn_ToIR s d = Inr (s', evs) \<Longrightarrow> list_all event_ok evs"
  by (auto simp: anthropicStreamIn_ToIR_def anthropic_block_start_def anthropic_block_delta_def anthropic_block_stop_def
      redacted_payload_def json_ok_jmap Let_def split: if_splits option.splits blockKind.splits)

lemma item_json_ok: "json_ok j \<Longrightarrow> dec_responsesItem j = Some it \<Longrightarrow> json_ok (enc_responsesItem it)"
proof -
  assume "json_ok j" "dec_responsesItem j = Some it"
  then obtain fs where fs: "\<forall>p \<in> set fs. json_ok (snd p)" "riContent it = jget ''content'' fs"
    "riOutput it = jget ''output'' fs" "riSummary it = jget ''summary'' fs"
    by (auto simp: dec_responsesItem_def Option.bind_eq_Some_conv dest: dec_obj_ok)
  have "raw_ok (jget k fs)" for k using jget_ok [OF fs(1)] by (auto simp: raw_ok_def split: option.split)
  with fs show ?thesis by (simp add: enc_responsesItem_def json_ok_members del: json_ok.simps(3))
qed

lemma event_item_ok: "unmarshal dec_respEvent d = Some ev \<Longrightarrow> evItem ev = Some it \<Longrightarrow> json_ok (enc_responsesItem it)"
proof -
  assume ev: "unmarshal dec_respEvent d = Some ev" and it: "evItem ev = Some it"
  obtain j where j: "json_ok j" "dec_respEvent j = Some ev" using unmarshal_ok [OF ev] by blast
  then obtain fs where fs: "\<forall>p \<in> set fs. json_ok (snd p)" "get_ptr dec_responsesItem ''item'' fs = Some (Some it)"
    using it by (auto simp: dec_respEvent_def Option.bind_eq_Some_conv dest: dec_obj_ok)
  then show ?thesis
    by (auto simp: get_ptr_def dest: jget_ok item_json_ok split: option.splits if_splits)
qed

lemma responses_parts_ok [simp]:
  "list_all event_ok (snd (responses_item_added s ev it))" "list_all event_ok (snd (responses_terminal s ev d))"
  "list_all event_ok (snd (responses_item_done s i st it)) \<longleftrightarrow> itKind st = ItemThinking \<longrightarrow> json_ok (enc_responsesItem it)"
  by (simp_all add: responses_item_added_def responses_terminal_def responses_item_done_def Let_def
      split: option.split itemKind.split)

lemma responses_event_ok:
  assumes "\<And>it. evItem ev = Some it \<Longrightarrow> json_ok (enc_responsesItem it)"
  shows "list_all event_ok (snd (responsesEvent_ToIR s ev d))"
proof -
  have "list_all event_ok (snd (case (a, evItem ev) of (Some st, Some it) \<Rightarrow> responses_item_done s i st it | _ \<Rightarrow> (s, [])))" for a i
    using assms by (cases a; cases "evItem ev") simp_all
  then show ?thesis unfolding responsesEvent_ToIR_def Let_def
    by (simp split: option.split del: case_prod_conv)
qed

lemma responses_events_ok: "responsesStreamIn_ToIR s d = Inr (s', evs) \<Longrightarrow> list_all event_ok evs"
proof -
  assume res: "responsesStreamIn_ToIR s d = Inr (s', evs)"
  show ?thesis
  proof (cases "d = [] \<or> d = DONE")
    case True
    with res show ?thesis by (auto simp: responsesStreamIn_ToIR_def)
  next
    case False
    with res obtain ev where ev: "unmarshal dec_respEvent d = Some ev" "responsesEvent_ToIR s ev d = (s', evs)"
      by (auto simp: responsesStreamIn_ToIR_def split: option.splits)
    have "list_all event_ok (snd (responsesEvent_ToIR s ev d))" by (rule responses_event_ok) (rule event_item_ok [OF ev(1)])
    with ev(2) show ?thesis by simp
  qed
qed

lemma decoder_events_ok: "dec_ToIR dec d = Inr (dec', evs) \<Longrightarrow> list_all event_ok evs"
  by (cases dec) (auto simp: map_state_def rbind_Inr_iff dest: anthropic_events_ok chat_events_ok responses_events_ok)

section \<open>The stream of a response\<close>

fun enc_for :: "protocol \<Rightarrow> stream_enc \<Rightarrow> bool" where
  "enc_for p (EncAnthropic s) \<longleftrightarrow> p = Anthropic"
| "enc_for p (EncChat s) \<longleftrightarrow> p = OpenAIChat"
| "enc_for p (EncResponses s) \<longleftrightarrow> p = OpenAIResponses \<and> output_ok s"

lemma encoder_typed:
  assumes "enc_for p enc" and "event_ok ev"
  shows "enc_for p (fst (enc_FromIR e enc ev)) \<and> list_all (frame_typed p) (snd (enc_FromIR e enc ev))"
  using assms anthropic_step_typed chat_step_typed responses_step_typed [of _ ev e]
  by (cases enc) (auto simp: typed_step_def)

interpretation typed_out: stream_encoder "enc_FromIR e" "typed_client p" event_ok "\<lambda>enc c. enc_for p enc" for e p
  using encoder_typed by unfold_locales (simp add: typed_run)

lemma feed_event_enc [simp]: "tsEnc (feed_event s ev) = tsEnc s"
  by (cases ev) simp_all

lemma feed_events_encode:
  "tsEnc (fst (feed_events e s evs)) = fst (encode_all (enc_FromIR e) (tsEnc s) evs)
   \<and> snd (feed_events e s evs) = snd (encode_all (enc_FromIR e) (tsEnc s) evs)"
  by (induction evs arbitrary: s) (simp_all add: Let_def split_beta)

lemma feed_events_typed:
  assumes "enc_for p (tsEnc s)" and "list_all event_ok evs"
  shows "enc_for p (tsEnc (fst (feed_events e s evs))) \<and> list_all (frame_typed p) (snd (feed_events e s evs))"
  using typed_out.accepted [where c = "()" and evs = evs and e = e, OF assms(1)] assms(2)
  by (auto simp: feed_events_encode typed_run list_all_iff split: if_splits)

lemma Stream_Feed_typed:
  assumes "enc_for p (tsEnc s)"
  shows "enc_for p (tsEnc (fst (Stream_Feed e s d)))
    \<and> (\<forall>out. snd (Stream_Feed e s d) = Inr out \<longrightarrow> list_all (frame_typed p) out)"
proof (cases "dec_ToIR (tsDec s) d")
  case (Inr r)
  obtain dec evs where r: "r = (dec, evs)" by fastforce
  from feed_events_typed [of p "s\<lparr>tsDec := dec\<rparr>" evs e] assms decoder_events_ok [OF Inr [unfolded r]] Inr r
  show ?thesis by (auto simp: Stream_Feed_def split_beta)
qed (use assms in \<open>simp add: Stream_Feed_def\<close>)

lemma Stream_Fail_typed: "enc_for p (tsEnc s) \<Longrightarrow> list_all (frame_typed p) (snd (Stream_Fail e s m))"
  using encoder_typed [of p "tsEnc s" "EventError m" e] by (simp add: Stream_Fail_def Let_def split_beta)

lemma translate_stream_typed: "enc_for p (tsEnc s) \<Longrightarrow> list_all (frame_typed p) (snd (translate_stream e eof s ds))"
proof (induction ds arbitrary: s)
  case (Cons d ds)
  from Stream_Feed_typed [OF Cons.prems, of e d] Cons.IH show ?case
    by (auto simp: Stream_Fail_typed split: prod.split sum.split) (metis snd_conv)
qed (simp add: Stream_Fail_typed)

lemma new_stream_typed:
  "New_translator from to opts = Inr t \<Longrightarrow> NewStream t = Some s \<Longrightarrow> enc_for from (tsEnc s)"
  by (auto simp: New_translator_def NewStream_def newStreamEncoder_def split: if_splits option.splits)

text \<open>C7: a translated stream is well typed: in every direction and for any upstream, whole or broken, the client is
  sent only frames of its own protocol (Anthropic events under the name of their type, Chat
  Completions chunks of at most one choice with the final [DONE], numbered Responses events), each with well-formed
  JSON, and the bytes are cut back into exactly these events by the gateway's own reader.\<close>

theorem translated_stream_well_typed:
  assumes "New_translator from to opts = Inr t" and "NewStream t = Some s"
  shows "list_all (frame_typed from) (snd (translate_stream e eof s ds))
    \<and> events_of (stream_bytes (snd (translate_stream e eof s ds))) = map frame_event (snd (translate_stream e eof s ds))"
proof -
  have t: "list_all (frame_typed from) (snd (translate_stream e eof s ds))"
    by (rule translate_stream_typed) (rule new_stream_typed [OF assms])
  then have "\<forall>f \<in> set (snd (translate_stream e eof s ds)). frame_wf f"
    by (auto simp: list_all_iff intro: frame_typed_wf)
  with t events_roundtrip show ?thesis by blast
qed

text \<open>A stream from Chat Completions to Anthropic that sends a frame and then breaks off with an error.\<close>

lemma translated_stream_well_typed_witness:
  "let fs = snd (translate_stream (rcEnv quiet_ctx) [] chat_to_anthropic_stream [json_text usage_chunk, json_text error_chunk])
   in fs \<noteq> [] \<and> frame_typed Anthropic (hd fs) \<and> hd (events_of (stream_bytes fs)) = frame_event (hd fs)"
proof -
  let ?fs = "snd (translate_stream (rcEnv quiet_ctx) [] chat_to_anthropic_stream [json_text usage_chunk, json_text error_chunk])"
  have "?fs \<noteq> []" by (simp add: chat_run dec_chunks split_beta newAnthropicStreamOut_def message_start_frame_def sse_def)
  with translated_stream_well_typed [OF chat_to_anthropic, of "rcEnv quiet_ctx" "[]" "[json_text usage_chunk, json_text error_chunk]"]
  show ?thesis by (cases ?fs) (simp_all add: Let_def)
qed

end
