(* ===== verification/ResponseProps.thy ===== *)
theory ResponseProps
  imports Translator
begin

text \<open>
  What a complete response keeps when it is translated: its text, its tool calls, why it stopped and the
  model's name, for every pair of protocols.
\<close>

section \<open>What a response answers\<close>

fun text_of :: "Content \<Rightarrow> string list" where
  "text_of (KindText t) = [t]"
| "text_of _ = []"

fun tool_of :: "Content \<Rightarrow> (string \<times> string \<times> json) list" where
  "tool_of (KindToolUse i n a) = [(i, n, case a of None \<Rightarrow> JObj [] | Some j \<Rightarrow> j)]"
| "tool_of _ = []"

definition texts :: "Content list \<Rightarrow> string list" where
  "texts cs = concat (map text_of cs)"

definition tools :: "Content list \<Rightarrow> (string \<times> string \<times> json) list" where
  "tools cs = concat (map tool_of cs)"

text \<open>The text as one string; Chat Completions has only one text and joins the others with line breaks.\<close>

definition answer_text :: "Content list \<Rightarrow> string" where
  "answer_text cs = join [CHR 10] (texts cs)"

lemma texts_simps [simp]:
  "texts [] = []" "texts (c # cs) = text_of c @ texts cs" "texts (cs @ ds) = texts cs @ texts ds"
  "tools [] = []" "tools (c # cs) = tool_of c @ tools cs" "tools (cs @ ds) = tools cs @ tools ds"
  "texts (concat css) = concat (map texts css)" "tools (concat css) = concat (map tools css)"
  by (simp_all add: texts_def tools_def) (induction css; simp add: texts_def tools_def)+

text \<open>Blocks whose raw JSON is well-formed, and an item of reasoning if it says it is one.\<close>

fun content_ok :: "Content \<Rightarrow> bool" where
  "content_ok (KindToolUse i n a) \<longleftrightarrow> raw_ok a"
| "content_ok (KindThinking t s raw) \<longleftrightarrow>
     (case raw of None \<Rightarrow> True
      | Some j \<Rightarrow> json_ok j \<and> (probe_type (Some j) = Some ''reasoning'' \<longrightarrow> dec_responsesItem j \<noteq> None))"
| "content_ok _ \<longleftrightarrow> True"

section \<open>What the decoders give is well-formed\<close>

lemma those_mem: "those (map f xs) = Some ys \<Longrightarrow> y \<in> set ys \<Longrightarrow> \<exists>x \<in> set xs. f x = Some y"
  by (induction xs arbitrary: ys) (fastforce split: option.splits)+

lemma dec_arr_ok: "json_ok j \<Longrightarrow> dec_arr d j = Some ys \<Longrightarrow> y \<in> set ys \<Longrightarrow> \<exists>x. json_ok x \<and> d x = Some y"
  by (cases j) (auto dest!: those_mem)

lemma jget_ok_raw: "\<forall>p \<in> set fs. json_ok (snd p) \<Longrightarrow> raw_ok (jget k fs)"
  using jget_ok [of fs k] by (simp add: raw_ok_def split: option.split)

lemma get_slice_ok:
  assumes "\<forall>p \<in> set fs. json_ok (snd p)" and "get_slice d k fs = Some ys" and "y \<in> set ys"
  shows "\<exists>x. json_ok x \<and> d x = Some y"
proof (cases "jget k fs")
  case (Some j)
  with assms dec_arr_ok [OF jget_ok [OF assms(1) Some], of d ys y] show ?thesis by (simp add: get_slice_def)
qed (use assms in \<open>simp add: get_slice_def\<close>)

lemma args_or_raw_ok [simp]: "json_ok (args_or_raw a)"
  by (auto simp: args_or_raw_def jmap_def split: option.split dest: json_parse_ok)

lemma traverse_all:
  "traverse_from i f xs = Inr ys \<Longrightarrow> (\<forall>x \<in> set xs. \<forall>j y. f j x = Inr y \<longrightarrow> P y) \<Longrightarrow> list_all P ys"
  by (induction xs arbitrary: i ys) (auto simp: rbind_Inr_iff)

lemma block_input_ok: "json_ok j \<Longrightarrow> dec_anthropicBlock j = Some b \<Longrightarrow> raw_ok (abInput b)"
  by (auto simp: dec_anthropicBlock_def Option.bind_eq_Some_conv intro!: jget_ok_raw dest!: dec_obj_ok)

lemma anthropic_block_content_ok: "raw_ok (abInput b) \<Longrightarrow> anthropicBlockToIR i b = Inr c \<Longrightarrow> content_ok c"
  by (auto simp: anthropicBlockToIR_def redacted_payload_def jmap_def probe_type_def json_dec
      split: if_splits option.splits)

lemma anthropic_response_ok: "anthropicResponse_ToIR body = Inr r \<Longrightarrow> list_all content_ok (sContent r)"
proof -
  assume "anthropicResponse_ToIR body = Inr r"
  then obtain w where w: "unmarshal dec_anthropicResp body = Some w"
    "traverse anthropicBlockToIR (apContent w) = Inr (sContent r)"
    by (auto simp: anthropicResponse_ToIR_def rbind_Inr_iff split: option.splits if_splits)
  then obtain j where j: "json_ok j" "dec_anthropicResp j = Some w" using unmarshal_ok [OF w(1)] by blast
  then obtain fs where fs: "\<forall>p \<in> set fs. json_ok (snd p)" "get_slice dec_anthropicBlock ''content'' fs = Some (apContent w)"
    by (auto simp: dec_anthropicResp_def Option.bind_eq_Some_conv dest: dec_obj_ok)
  have "raw_ok (abInput b)" if "b \<in> set (apContent w)" for b
    using get_slice_ok [OF fs that] block_input_ok by blast
  then show ?thesis by (intro traverse_all [OF w(2)]) (blast intro: anthropic_block_content_ok)
qed

lemma chat_response_ok: "openAIChatResponse_ToIR body = Inr r \<Longrightarrow> list_all content_ok (sContent r)"
  by (auto simp: openAIChatResponse_ToIR_def chatMessage_content_def nonempty_text_def list_all_iff
      split: option.splits list.splits if_splits)

lemma item_raw: "dec_responsesItem j = Some it \<Longrightarrow> riRaw it = j"
  by (auto simp: dec_responsesItem_def Option.bind_eq_Some_conv)

lemma part_content_ok: "responsesPartToIR i p = Inr c \<Longrightarrow> content_ok c"
  by (auto simp: responsesPartToIR_def split: if_splits option.splits)

lemma message_content_ok: "responsesContentToIR raw = Inr cs \<Longrightarrow> list_all content_ok cs"
proof (cases raw)
  case (Some j)
  assume "responsesContentToIR raw = Inr cs"
  with Some have "cs = [] \<or> (\<exists>s. cs = [KindText s]) \<or> (\<exists>ps. traverse responsesPartToIR ps = Inr cs)"
    by (cases j) (auto simp: responsesContentToIR_def split: option.splits)
  moreover have "list_all content_ok cs" if "traverse responsesPartToIR ps = Inr cs" for ps
    by (rule traverse_all [OF that]) (blast intro: part_content_ok)
  ultimately show ?thesis by auto
qed (simp add: responsesContentToIR_def)

lemma item_content_ok:
  assumes "json_ok j" and "dec_responsesItem j = Some it" and "responses_output_content it = Inr cs"
  shows "list_all content_ok cs"
  using assms(3) message_content_ok [of "riContent it" cs] item_raw [OF assms(2)] assms(1,2)
  by (auto simp: responses_output_content_def split: if_splits)

lemma list_all_concat: "list_all (list_all P) xss \<Longrightarrow> list_all P (concat xss)"
  by (induction xss) auto

lemma responses_response_ok: "openAIResponsesResponse_ToIR body = Inr r \<Longrightarrow> list_all content_ok (sContent r)"
proof -
  assume "openAIResponsesResponse_ToIR body = Inr r"
  then obtain w css where w: "unmarshal dec_responsesResp body = Some w"
    "traverse (\<lambda>i it. wrap_err ''openai responses response: '' (responses_output_content it)) (rsOutput w) = Inr css"
    "sContent r = concat css"
    by (auto simp: openAIResponsesResponse_ToIR_def rbind_Inr_iff split: option.splits)
  then obtain j where j: "json_ok j" "dec_responsesResp j = Some w" using unmarshal_ok [OF w(1)] by blast
  then obtain fs where fs: "\<forall>p \<in> set fs. json_ok (snd p)" "get_slice dec_responsesItem ''output'' fs = Some (rsOutput w)"
    by (auto simp: dec_responsesResp_def Option.bind_eq_Some_conv dest: dec_obj_ok)
  have "list_all content_ok cs" if "it \<in> set (rsOutput w)" "responses_output_content it = Inr cs" for it cs
    using get_slice_ok [OF fs that(1)] item_content_ok that(2) by blast
  then have "list_all (list_all content_ok) css"
    by (intro traverse_all [OF w(2)]) (auto simp: wrap_err_Inr_iff)
  with w(3) show ?thesis by (simp add: list_all_concat)
qed

lemma decoded_ok: "response_ToIR p body = Inr r \<Longrightarrow> list_all content_ok (sContent r)"
  by (auto simp: response_ToIR_def intro: anthropic_response_ok chat_response_ok responses_response_ok split: if_splits)

section \<open>The encoders keep the answer\<close>

text \<open>
  What is kept of a response: its texts, read as one; its tool calls with ids, names and arguments; the model; the
  id, if there is one; a stop for length or content; and why it stopped when that is clear.
\<close>

definition stop_clear :: "Response \<Rightarrow> bool" where
  "stop_clear r \<longleftrightarrow> sStopReason r = StopMaxTokens \<or> sStopReason r = StopContentFilter
     \<or> sStopReason r = (if tools (sContent r) = [] then StopEndTurn else StopToolUse)"

definition same_stop :: "Response \<Rightarrow> StopReason \<Rightarrow> bool" where
  "same_stop r s \<longleftrightarrow> (s = StopMaxTokens \<longleftrightarrow> sStopReason r = StopMaxTokens)
     \<and> (s = StopContentFilter \<longleftrightarrow> sStopReason r = StopContentFilter) \<and> (stop_clear r \<longrightarrow> s = sStopReason r)"

definition same_answer :: "Response \<Rightarrow> Response \<Rightarrow> bool" where
  "same_answer r r' \<longleftrightarrow> answer_text (sContent r') = answer_text (sContent r) \<and> tools (sContent r') = tools (sContent r)
     \<and> sModel r' = sModel r \<and> (sID r \<noteq> [] \<longrightarrow> sID r' = sID r) \<and> same_stop r (sStopReason r')"

lemma id_kept [simp]: "i \<noteq> [] \<Longrightarrow> fst (id_or e p k i) = i"
  by (simp add: id_or_def)

lemma args_kept: "raw_ok a \<Longrightarrow> args_or_raw (text_or_braces a) = (case a of None \<Rightarrow> JObj [] | Some j \<Rightarrow> j)"
  using json_parse_text json_text_nonempty
proof (cases a)
  case None
  have "json_parse ''{}'' = Some (JObj [])" by code_simp
  with None show ?thesis by (simp add: args_or_raw_def text_or_braces_def raw_text_def)
next
  case (Some j)
  then show "raw_ok a \<Longrightarrow> ?thesis"
    by (simp add: args_or_raw_def text_or_braces_def raw_text_def json_text_nonempty json_parse_text)
qed

subsection \<open>Anthropic\<close>

lemma anthropic_blocks_kept:
  "list_all content_ok cs \<Longrightarrow> \<exists>bs. irContentToAnthropic cs False = Inr bs \<and> (\<forall>b \<in> set bs. json_ok (enc_anthropicBlock b))
     \<and> (\<forall>i. \<exists>cs'. traverse_from i anthropicBlockToIR bs = Inr cs' \<and> texts cs' = texts cs \<and> tools cs' = tools cs)"
proof (induction cs)
  case (Cons c cs)
  then obtain bs where bs: "irContentToAnthropic cs False = Inr bs" "\<forall>b \<in> set bs. json_ok (enc_anthropicBlock b)"
    "\<forall>i. \<exists>cs'. traverse_from i anthropicBlockToIR bs = Inr cs' \<and> texts cs' = texts cs \<and> tools cs' = tools cs" by auto
  have "\<exists>b. irBlockToAnthropic False c = Inr b \<and> (case b of None \<Rightarrow> text_of c = [] \<and> tool_of c = []
      | Some x \<Rightarrow> json_ok (enc_anthropicBlock x) \<and> (\<forall>i. \<exists>c'. anthropicBlockToIR i x = Inr c' \<and> text_of c' = text_of c \<and> tool_of c' = tool_of c))"
    using Cons.prems
    by (cases c) (auto simp: no_block_def anthropicBlockToIR_def imageSourceFromIR_def toolResultFromIR_def raw_ok_def
        split: option.split json.split)
  then obtain b where b: "irBlockToAnthropic False c = Inr b" "case b of None \<Rightarrow> text_of c = [] \<and> tool_of c = []
      | Some x \<Rightarrow> json_ok (enc_anthropicBlock x) \<and> (\<forall>i. \<exists>c'. anthropicBlockToIR i x = Inr c' \<and> text_of c' = text_of c \<and> tool_of c' = tool_of c)"
    by blast
  show ?case
  proof (cases b)
    case None
    with b bs show ?thesis by simp
  next
    case (Some x)
    have "\<exists>cs'. traverse_from i anthropicBlockToIR (x # bs) = Inr cs' \<and> texts cs' = texts (c # cs) \<and> tools cs' = tools (c # cs)" for i
    proof -
      obtain c' cs' where "anthropicBlockToIR i x = Inr c'" "text_of c' = text_of c" "tool_of c' = tool_of c"
        "traverse_from (Suc i) anthropicBlockToIR bs = Inr cs'" "texts cs' = texts cs" "tools cs' = tools cs"
        using b(2) bs(3) Some by fastforce
      then show ?thesis by simp
    qed
    with b bs Some show ?thesis by auto
  qed
qed simp

lemma anthropic_stop_kept: "same_stop r (anthropicStopToIR (Some (anthropicStopFromIR (sStopReason r))))"
  by (cases "sStopReason r") (auto simp: same_stop_def stop_clear_def anthropicStopToIR_def split: if_splits)

lemma dec_counters_ok: "dec_anthropicCounters (enc_anthropicUsage a b c d) = Some (a, b, c, d)"
  by (simp add: dec_anthropicCounters_def enc_anthropicUsage_def struct_dec)

lemma dec_anthropicResponse:
  "dec_anthropicResp (anthropicResponse_json r i bs) = Some \<lparr>apID = i, apType = ''message'', apRole = ''assistant'',
     apModel = sModel r, apContent = bs, apStopReason = Some (anthropicStopFromIR (sStopReason r)),
     apUsage = (uInput (sUsage r), uOutput (sUsage r), uCacheRead (sUsage r), uCacheWrite (sUsage r))\<rparr>"
  by (simp add: dec_anthropicResp_def anthropicResponse_json_def struct_dec anthropicUsageFromIR_def dec_counters_ok)
    (simp add: enc_anthropicUsage_def)

lemma anthropic_response_trip:
  assumes "list_all content_ok (sContent r)"
  shows "\<exists>out r'. anthropicResponse_FromIR e k r = Inr out \<and> anthropicResponse_ToIR out = Inr r' \<and> same_answer r r'"
proof -
  obtain bs cs' where bs: "irContentToAnthropic (sContent r) False = Inr bs" "\<forall>b \<in> set bs. json_ok (enc_anthropicBlock b)"
    "traverse anthropicBlockToIR bs = Inr cs'" "texts cs' = texts (sContent r)" "tools cs' = tools (sContent r)"
    using anthropic_blocks_kept [OF assms] by blast
  let ?i = "fst (id_or e ''msg_'' k (sID r))"
  have "json_ok (anthropicResponse_json r ?i bs)"
    using bs(2) by (simp add: anthropicResponse_json_def anthropicUsageFromIR_def enc_anthropicUsage_def del: json_ok_anthropicBlock)
  then have u: "unmarshal dec_anthropicResp (json_text (anthropicResponse_json r ?i bs))
      = dec_anthropicResp (anthropicResponse_json r ?i bs)" by (rule unmarshal_text)
  then show ?thesis using bs anthropic_stop_kept [of r]
    by (simp add: anthropicResponse_FromIR_def anthropicResponse_ToIR_def dec_anthropicResponse same_answer_def answer_text_def)
qed

subsection \<open>Chat Completions\<close>

definition calls_of_tools :: "Content list \<Rightarrow> chatToolCall list" where
  "calls_of_tools cs = concat (map (\<lambda>c. case c of
     KindToolUse i n a \<Rightarrow> [\<lparr>ctID = i, ctType = ''function'', ctName = n, ctArguments = text_or_braces a\<rparr>] | _ \<Rightarrow> []) cs)"

definition joined :: "string option \<Rightarrow> string list \<Rightarrow> string option" where
  "joined text ts = fold (\<lambda>t x. Some (case x of None \<Rightarrow> t | Some s \<Rightarrow> s @ [CHR 10] @ t)) ts text"

lemma joined_simps [simp]:
  "joined t [] = t" "joined t (u # us) = joined (Some (case t of None \<Rightarrow> u | Some s \<Rightarrow> s @ [CHR 10] @ u)) us"
  "calls_of_tools [] = []"
  "calls_of_tools (c # cs) = (case c of KindToolUse i n a \<Rightarrow>
     [\<lparr>ctID = i, ctType = ''function'', ctName = n, ctArguments = text_or_braces a\<rparr>] | _ \<Rightarrow> []) @ calls_of_tools cs"
  by (simp_all add: joined_def calls_of_tools_def)

lemma joined_join: "joined None ts = (if ts = [] then None else Some (join [CHR 10] ts))"
proof -
  have "joined (Some s) us = Some (join [CHR 10] (s # us))" for s us
  proof (induction us arbitrary: s)
    case (Cons u us)
    then show ?case using Cons.IH [of "s @ [CHR 10] @ u"] by (cases us) simp_all
  qed simp
  then show ?thesis by (cases ts) simp_all
qed

lemma chat_collect_eq:
  "fst (chat_collect cs (t, calls, v)) = joined t (texts cs)
   \<and> fst (snd (chat_collect cs (t, calls, v))) = calls @ calls_of_tools cs"
  by (induction cs arbitrary: t calls v) (simp_all split: Content.split)

lemma calls_kept:
  "list_all content_ok cs \<Longrightarrow>
   tools (map (\<lambda>tc. KindToolUse (ctID tc) (ctName tc) (Some (args_or_raw (ctArguments tc)))) (calls_of_tools cs)) = tools cs
   \<and> (calls_of_tools cs = [] \<longleftrightarrow> tools cs = [])"
proof (induction cs)
  case (Cons c cs)
  then show ?case by (cases c) (auto simp: args_kept)
qed simp

lemma message_kept:
  assumes "list_all content_ok (sContent r)"
  shows "answer_text (chatMessage_content (chatResponse_message r)) = answer_text (sContent r)
    \<and> tools (chatMessage_content (chatResponse_message r)) = tools (sContent r)
    \<and> (csToolCalls (chatResponse_message r) = [] \<longleftrightarrow> tools (sContent r) = [])"
proof -
  obtain v where v: "chat_collect (sContent r) (None, [], None) = (joined None (texts (sContent r)), calls_of_tools (sContent r), v)"
    using chat_collect_eq [of "sContent r" None "[]" None] by (cases "chat_collect (sContent r) (None, [], None)") auto
  have quiet: "texts (map (\<lambda>t. KindThinking t [] None) ts) = []" "tools (map (\<lambda>t. KindThinking t [] None) ts) = []"
    "texts (map KindText ts) = ts" "tools (map KindText ts) = []"
    "texts (map (\<lambda>tc. KindToolUse (f tc) (g tc) (h tc)) xs) = []" for ts f g h and xs :: "chatToolCall list"
    by (induct ts; simp)+ (induct xs; simp)
  have "join [CHR 10] (nonempty_text x) = (case x of None \<Rightarrow> [] | Some t \<Rightarrow> t)" for x
    by (simp add: nonempty_text_def split: option.split)
  with calls_kept [OF assms] show ?thesis
    by (simp add: chatMessage_content_def chatResponse_message_def v quiet answer_text_def joined_join)
qed

lemma dec_enc_respMsg: "csRefusal m = None \<Longrightarrow> dec_chatRespMsg (enc_chatRespMsg m) = Some m"
  by (cases "csContent m"; cases "csReasoningContent m") (simp_all add: dec_chatRespMsg_def enc_chatRespMsg_def struct_dec)

lemma dec_chat_usage: "chatUsageFromIR u = Some j \<Longrightarrow> dec_chatUsageTyped j = Some () \<and> j \<noteq> JNull \<and> json_ok j"
  by (auto simp: chatUsageFromIR_def dec_chatUsageTyped_def struct_dec Let_def split: if_splits)

lemma dec_unix: "in_i64 n \<Longrightarrow> dec_i64 (num_int n) = Some (i64_of n)"
  by (simp add: num_int_def)

lemma dec_zero: "dec_int (num_int 0) = Some 0"
  by (rule dec_int_num) (simp add: in_i64_def)

lemma dec_chatResponse:
  assumes "in_i64 (eNow e)"
  shows "dec_chatResp (chatResponse_json e r i) = Some \<lparr>crID = i, crModel = sModel r, crChoices =
     [\<lparr>coIndex = 0, coMessage = chatResponse_message r,
       coFinishReason = Some (chatFinishFromIR (sStopReason r) (csToolCalls (chatResponse_message r) \<noteq> []))\<rparr>]\<rparr>"
proof -
  have m: "dec_chatRespMsg (enc_chatRespMsg (chatResponse_message r)) = Some (chatResponse_message r)"
    "enc_chatRespMsg (chatResponse_message r) \<noteq> JNull"
    by (rule dec_enc_respMsg) (simp_all add: chatResponse_message_def enc_chatRespMsg_def split_beta)
  show ?thesis
    by (cases "chatUsageFromIR (sUsage r)")
      (simp_all add: dec_chatResp_def chatResponse_json_def dec_chatChoice_def struct_dec Let_def m dec_chat_usage
        dec_unix [OF assms] dec_zero)
qed

lemma chat_stop_kept:
  "tools (sContent r) = [] \<longleftrightarrow> \<not> h \<Longrightarrow> same_stop r (chatFinishToIR (Some (chatFinishFromIR (sStopReason r) h)) h)"
  by (cases "sStopReason r") (auto simp: same_stop_def stop_clear_def chatFinishToIR_def split: if_splits)

lemma chatResponse_ok: "json_ok (chatResponse_json e r i)"
proof -
  have "json_ok (enc_chatRespMsg m)" for m
    by (simp add: enc_chatRespMsg_def enc_chatToolCall_def json_ok_members del: json_ok.simps(3) split: option.split)
      (auto simp: raw_ok_def split: option.splits)
  moreover have "raw_ok (chatUsageFromIR u)" for u
    using dec_chat_usage [of u] by (simp add: raw_ok_def split: option.split)
  ultimately show ?thesis
    by (simp add: chatResponse_json_def Let_def json_ok_members del: json_ok.simps(3))
qed

lemma chat_response_trip:
  assumes "list_all content_ok (sContent r)" and "in_i64 (eNow e)"
  shows "\<exists>out r'. openAIChatResponse_FromIR e k r = Inr out \<and> openAIChatResponse_ToIR out = Inr r' \<and> same_answer r r'"
proof -
  let ?i = "fst (id_or e ''chatcmpl-'' k (sID r))"
  let ?h = "csToolCalls (chatResponse_message r) \<noteq> []"
  have u: "unmarshal dec_chatResp (json_text (chatResponse_json e r ?i)) = dec_chatResp (chatResponse_json e r ?i)"
    by (rule unmarshal_text) (rule chatResponse_ok)
  have "same_stop r (chatFinishToIR (Some (chatFinishFromIR (sStopReason r) ?h)) ?h)"
    using message_kept [OF assms(1)] by (intro chat_stop_kept) simp
  with u message_kept [OF assms(1)] show ?thesis
    by (simp add: openAIChatResponse_FromIR_def openAIChatResponse_ToIR_def dec_chatResponse [OF assms(2)] same_answer_def)
qed

subsection \<open>Responses\<close>

text \<open>What the decoder makes of one item: whether it is a call, and its blocks.\<close>

definition read_item :: "json \<Rightarrow> (bool \<times> Content list) option" where
  "read_item j = (case dec_responsesItem j of None \<Rightarrow> None
     | Some it \<Rightarrow> (case responses_output_content it of Inl e \<Rightarrow> None
         | Inr cs \<Rightarrow> Some (riType it = ''function_call'', cs)))"

lemma dec_annotated: "dec_responsesPart (annotated_text t)
    = Some \<lparr>rpType = ''output_text'', rpText = t, rpImageURL = [], rpDetail = [], rpRefusal = []\<rparr>"
  by (simp add: annotated_text_def jmap_def dec_responsesPart_def struct_dec)

lemma read_message: "read_item (out_message i (map annotated_text ts)) = Some (False, map KindText ts)"
proof -
  have "those (map (\<lambda>t. dec_responsesPart (annotated_text t)) ts)
      = Some (map (\<lambda>t. \<lparr>rpType = ''output_text'', rpText = t, rpImageURL = [], rpDetail = [], rpRefusal = []\<rparr>) ts)"
    by (rule those_map_Some) (rule dec_annotated)
  moreover have "traverse_from n responsesPartToIR (map (\<lambda>t. \<lparr>rpType = ''output_text'', rpText = t, rpImageURL = [],
      rpDetail = [], rpRefusal = []\<rparr>) ts) = Inr (map KindText ts)" for n
    by (induction ts arbitrary: n) (simp_all add: responsesPartToIR_def)
  ultimately show ?thesis
    by (simp add: read_item_def out_message_def jmap_def dec_responsesItem_def struct_dec responses_output_content_def
        responsesContentToIR_def comp_def)
qed

lemma read_call: "read_item (out_call i c n a) = Some (True, [KindToolUse c n (Some (args_or_raw a))])"
  by (simp add: read_item_def out_call_def jmap_def dec_responsesItem_def struct_dec responses_output_content_def)

lemma read_reasoning: "\<exists>x. read_item (out_reasoning i t) = Some (False, [x]) \<and> text_of x = [] \<and> tool_of x = []"
  by (simp add: read_item_def out_reasoning_def jmap_def dec_responsesItem_def struct_dec responses_output_content_def)

lemma read_raw:
  assumes "dec_responsesItem j \<noteq> None" and "probe_type (Some j) = Some ''reasoning''"
  shows "\<exists>x. read_item j = Some (False, [x]) \<and> text_of x = [] \<and> tool_of x = []"
proof -
  obtain it where it: "dec_responsesItem j = Some it" using assms(1) by auto
  then have "riType it = ''reasoning''"
    using assms(2) by (auto simp: dec_responsesItem_def probe_type_def Option.bind_eq_Some_conv)
  with it show ?thesis by (simp add: read_item_def responses_output_content_def)
qed

text \<open>Items that are read as blocks with these texts and tool calls, and that print.\<close>

definition reads :: "json list \<Rightarrow> string list \<Rightarrow> (string \<times> string \<times> json) list \<Rightarrow> bool" where
  "reads js ts tls \<longleftrightarrow> (\<forall>j \<in> set js. json_ok j) \<and> (\<exists>xs. those (map read_item js) = Some xs
     \<and> texts (concat (map snd xs)) = ts \<and> tools (concat (map snd xs)) = tls \<and> (list_ex fst xs \<longleftrightarrow> tls \<noteq> []))"

lemma those_append: "those xs = Some as \<Longrightarrow> those ys = Some bs \<Longrightarrow> those (xs @ ys) = Some (as @ bs)"
  by (induction xs arbitrary: as) (auto split: option.splits)

lemma reads_Nil: "reads [] [] []"
  by (simp add: reads_def)

lemma reads_append:
  assumes "reads js ts tls" and "reads js' ts' tls'"
  shows "reads (js @ js') (ts @ ts') (tls @ tls')"
proof -
  obtain xs ys where "those (map read_item js) = Some xs" "texts (concat (map snd xs)) = ts" "tools (concat (map snd xs)) = tls"
    "list_ex fst xs \<longleftrightarrow> tls \<noteq> []" "those (map read_item js') = Some ys" "texts (concat (map snd ys)) = ts'"
    "tools (concat (map snd ys)) = tls'" "list_ex fst ys \<longleftrightarrow> tls' \<noteq> []"
    using assms by (auto simp: reads_def)
  with those_append assms show ?thesis
    by (auto simp: reads_def simp del: texts_simps(7,8) intro!: exI [of _ "xs @ ys"])
qed

lemma reads_one: "json_ok j \<Longrightarrow> read_item j = Some (b, cs) \<Longrightarrow> (b \<longleftrightarrow> tools cs \<noteq> []) \<Longrightarrow> reads [j] (texts cs) (tools cs)"
  by (simp add: reads_def)

lemma texts_map_KindText [simp]: "texts (map KindText ts) = ts" "tools (map KindText ts) = []"
  by (induction ts) simp_all

lemma item_oks: "json_ok (annotated_text t)" "json_ok (out_call i c n a)" "json_ok (out_reasoning i x)"
  "json_ok (out_message i (map annotated_text ts))"
  by (simp_all add: annotated_text_def out_call_def out_reasoning_def out_message_def json_ok_jmap)

lemma reads_parts: "reads (fst (flush_parts e k (map annotated_text ts))) ts []"
  using reads_one [OF item_oks(4) read_message [of _ ts]] reads_Nil by (simp add: flush_parts_def)

lemma reads_call: "raw_ok a \<Longrightarrow> reads [out_call i c n (text_or_braces a)] [] [(c, n, case a of None \<Rightarrow> JObj [] | Some j \<Rightarrow> j)]"
  using reads_one [OF item_oks(2) read_call [of i c n "text_or_braces a"]] by (simp add: args_kept)

lemma reads_quiet: "json_ok j \<Longrightarrow> \<exists>x. read_item j = Some (False, [x]) \<and> text_of x = [] \<and> tool_of x = [] \<Longrightarrow> reads [j] [] []"
  using reads_one [of j False] by fastforce

lemma reads_output:
  "list_all content_ok cs \<Longrightarrow> reads (responses_output e k (map annotated_text ts) cs) (ts @ texts cs) (tools cs)"
proof (induction cs arbitrary: k ts)
  case Nil
  then show ?case using reads_parts by simp
next
  case (Cons c cs)
  note rest = Cons.IH [of _ "[]"]
  let ?f = "flush_parts e k (map annotated_text ts)"
  show ?case
  proof (cases c)
    case (KindText t)
    with Cons.IH [of k "ts @ [t]"] Cons.prems show ?thesis by simp
  next
    case (KindThinking t s raw)
    have q: "reads [raw_or_null raw] [] []" if p: "probe_type raw = Some ''reasoning''"
    proof -
      obtain j where j: "raw = Some j" using p by (cases raw) (simp_all add: probe_type_def)
      then have "json_ok j" "dec_responsesItem j \<noteq> None" using Cons.prems KindThinking p by simp_all
      with read_raw p j show ?thesis by (simp add: raw_or_null_def) (rule reads_quiet)
    qed
    have r: "reads [out_reasoning i t] [] []" for i by (rule reads_quiet [OF item_oks(3) read_reasoning])
    from reads_append [OF reads_parts reads_append [OF q rest]] reads_append [OF reads_parts reads_append [OF r rest]]
      reads_append [OF reads_parts rest] Cons.prems KindThinking
    show ?thesis by (auto simp: split_beta)
  next
    case (KindToolUse i n a)
    from reads_append [OF reads_parts reads_append [OF reads_call rest]] Cons.prems KindToolUse
    show ?thesis by (auto simp: split_beta)
  qed (use Cons in auto)
qed

lemma read_items:
  "those (map read_item js) = Some xs \<Longrightarrow> \<exists>items. those (map dec_responsesItem js) = Some items
     \<and> (\<forall>i. traverse_from i (\<lambda>i it. wrap_err p (responses_output_content it)) items = Inr (map snd xs))
     \<and> ((\<exists>it \<in> set items. riType it = ''function_call'') \<longleftrightarrow> list_ex fst xs)"
proof (induction js arbitrary: xs)
  case (Cons j js)
  then obtain x ys where x: "read_item j = Some x" "those (map read_item js) = Some ys" "xs = x # ys"
    by (auto split: option.splits)
  obtain items where items: "those (map dec_responsesItem js) = Some items"
    "\<forall>i. traverse_from i (\<lambda>i it. wrap_err p (responses_output_content it)) items = Inr (map snd ys)"
    "(\<exists>it \<in> set items. riType it = ''function_call'') \<longleftrightarrow> list_ex fst ys" using Cons.IH [OF x(2)] by blast
  obtain it where "dec_responsesItem j = Some it" "responses_output_content it = Inr (snd x)" "fst x = (riType it = ''function_call'')"
    using x(1) by (auto simp: read_item_def split: option.splits sum.splits)
  with items x(3) show ?case by (intro exI [of _ "it # items"]) simp
qed simp

definition reason_of :: "StopReason \<Rightarrow> string option" where
  "reason_of s = (if s = StopMaxTokens then Some ''max_output_tokens'' else if s = StopContentFilter then Some ''content_filter'' else None)"

lemma dec_responsesResponse:
  assumes "those (map dec_responsesItem (responses_output e k [] (sContent r))) = Some items"
  shows "dec_responsesResp (responsesResponse_json e k r i) = Some \<lparr>rsID = i, rsModel = sModel r,
     rsStatus = fst (responsesStatusFromIR (sStopReason r)), rsOutput = items, rsIncomplete = reason_of (sStopReason r)\<rparr>"
  using assms by (cases "sStopReason r")
    (simp_all add: dec_responsesResp_def responsesResponse_json_def jmap_def struct_dec dec_reason_def reason_of_def comp_def)

lemma responses_stop_kept:
  "h \<longleftrightarrow> tools (sContent r) \<noteq> [] \<Longrightarrow>
   same_stop r (responsesStatusToIR (fst (responsesStatusFromIR (sStopReason r))) (reason_of (sStopReason r)) h)"
  by (cases "sStopReason r") (auto simp: same_stop_def stop_clear_def responsesStatusToIR_def reason_of_def split: if_splits)

lemma responsesResponse_ok:
  assumes "\<forall>j \<in> set (responses_output e k [] (sContent r)). json_ok j"
  shows "json_ok (responsesResponse_json e k r i)"
proof -
  have "json_ok (snd (responsesStatusFromIR s))" for s by (cases s) simp_all
  moreover have "json_ok (responsesUsageFromIR u)" for u by (simp add: responsesUsageFromIR_def json_ok_jmap Let_def)
  ultimately show ?thesis using assms by (simp add: responsesResponse_json_def json_ok_jmap split_beta)
qed

lemma responses_response_trip:
  assumes "list_all content_ok (sContent r)"
  shows "\<exists>out r'. openAIResponsesResponse_FromIR e k r = Inr out \<and> openAIResponsesResponse_ToIR out = Inr r' \<and> same_answer r r'"
proof -
  obtain i k1 where id: "id_or e ''resp_'' k (sID r) = (i, k1)" by fastforce
  let ?p = "''openai responses response: ''"
  obtain xs where xs: "\<forall>j \<in> set (responses_output e k1 [] (sContent r)). json_ok j"
    "those (map read_item (responses_output e k1 [] (sContent r))) = Some xs" "texts (concat (map snd xs)) = texts (sContent r)"
    "tools (concat (map snd xs)) = tools (sContent r)" "list_ex fst xs \<longleftrightarrow> tools (sContent r) \<noteq> []"
    using reads_output [OF assms, of e k1 "[]"] by (auto simp: reads_def)
  obtain items where items: "those (map dec_responsesItem (responses_output e k1 [] (sContent r))) = Some items"
    "traverse (\<lambda>i it. wrap_err ?p (responses_output_content it)) items = Inr (map snd xs)"
    "(\<exists>it \<in> set items. riType it = ''function_call'') \<longleftrightarrow> list_ex fst xs"
    using read_items [OF xs(2), of ?p] by blast
  have u: "unmarshal dec_responsesResp (json_text (responsesResponse_json e k1 r i))
      = dec_responsesResp (responsesResponse_json e k1 r i)"
    by (rule unmarshal_text) (rule responsesResponse_ok [OF xs(1)])
  have "sID r \<noteq> [] \<Longrightarrow> i = sID r" using id by (simp add: id_or_def)
  with u xs(3,4,5) items(2,3) responses_stop_kept [of "list_ex fst xs" r] show ?thesis
    by (simp add: openAIResponsesResponse_FromIR_def openAIResponsesResponse_ToIR_def id dec_responsesResponse [OF items(1)]
        same_answer_def answer_text_def del: texts_simps(7,8))
qed

section \<open>Translated responses\<close>

lemma response_trip:
  assumes "list_all content_ok (sContent r)" and "in_i64 (eNow e)" and "has_codec p"
  shows "\<exists>out r'. response_FromIR p e k r = Inr out \<and> response_ToIR p out = Inr r' \<and> same_answer r r'"
  using assms(3) anthropic_response_trip [OF assms(1), of e k] chat_response_trip [OF assms(1,2), of k]
    responses_response_trip [OF assms(1), of e k]
  by (auto simp: has_codec_def response_FromIR_def response_ToIR_def Anthropic_def OpenAIChat_def OpenAIResponses_def)

text \<open>C8: a translated response answers what the provider answered: whenever the provider's body can be read, the
  translation succeeds, and what a client of its own protocol reads in the result has the same text, the same tool
  calls in the same order with ids, names and arguments, the same model and id; it stopped for length or content
  exactly when the provider did, and for tools or the end of the turn as the provider says where its calls
  agree; in every direction.\<close>

theorem translated_response_keeps_answer:
  assumes "New_translator from to opts = Inr t" and "response_ToIR to body = Inr r" and "in_i64 (eNow e)"
  shows "\<exists>out r'. Translate_Response t e k body = Inr out \<and> response_ToIR from out = Inr r' \<and> same_answer r r'"
proof -
  have t: "trFrom t = from" "trTo t = to" "has_codec from"
    using assms(1) by (auto simp: New_translator_def Supported_def split: if_splits)
  from response_trip [OF decoded_ok [OF assms(2)] assms(3) t(3)] show ?thesis
    by (simp add: Translate_Response_def t assms(2))
qed

definition sample_chat_body :: json where
  "sample_chat_body = JObj [(''model'', JStr ''m''), (''choices'', JArr [JObj
     [(''message'', JObj [(''content'', JStr ''hi''), (''tool_calls'', JArr [JObj [(''id'', JStr ''c1''),
        (''function'', JObj [(''name'', JStr ''f''), (''arguments'', JStr ''{}'')])]])]),
      (''finish_reason'', JStr ''length'')]])]"

lemma sample_chat_read:
  "\<exists>r. response_ToIR OpenAIChat (json_text sample_chat_body) = Inr r \<and> answer_text (sContent r) = ''hi''
     \<and> tools (sContent r) = [(''c1'', ''f'', JObj [])] \<and> sStopReason r = StopMaxTokens"
proof -
  have "json_parse ''{}'' = Some (JObj [])" by code_simp
  then show ?thesis
    by (simp add: response_ToIR_def openAIChatResponse_ToIR_def sample_chat_body_def OpenAIChat_def Anthropic_def dec_chatResp_def
        dec_chatChoice_def dec_chatRespMsg_def dec_chatToolCall_def struct_dec json_dec chatMessage_content_def nonempty_text_def
        answer_text_def args_or_raw_def chatFinishToIR_def no_respMsg_def)
qed

lemma translated_response_keeps_answer_witness:
  "\<exists>out r'. Translate_Response \<lparr>trFrom = Anthropic, trTo = OpenAIChat, trOpts = \<lparr>oDefaultMaxTokens = 1, oTargetIsBedrock = False\<rparr>\<rparr>
       \<lparr>eRand = \<lambda>k. [], eNow = 0\<rparr> 0 (json_text sample_chat_body) = Inr out
     \<and> response_ToIR Anthropic out = Inr r' \<and> answer_text (sContent r') = ''hi'' \<and> sStopReason r' = StopMaxTokens"
proof -
  obtain r where r: "response_ToIR OpenAIChat (json_text sample_chat_body) = Inr r" "answer_text (sContent r) = ''hi''"
    "sStopReason r = StopMaxTokens" using sample_chat_read by blast
  have t: "New_translator Anthropic OpenAIChat \<lparr>oDefaultMaxTokens = 1, oTargetIsBedrock = False\<rparr>
      = Inr \<lparr>trFrom = Anthropic, trTo = OpenAIChat, trOpts = \<lparr>oDefaultMaxTokens = 1, oTargetIsBedrock = False\<rparr>\<rparr>"
    by (simp add: New_translator_def Supported_def Valid_def has_codec_def Anthropic_def OpenAIChat_def)
  from translated_response_keeps_answer [OF t r(1), of "\<lparr>eRand = \<lambda>k. [], eNow = 0\<rparr>" 0] r(2,3) show ?thesis
    by (auto simp: same_answer_def same_stop_def in_i64_def)
qed

end
