(* ===== verification/RequestProps.thy ===== *)
theory RequestProps
  imports ResponseProps
begin

text \<open>
  What a request keeps when it is written for the Responses API: who said what in which order, the tool calls and
  their results, the tools and the parameters.
\<close>

section \<open>Conversations\<close>

text \<open>What was said, with its role, and the tool calls and results as this API carries them.\<close>

definition talk_of :: "Message \<Rightarrow> (Role \<times> string) list" where
  "talk_of m = map (Pair (mRole m)) (texts (mContent m))"

definition talk :: "Message list \<Rightarrow> (Role \<times> string) list" where
  "talk ms = concat (map talk_of ms)"

fun tool_events :: "Content \<Rightarrow> tool_event list" where
  "tool_events (KindToolUse i n a) = [Called i n (case a of None \<Rightarrow> JObj [] | Some j \<Rightarrow> j)]"
| "tool_events (KindToolResult i r e) = [Answered i (toolResultString r e)]"
| "tool_events _ = []"

definition work :: "Message list \<Rightarrow> tool_event list" where
  "work ms = concat (map (\<lambda>m. concat (map tool_events (mContent m))) ms)"

lemma talk_simps [simp]:
  "talk [] = []" "talk (m # ms) = talk_of m @ talk ms" "talk (ms @ ns) = talk ms @ talk ns"
  "work [] = []" "work (m # ms) = concat (map tool_events (mContent m)) @ work ms" "work (ms @ ns) = work ms @ work ns"
  by (simp_all add: talk_def work_def)

lemma append_assistant [simp]:
  "talk (appendAssistant ms cs) = talk ms @ map (Pair RoleAssistant) (texts cs)"
  "work (appendAssistant ms cs) = work ms @ concat (map tool_events cs)"
  by (cases ms rule: rev_cases; simp add: appendAssistant_def talk_of_def)+

text \<open>Items that print and are read as these additions to the conversation.\<close>

definition adds :: "json list \<Rightarrow> (Role \<times> string) list \<Rightarrow> tool_event list \<Rightarrow> bool" where
  "adds js x y \<longleftrightarrow> (\<forall>j \<in> set js. json_ok j) \<and> (\<exists>its. those (map dec_responsesItem js) = Some its
     \<and> (\<forall>i ms. \<exists>ms'. responses_items_in i its ms = Inr ms' \<and> talk ms' = talk ms @ x \<and> work ms' = work ms @ y))"

lemma adds_Nil: "adds [] [] []"
  by (simp add: adds_def)

lemma items_in_append:
  "responses_items_in i (as @ bs) ms = rbind (responses_items_in i as ms) (responses_items_in (i + length as) bs)"
proof (induction as arbitrary: i ms)
  case (Cons a as)
  then show ?case by (cases "responses_item_in i a ms") simp_all
qed simp

lemma adds_append:
  assumes "adds js x y" and "adds js' x' y'"
  shows "adds (js @ js') (x @ x') (y @ y')"
proof -
  obtain as bs where as: "those (map dec_responsesItem js) = Some as"
    "\<forall>i ms. \<exists>ms'. responses_items_in i as ms = Inr ms' \<and> talk ms' = talk ms @ x \<and> work ms' = work ms @ y"
    and bs: "those (map dec_responsesItem js') = Some bs"
    "\<forall>i ms. \<exists>ms'. responses_items_in i bs ms = Inr ms' \<and> talk ms' = talk ms @ x' \<and> work ms' = work ms @ y'"
    using assms by (auto simp: adds_def)
  have "\<exists>ms'. responses_items_in i (as @ bs) ms = Inr ms' \<and> talk ms' = talk ms @ x @ x' \<and> work ms' = work ms @ y @ y'" for i ms
  proof -
    obtain ms1 where "responses_items_in i as ms = Inr ms1" "talk ms1 = talk ms @ x" "work ms1 = work ms @ y"
      using as(2) by blast
    moreover obtain ms2 where "responses_items_in (i + length as) bs ms1 = Inr ms2" "talk ms2 = talk ms1 @ x'"
      "work ms2 = work ms1 @ y'" using bs(2) by blast
    ultimately show ?thesis by (simp add: items_in_append)
  qed
  with assms those_append [OF as(1) bs(1)] show ?thesis by (auto simp: adds_def)
qed

lemma adds_one:
  assumes "json_ok j" and "dec_responsesItem j = Some it"
    and "\<And>i ms. \<exists>ms'. responses_item_in i it ms = Inr ms' \<and> talk ms' = talk ms @ x \<and> work ms' = work ms @ y"
  shows "adds [j] x y"
proof -
  have "\<exists>ms'. responses_items_in i [it] ms = Inr ms' \<and> talk ms' = talk ms @ x \<and> work ms' = work ms @ y" for i ms
    using assms(3) [of i ms] by auto
  with assms(1,2) show ?thesis by (auto simp: adds_def)
qed

section \<open>Messages\<close>

text \<open>Parts of a message that print and are read as blocks with these texts, without tools.\<close>

definition part_texts :: "json list \<Rightarrow> string list \<Rightarrow> bool" where
  "part_texts js ts \<longleftrightarrow> (\<forall>j \<in> set js. json_ok j) \<and> (\<exists>ps. those (map dec_responsesPart js) = Some ps
     \<and> (\<forall>i. \<exists>cs. traverse_from i responsesPartToIR ps = Inr cs \<and> texts cs = ts \<and> concat (map tool_events cs) = []))"

lemma part_texts_Nil: "part_texts [] ts = (ts = [])"
  by (auto simp: part_texts_def)

lemma part_texts_Cons:
  assumes "json_ok j" and "dec_responsesPart j = Some p" and "\<And>i. responsesPartToIR i p = Inr c"
    and "tool_events c = []" and "part_texts js ts"
  shows "part_texts (j # js) (text_of c @ ts)"
proof -
  obtain ps where ps: "those (map dec_responsesPart js) = Some ps" "\<forall>i. \<exists>cs. traverse_from i responsesPartToIR ps = Inr cs
      \<and> texts cs = ts \<and> concat (map tool_events cs) = []" using assms(5) by (auto simp: part_texts_def)
  have "\<exists>cs. traverse_from i responsesPartToIR (p # ps) = Inr cs \<and> texts cs = text_of c @ ts
      \<and> concat (map tool_events cs) = []" for i
  proof -
    obtain cs where "traverse_from (Suc i) responsesPartToIR ps = Inr cs" "texts cs = ts" "concat (map tool_events cs) = []"
      using ps(2) by blast
    with assms(3,4) show ?thesis by simp
  qed
  with assms ps(1) show ?thesis by (auto simp: part_texts_def)
qed

lemma dec_typed_text: "dec_responsesPart (typed_text t x)
   = Some \<lparr>rpType = t, rpText = x, rpImageURL = [], rpDetail = [], rpRefusal = []\<rparr>" "json_ok (typed_text t x)"
  by (simp_all add: typed_text_def jmap_def dec_responsesPart_def struct_dec)

lemma dec_image_part: "dec_responsesPart (jmap [(''type'', JStr ''input_image''), (''image_url'', JStr u)])
   = Some \<lparr>rpType = ''input_image'', rpText = [], rpImageURL = u, rpDetail = [], rpRefusal = []\<rparr>"
  by (simp add: jmap_def dec_responsesPart_def struct_dec)

lemma part_texts_typed:
  assumes "t \<in> {''input_text'', ''output_text''}" and "part_texts js ts"
  shows "part_texts (typed_text t x # js) (x # ts)"
proof -
  have "responsesPartToIR i \<lparr>rpType = t, rpText = x, rpImageURL = [], rpDetail = [], rpRefusal = []\<rparr> = Inr (KindText x)" for i
    using assms(1) by (auto simp: responsesPartToIR_def)
  from part_texts_Cons [OF dec_typed_text(2) dec_typed_text(1) this _ assms(2)] show ?thesis by simp
qed

lemma user_parts: "part_texts (concat (map user_part cs)) (texts cs)"
proof (induction cs)
  case (Cons c cs)
  show ?case
  proof (cases c)
    case (KindImage m d u)
    let ?u = "imageDataURL m d u"
    obtain c' where "\<And>i. responsesPartToIR i \<lparr>rpType = ''input_image'', rpText = [], rpImageURL = ?u, rpDetail = [], rpRefusal = []\<rparr>
        = Inr c'" "text_of c' = []" "tool_events c' = []"
      by (cases "parseDataURL ?u") (auto simp: responsesPartToIR_def split: prod.splits)
    from part_texts_Cons [OF _ dec_image_part this(1,3) Cons.IH] this(2) KindImage show ?thesis
      by (simp add: json_ok_jmap)
  qed (use Cons in \<open>simp_all add: part_texts_typed\<close>)
qed (simp add: part_texts_Nil)

lemma system_parts: "part_texts (concat (map system_part cs)) (texts cs)"
proof (induction cs)
  case (Cons c cs)
  then show ?case by (cases c) (simp_all add: part_texts_typed)
qed (simp add: part_texts_Nil)

lemma output_parts: "part_texts (map (typed_text ''output_text'') ts) ts"
  by (induction ts) (simp_all add: part_texts_typed part_texts_Nil)

lemma dec_message: "dec_responsesItem (message_item role js) = Some \<lparr>riType = ''message'', riID = [], riRole = role,
   riContent = Some (JArr js), riCallID = [], riName = [], riArguments = [], riOutput = None, riEncryptedContent = [],
   riSummary = None, riStatus = [], riRaw = message_item role js\<rparr>"
  by (simp add: message_item_def jmap_def dec_responsesItem_def struct_dec)

definition role_names :: "(string \<times> Role) list" where
  "role_names = [(''developer'', RoleSystem), (''user'', RoleUser), (''assistant'', RoleAssistant)]"

lemma message_adds:
  assumes "part_texts js ts" and "(role, R) \<in> set role_names"
  shows "adds (message_items role js) (map (Pair R) ts) []"
proof (cases "js = []")
  case True
  with assms(1) show ?thesis by (simp add: message_items_def part_texts_Nil adds_Nil)
next
  case False
  obtain ps cs where ps: "those (map dec_responsesPart js) = Some ps" "traverse responsesPartToIR ps = Inr cs"
    "texts cs = ts" "concat (map tool_events cs) = []" "\<forall>j \<in> set js. json_ok j"
    using assms(1) unfolding part_texts_def by blast
  have "adds [message_item role js] (map (Pair R) ts) []"
  proof (rule adds_one [OF _ dec_message])
    show "json_ok (message_item role js)" using ps(5) by (simp add: message_item_def json_ok_jmap)
  qed (use assms(2) ps in \<open>auto simp: role_names_def responses_item_in_def responsesContentToIR_def talk_of_def\<close>)
  with False show ?thesis by (simp add: message_items_def)
qed

section \<open>Tool calls, results and reasoning\<close>

lemma call_adds: "raw_ok a \<Longrightarrow> adds [call_item i n a] [] (tool_events (KindToolUse i n a))"
  by (rule adds_one [of _ "\<lparr>riType = ''function_call'', riID = [], riRole = [], riContent = None, riCallID = i, riName = n,
      riArguments = text_or_braces a, riOutput = None, riEncryptedContent = [], riSummary = None, riStatus = [],
      riRaw = call_item i n a\<rparr>"])
    (auto simp: call_item_def json_ok_jmap jmap_def dec_responsesItem_def struct_dec responses_item_in_def)

lemma output_adds: "adds [output_item i r e] [] (tool_events (KindToolResult i r e))"
  by (rule adds_one [of _ "\<lparr>riType = ''function_call_output'', riID = [], riRole = [], riContent = None, riCallID = i, riName = [],
      riArguments = [], riOutput = Some (JStr (toolResultString r e)), riEncryptedContent = [], riSummary = None, riStatus = [],
      riRaw = output_item i r e\<rparr>"])
    (auto simp: output_item_def json_ok_jmap jmap_def dec_responsesItem_def struct_dec responses_item_in_def
      responsesOutputToIR_def talk_of_def toolResultString_def error_prefixed_def split: option.split json.split)

lemma reasoning_adds:
  assumes "json_ok j" and "dec_responsesItem j \<noteq> None" and "probe_type (Some j) = Some ''reasoning''"
  shows "adds [j] [] []"
proof -
  obtain it where it: "dec_responsesItem j = Some it" using assms(2) by auto
  then have "riType it = ''reasoning''"
    using assms(3) by (auto simp: dec_responsesItem_def probe_type_def Option.bind_eq_Some_conv)
  then show ?thesis by (intro adds_one [OF assms(1) it]) (simp add: responses_item_in_def)
qed

section \<open>Every message\<close>

text \<open>A block this API carries in a message of this role: results come from the user or the tool, calls from the assistant.\<close>

fun carried :: "Role \<Rightarrow> Content \<Rightarrow> bool" where
  "carried R (KindToolUse i n a) \<longleftrightarrow> R = RoleAssistant"
| "carried R (KindToolResult i r e) \<longleftrightarrow> R = RoleUser \<or> R = RoleTool"
| "carried R (KindText t) \<longleftrightarrow> R \<noteq> RoleTool"
| "carried R _ \<longleftrightarrow> True"

definition message_ok :: "Message \<Rightarrow> bool" where
  "message_ok m \<longleftrightarrow> list_all (\<lambda>c. carried (mRole m) c \<and> content_ok c) (mContent m)"

lemma results_add:
  "list_all (carried R) cs \<Longrightarrow> R \<noteq> RoleAssistant \<Longrightarrow> adds (concat (map tool_output cs)) [] (concat (map tool_events cs))"
proof (induction cs)
  case (Cons c cs)
  show ?case
  proof (cases c)
    case (KindToolResult i r e)
    with adds_append [OF output_adds Cons.IH] Cons.prems show ?thesis by simp
  qed (use Cons in simp_all)
qed (simp add: adds_Nil)

lemma assistant_add:
  "list_all (\<lambda>c. carried RoleAssistant c \<and> content_ok c) cs \<Longrightarrow>
   adds (assistant_items (map (typed_text ''output_text'') ts) cs) (map (Pair RoleAssistant) (ts @ texts cs))
     (concat (map tool_events cs))"
proof (induction cs arbitrary: ts)
  case Nil
  from message_adds [OF output_parts, of "''assistant''" RoleAssistant ts] show ?case by (simp add: role_names_def)
next
  case (Cons c cs)
  have flush: "adds (message_items ''assistant'' (map (typed_text ''output_text'') ts)) (map (Pair RoleAssistant) ts) []"
    by (rule message_adds [OF output_parts]) (simp add: role_names_def)
  have rest: "adds (assistant_items [] cs) (map (Pair RoleAssistant) (texts cs)) (concat (map tool_events cs))"
    using Cons.IH [of "[]"] Cons.prems by simp
  show ?case
  proof (cases c)
    case (KindText t)
    with Cons.IH [of "ts @ [t]"] Cons.prems show ?thesis by simp
  next
    case (KindThinking t s raw)
    have "adds [raw_or_null raw] [] []" if p: "probe_type raw = Some ''reasoning''"
    proof -
      obtain j where j: "raw = Some j" using p by (cases raw) (simp_all add: probe_type_def)
      with Cons.prems KindThinking p reasoning_adds [of j] show ?thesis by (simp add: raw_or_null_def)
    qed
    from adds_append [OF flush adds_append [OF this rest]] adds_append [OF flush rest] KindThinking show ?thesis by simp
  next
    case (KindToolUse i n a)
    with Cons.prems adds_append [OF flush adds_append [OF call_adds rest]] show ?thesis by simp
  qed (use Cons in simp_all)
qed

lemma carried_quiet: "carried RoleTool c \<Longrightarrow> text_of c = []" "carried RoleSystem c \<Longrightarrow> tool_events c = []"
  by (cases c; simp)+

lemma message_add: "message_ok m \<Longrightarrow> adds (irMessageToResponses m) (talk_of m) (concat (map tool_events (mContent m)))"
proof -
  assume m: "message_ok m"
  then have c: "list_all (carried (mRole m)) (mContent m)" by (auto simp: message_ok_def list_all_iff)
  have none: "texts cs = []" if "list_all (carried RoleTool) cs" for cs
    using that carried_quiet(1) by (auto simp: texts_def list_all_iff)
  have quiet: "concat (map tool_events cs) = []" if "list_all (carried RoleSystem) cs" for cs
    using that carried_quiet(2) by (auto simp: list_all_iff)
  show ?thesis
  proof (cases "mRole m")
    case RoleSystem
    with message_adds [OF system_parts, of "''developer''" RoleSystem "mContent m"] quiet [of "mContent m"] c
    show ?thesis by (simp add: irMessageToResponses_def talk_of_def role_names_def del: concat_eq_Nil_conv)
  next
    case RoleUser
    with adds_append [OF results_add [OF c] message_adds [OF user_parts, of "''user''" RoleUser]]
    show ?thesis by (simp add: irMessageToResponses_def talk_of_def role_names_def)
  next
    case RoleAssistant
    with assistant_add [of "mContent m" "[]"] m show ?thesis
      by (simp add: irMessageToResponses_def talk_of_def message_ok_def)
  next
    case RoleTool
    with results_add [OF c] none [of "mContent m"] c show ?thesis by (simp add: irMessageToResponses_def talk_of_def)
  qed
qed

lemma messages_add: "list_all message_ok ms \<Longrightarrow> adds (concat (map irMessageToResponses ms)) (talk ms) (work ms)"
  by (induction ms) (simp_all add: adds_Nil adds_append message_add)

section \<open>Sorted members\<close>

text \<open>Sorting the members of a map does not change what its fields hold, when no two names agree.\<close>

abbreviation lowered :: "(string \<times> json) list \<Rightarrow> string list" where
  "lowered fs \<equiv> map (\<lambda>p. to_lower (fst p)) fs"

lemma jget_member: "distinct (lowered fs) \<Longrightarrow> jget k fs = Some v \<longleftrightarrow> (\<exists>n. (n, v) \<in> set fs \<and> to_lower n = k)"
proof (induction fs arbitrary: v)
  case (Cons p fs)
  obtain n x where p: "p = (n, x)" by fastforce
  show ?case
  proof (cases "to_lower n = k")
    case True
    with Cons.prems p have "jget k fs = None"
      by (cases "jget k fs") (use Cons in \<open>auto simp: image_iff\<close>)
    with True Cons.prems p show ?thesis by (auto simp: jget_parts image_iff)
  qed (use Cons p in \<open>auto simp: jget_parts\<close>)
qed (simp add: jget_parts)

lemma lowered_sort: "distinct (lowered fs) \<Longrightarrow> distinct (lowered (sort_key fst fs))"
  by (simp add: distinct_map)

lemma jget_sort: "distinct (lowered fs) \<Longrightarrow> jget k (sort_key fst fs) = jget k fs"
proof -
  assume d: "distinct (lowered fs)"
  have "jget k (sort_key fst fs) = Some v \<longleftrightarrow> jget k fs = Some v" for v
    by (simp add: jget_member [OF d] jget_member [OF lowered_sort [OF d]])
  then show ?thesis by (cases "jget k fs"; cases "jget k (sort_key fst fs)") auto
qed

lemma jget_sort_non_null:
  assumes "distinct (lowered fs)"
  shows "jget k (non_null (sort_key fst fs)) = jget k (non_null fs)"
proof -
  have "non_null (sort_key fst fs) = sort_key fst (non_null fs)" by (simp add: non_null_def filter_sort)
  moreover have "distinct (lowered (non_null fs))"
    using assms by (simp add: non_null_def distinct_map inj_on_def)
  ultimately show ?thesis by (simp add: jget_sort)
qed

text \<open>The names of members, the optional ones included, that keep them apart.\<close>

definition named_apart :: "string list \<Rightarrow> (string \<times> json) list \<Rightarrow> bool" where
  "named_apart ks fs \<longleftrightarrow> distinct (lowered fs) \<and> set (lowered fs) \<subseteq> set ks"

lemma named_apart_simps:
  "named_apart ks []"
  "to_lower n = k \<Longrightarrow> k \<notin> set ks \<Longrightarrow> named_apart ks fs \<Longrightarrow> named_apart (k # ks) ((n, v) # fs)"
  "to_lower n = k \<Longrightarrow> k \<notin> set ks \<Longrightarrow> named_apart ks fs \<Longrightarrow> named_apart (k # ks) (opt_json n r @ fs)"
  "to_lower n = k \<Longrightarrow> k \<notin> set ks \<Longrightarrow> named_apart ks fs \<Longrightarrow> named_apart (k # ks) (opt_true n b @ fs)"
  "to_lower n = k \<Longrightarrow> k \<notin> set ks \<Longrightarrow> named_apart ks fs \<Longrightarrow> named_apart (k # ks) (opt_list n xs @ fs)"
  by (auto simp: named_apart_def opt_json_def opt_true_def opt_list_def split: option.split)

section \<open>The whole request\<close>

definition request_members :: "Request \<Rightarrow> string \<Rightarrow> (string \<times> json) list" where
  "request_members r pm =
     (''model'', JStr pm) # (''store'', JBool False) # opt_true ''stream'' (rStream r)
     @ opt_json ''max_output_tokens'' (map_option num64 (positive_tokens (rMaxTokens r)))
     @ opt_json ''temperature'' (map_option JNum (rTemperature r))
     @ opt_json ''top_p'' (map_option JNum (rTopP r))
     @ opt_json ''parallel_tool_calls'' (map_option JBool (rParallelToolCalls r))
     @ opt_json ''instructions'' (if rSystem r = [] then None else Some (JStr (joinText (rSystem r))))
     @ opt_json ''text'' (map_option (\<lambda>f. JObj [(''format'', f)]) (rResponseFormat r))
     @ (''input'', JArr (concat (map irMessageToResponses (rMessages r))))
     # opt_list ''tools'' (map responsesToolFromIR (rTools r))
     @ opt_json ''tool_choice'' (responsesChoiceFromIR (tcMode (rToolChoice r)) (tcName (rToolChoice r))) @ []"

lemma request_members: "openAIResponsesRequest_json r pm = jmap (request_members r pm)"
  by (simp add: openAIResponsesRequest_json_def request_members_def opt_json_def)

lemma request_members_apart: "distinct (lowered (request_members r pm))"
proof -
  have "named_apart [''model'', ''store'', ''stream'', ''max_output_tokens'', ''temperature'', ''top_p'',
      ''parallel_tool_calls'', ''instructions'', ''text'', ''input'', ''tools'', ''tool_choice''] (request_members r pm)"
    unfolding request_members_def by (simp add: named_apart_simps del: append_Nil2)
  then show ?thesis by (simp add: named_apart_def)
qed

lemma those_map_id [simp]: "those (map Some xs) = Some xs"
  by (induction xs) simp_all

lemma dec_request:
  "dec_responsesReq (openAIResponsesRequest_json r pm) = Some \<lparr>sqModel = pm,
     sqInstructions = (if rSystem r = [] then [] else joinText (rSystem r)),
     sqInput = Some (JArr (concat (map irMessageToResponses (rMessages r)))), sqTools = map responsesToolFromIR (rTools r),
     sqToolChoice = responsesChoiceFromIR (tcMode (rToolChoice r)) (tcName (rToolChoice r)),
     sqParallelToolCalls = rParallelToolCalls r, sqMaxOutputTokens = positive_tokens (rMaxTokens r),
     sqTemperature = rTemperature r, sqTopP = rTopP r, sqStream = rStream r, sqStore = Some False, sqPreviousResponseID = [],
     sqText = map_option (\<lambda>f. JObj [(''format'', f)]) (rResponseFormat r), sqInclude = []\<rparr>"
proof -
  let ?fs = "sort_key fst (request_members r pm)"
  note get = get_val_def get_ptr_def get_slice_def jget_sort [OF request_members_apart]
    jget_sort_non_null [OF request_members_apart]
  note fields = request_members_def struct_dec
  have strs: "get_str ''model'' ?fs = Some pm"
    "get_str ''instructions'' ?fs = Some (if rSystem r = [] then [] else joinText (rSystem r))"
    "get_str ''previous_response_id'' ?fs = Some []" "get_slice dec_str ''include'' ?fs = Some []"
    unfolding get by (simp_all add: fields)
  have flags: "get_bool ''stream'' ?fs = Some (rStream r)" "get_ptr dec_bool ''store'' ?fs = Some (Some False)"
    unfolding get by (simp_all add: fields)
  have par: "get_ptr dec_bool ''parallel_tool_calls'' ?fs = Some (rParallelToolCalls r)"
    unfolding get by (cases "rParallelToolCalls r"; simp add: fields)
  have max: "get_ptr dec_i64 ''max_output_tokens'' ?fs = Some (positive_tokens (rMaxTokens r))"
    unfolding get by (cases "positive_tokens (rMaxTokens r)"; simp add: fields)
  have te: "get_ptr dec_num ''temperature'' ?fs = Some (rTemperature r)"
    unfolding get by (cases "rTemperature r"; simp add: fields)
  have tp: "get_ptr dec_num ''top_p'' ?fs = Some (rTopP r)"
    unfolding get by (cases "rTopP r"; simp add: fields)
  have raws: "get_slice Some ''tools'' ?fs = Some (map responsesToolFromIR (rTools r))"
    "get_raw ''input'' ?fs = Some (JArr (concat (map irMessageToResponses (rMessages r))))"
    "get_raw ''tool_choice'' ?fs = responsesChoiceFromIR (tcMode (rToolChoice r)) (tcName (rToolChoice r))"
    "get_raw ''text'' ?fs = map_option (\<lambda>f. JObj [(''format'', f)]) (rResponseFormat r)"
    unfolding get by (simp_all add: fields)
  show ?thesis by (simp add: dec_responsesReq_def request_members jmap_def strs flags par max te tp raws)
qed

lemma tools_trip: "responses_tools_in (map responsesToolFromIR ts) = map schema_or_empty ts"
proof -
  have "dec_toolDef (responsesToolFromIR t) = Some (ToolDef ''function'' (tName t) (tDescription t)
      (Some (case tSchema t of None \<Rightarrow> empty_object_schema | Some j \<Rightarrow> j)) [])" for t
    by (simp add: responsesToolFromIR_def jmap_def struct_dec)
  then show ?thesis by (induction ts) (simp_all add: responses_tools_in_def schema_or_empty_def)
qed

lemma responses_choice_trip:
  "responsesChoiceToIR (responsesChoiceFromIR m n) = chat_choice_norm m n \<and> raw_ok (responsesChoiceFromIR m n)"
  by (cases m) (simp_all add: responsesChoiceToIR_def choice_word_def jmap_def json_dec)

text \<open>A request this API can carry: blocks in messages that may hold them, raw JSON that prints.\<close>

definition request_ok :: "Request \<Rightarrow> bool" where
  "request_ok r \<longleftrightarrow> list_all message_ok (rMessages r) \<and> list_all (\<lambda>t. raw_ok (tSchema t)) (rTools r)
     \<and> raw_ok (rResponseFormat r) \<and> rResponseFormat r \<noteq> Some JNull
     \<and> pred_option num_ok (rTemperature r) \<and> pred_option num_ok (rTopP r)"

lemma request_json_ok:
  assumes "request_ok r" and "\<forall>j \<in> set (concat (map irMessageToResponses (rMessages r))). json_ok j"
  shows "json_ok (openAIResponsesRequest_json r pm)"
proof -
  have plain: "raw_ok (map_option JBool b)" "raw_ok (map_option num64 n)" for b n by (cases b; cases n; simp)+
  have num: "raw_ok (map_option JNum x)" if "pred_option num_ok x" for x using that by (cases x) simp_all
  have fmt: "raw_ok (map_option (\<lambda>f. JObj [(''format'', f)]) x)" if "raw_ok x" for x using that by (cases x) simp_all
  have tool: "json_ok (responsesToolFromIR t)" if "raw_ok (tSchema t)" for t
    using that by (cases "tSchema t") (simp_all add: responsesToolFromIR_def json_ok_jmap empty_object_schema_def)
  show ?thesis using assms
    by (simp add: request_members json_ok_jmap request_members_def plain num fmt tool request_ok_def list_all_iff
        responses_choice_trip)
qed

text \<open>C9: a request written for the Responses API says the same conversation. It always reads back, with the
  provider's model; every text with the role that said it, in order; every tool call with its id, name and arguments,
  and every result with the id of its call and its text (an error marked as such), in order and none lost, whatever
  reasoning, images or empty messages come between; the system prompt as one text; the tools with their schemas and the
  choice among them; the limits, the sampling parameters, streaming and the response format. Of the parameters only the
  stop sequences, which this API does not have, are dropped; of reasoning and of images nothing is stated.\<close>

theorem responses_request_keeps_conversation:
  assumes "openAIResponsesRequest_FromIR r pm opts = Inr out" and "pm \<noteq> []" and "request_ok r"
  shows "\<exists>q. openAIResponsesRequest_ToIR out = Inr q \<and> rModel q = pm
    \<and> talk (rMessages q) = talk (rMessages r) \<and> work (rMessages q) = work (rMessages r)
    \<and> rSystem q = (if joinText (rSystem r) = [] then [] else [KindText (joinText (rSystem r))])
    \<and> rTools q = map schema_or_empty (rTools r)
    \<and> rToolChoice q = chat_choice_norm (tcMode (rToolChoice r)) (tcName (rToolChoice r))
    \<and> rMaxTokens q = positive_tokens (rMaxTokens r) \<and> rParallelToolCalls q = rParallelToolCalls r
    \<and> rTemperature q = rTemperature r \<and> rTopP q = rTopP r \<and> rStop q = [] \<and> rStream q = rStream r
    \<and> rResponseFormat q = rResponseFormat r"
proof -
  let ?items = "concat (map irMessageToResponses (rMessages r))"
  have "list_all message_ok (rMessages r)" using assms(3) by (simp add: request_ok_def)
  from messages_add [OF this] obtain its ms where items: "\<forall>j \<in> set ?items. json_ok j"
      "those (map dec_responsesItem ?items) = Some its" "responses_items_in 0 its [] = Inr ms"
      "talk ms = talk (rMessages r)" "work ms = work (rMessages r)"
    unfolding adds_def by (metis append_Nil talk_simps(1,4))
  have out: "out = json_text (openAIResponsesRequest_json r pm)"
    using assms(1) by (simp add: openAIResponsesRequest_FromIR_def)
  have u: "unmarshal dec_responsesReq out = dec_responsesReq (openAIResponsesRequest_json r pm)"
    unfolding out by (rule unmarshal_text) (rule request_json_ok [OF assms(3) items(1)])
  have msgs: "responses_input_in (Some (JArr ?items)) = Inr ms" using items(2,3) by (simp add: responses_input_in_def)
  have fmt: "text_format (map_option (\<lambda>f. JObj [(''format'', f)]) (rResponseFormat r)) = rResponseFormat r"
    using assms(3) by (cases "rResponseFormat r")
      (simp_all add: text_format_def raw_set_def raw_or_null_def request_ok_def struct_dec)
  have sys: "joinText [] = []" by (simp add: joinText_def)
  show ?thesis using assms(2) items(4,5) sys
    by (auto simp: openAIResponsesRequest_ToIR_def u dec_request msgs fmt tools_trip responses_choice_trip)
qed

lemma responses_request_keeps_conversation_witness:
  "\<exists>out q. openAIResponsesRequest_FromIR (plain_request
       [\<lparr>mRole = RoleAssistant, mContent = [KindText ''a'', KindToolUse ''i'' ''f'' (Some (JObj [])), KindText ''b'']\<rparr>,
        \<lparr>mRole = RoleUser, mContent = [KindText ''t'', KindToolResult ''i'' (Some (JStr ''no'')) True]\<rparr>]) ''p''
       \<lparr>oDefaultMaxTokens = 1, oTargetIsBedrock = False\<rparr> = Inr out
     \<and> openAIResponsesRequest_ToIR out = Inr q
     \<and> talk (rMessages q) = [(RoleAssistant, ''a''), (RoleAssistant, ''b''), (RoleUser, ''t'')]
     \<and> work (rMessages q) = [Called ''i'' ''f'' (JObj []), Answered ''i'' ''Error: no'']"
proof -
  let ?r = "plain_request
    [\<lparr>mRole = RoleAssistant, mContent = [KindText ''a'', KindToolUse ''i'' ''f'' (Some (JObj [])), KindText ''b'']\<rparr>,
     \<lparr>mRole = RoleUser, mContent = [KindText ''t'', KindToolResult ''i'' (Some (JStr ''no'')) True]\<rparr>]"
  let ?o = "\<lparr>oDefaultMaxTokens = 1, oTargetIsBedrock = False\<rparr>"
  obtain out where out: "openAIResponsesRequest_FromIR ?r ''p'' ?o = Inr out" by (simp add: openAIResponsesRequest_FromIR_def)
  have "request_ok ?r" by (simp add: request_ok_def plain_request_def message_ok_def)
  from responses_request_keeps_conversation [OF out _ this] out show ?thesis
    by (fastforce simp: plain_request_def talk_of_def toolResultString_def error_prefixed_def)
qed

end
