(* ===== verification/HandlerProps.thy ===== *)
theory HandlerProps
  imports Handler RelayProps
begin

text \<open>
  The properties of the handler: nothing is sent before the key is valid, candidates are tried in order and
  at most so many, the first good answer is the client's, one report per request that reached a
  provider, and no panic for a sane configuration and providers that answer with a status of three digits.
\<close>

section \<open>The loop over the candidates\<close>

text \<open>What one candidate sends: at most one request.\<close>

definition calls_of :: "world \<Rightarrow> inbound \<Rightarrow> protocol \<Rightarrow> request \<Rightarrow> string \<Rightarrow> nat \<Rightarrow> Candidate \<Rightarrow> upstream_call list" where
  "calls_of w r proto preq body i c = fst (try_candidate w r proto preq body i c)"

definition result_of :: "world \<Rightarrow> inbound \<Rightarrow> protocol \<Rightarrow> request \<Rightarrow> string \<Rightarrow> nat \<Rightarrow> Candidate \<Rightarrow> attempt" where
  "result_of w r proto preq body i c = snd (snd (try_candidate w r proto preq body i c))"

lemma send_one_call: "length (fst (send w i h p b t tr body)) \<le> 1" "length (fst (send_invoke w i h t tr m body st)) \<le> 1"
  by (auto simp: send_def send_invoke_def Let_def split: option.split sum.split)

lemma calls_of_eq:
  "calls_of w r proto preq body i c = (case plan_candidate w proto c of Inl e \<Rightarrow> [] | Inr pl \<Rightarrow>
     (case snd (upstream_body pl proto preq body c) of Inl ge \<Rightarrow> [] | Inr b \<Rightarrow>
       (case plBase pl of
          None \<Rightarrow> fst (send_invoke w i (ibHeader r) (plTarget pl) (plTranslator pl \<noteq> None) (cProviderModelCode c) b (rqStream preq))
        | Some base \<Rightarrow> fst (send w i (ibHeader r) (plProvider pl) base (plTarget pl) (plTranslator pl \<noteq> None) b))))"
proof (cases "plan_candidate w proto c")
  case (Inr pl)
  obtain ms ub where ub: "upstream_body pl proto preq body c = (ms, ub)" by fastforce
  show ?thesis
  proof (cases ub)
    case (Inl ge)
    with Inr ub show ?thesis by (simp add: calls_of_def try_candidate_def)
  next
    case b: (Inr b)
    show ?thesis
    proof (cases "plBase pl")
      case None
      obtain calls a where "send_invoke w i (ibHeader r) (plTarget pl) (plTranslator pl \<noteq> None) (cProviderModelCode c) b
          (rqStream preq) = (calls, a)" by fastforce
      with Inr ub b None show ?thesis
        by (simp add: calls_of_def try_candidate_def split: option.split sum.split send_error.split)
    next
      case (Some base)
      obtain calls a where "send w i (ibHeader r) (plProvider pl) base (plTarget pl) (plTranslator pl \<noteq> None) b = (calls, a)"
        by fastforce
      with Inr ub b Some show ?thesis
        by (simp add: calls_of_def try_candidate_def split: option.split sum.split send_error.split)
    qed
  qed
qed (simp add: calls_of_def try_candidate_def)

lemma calls_of_one: "length (calls_of w r proto preq body i c) \<le> 1"
  using send_one_call by (simp add: calls_of_eq split: sum.split option.split)

text \<open>The decision that the result of an attempt makes, if any; \<open>l\<close> says that it is the last candidate.\<close>

fun decides :: "attempt \<Rightarrow> bool \<Rightarrow> Candidate \<Rightarrow> loop_result option" where
  "decides (Skipped e) l c = None"
| "decides (Failed e d) l c = None"
| "decides (Refused ge) l c = Some (Rejected ge)"
| "decides (CtxDone e) l c = Some Exhausted"
| "decides Panicked l c = Some Crashed"
| "decides (Responded resp tr) l c =
     (if failover_status (upStatus resp) \<and> \<not> l then None else Some (Committed c resp tr))"

fun skipped :: "attempt \<Rightarrow> bool" where
  "skipped (Skipped e) = True"
| "skipped _ = False"

definition last_reached :: "(nat \<Rightarrow> attempt) \<Rightarrow> Candidate list \<Rightarrow> nat \<Rightarrow> Candidate option \<Rightarrow> Candidate option" where
  "last_reached R cands m d = fold (\<lambda>j d. if skipped (R j) then d else Some (cands ! j)) [0..<m] d"

lemma upt_Suc_map: "[0..<Suc m] = 0 # map Suc [0..<m]"
  by (simp add: upt_conv_Cons map_Suc_upt del: upt_Suc)

lemma last_reached_Suc:
  "last_reached R (c # cs) (Suc m) d = last_reached (R \<circ> Suc) cs m (if skipped (R 0) then d else Some c)"
  unfolding last_reached_def upt_Suc_map by (simp add: fold_map comp_def cong: if_cong)

text \<open>One turn of the loop.\<close>

lemma attempt_loop_turn:
  assumes "attempt_loop w r proto preq body i (c # cs) s = (res, t)"
  defines "a \<equiv> result_of w r proto preq body i c"
  shows "case decides a (cs = []) c of
      None \<Rightarrow> (\<exists>s'. attempt_loop w r proto preq body (Suc i) cs s' = (res, t)
        \<and> tdCalls s' = tdCalls s @ calls_of w r proto preq body i c
        \<and> tdLast s' = (if skipped a then tdLast s else Some c))
    | Some d \<Rightarrow> res = d \<and> tdCalls t = tdCalls s @ calls_of w r proto preq body i c \<and> tdLast t = Some c"
proof -
  obtain calls ms b where tc: "try_candidate w r proto preq body i c = (calls, ms, b)" by (rule prod_cases3)
  then have "a = b" "calls_of w r proto preq body i c = calls" by (simp_all add: a_def result_of_def calls_of_def)
  with assms(1) tc show ?thesis by (cases b) (auto simp: Let_def)
qed

lemma attempt_loop_first:
  assumes "attempt_loop w r proto preq body i cands s = (res, t)"
  shows "\<exists>k \<le> length cands.
      (\<forall>j < k. decides (result_of w r proto preq body (i + j) (cands ! j)) (Suc j = length cands) (cands ! j) = None)
    \<and> (if k < length cands
       then decides (result_of w r proto preq body (i + k) (cands ! k)) (Suc k = length cands) (cands ! k) = Some res
       else res = Exhausted)
    \<and> tdCalls t = tdCalls s @ concat (map (\<lambda>j. calls_of w r proto preq body (i + j) (cands ! j)) [0..<min (Suc k) (length cands)])
    \<and> tdLast t = last_reached (\<lambda>j. result_of w r proto preq body (i + j) (cands ! j)) cands (min (Suc k) (length cands)) (tdLast s)"
  using assms
proof (induction cands arbitrary: i s)
  case Nil
  then show ?case by (simp add: last_reached_def)
next
  case (Cons c cs)
  let ?a = "result_of w r proto preq body i c"
  show ?case
  proof (cases "decides ?a (cs = []) c")
    case (Some d)
    then have "\<not> skipped ?a" by (cases ?a) auto
    with Some attempt_loop_turn [OF Cons.prems] show ?thesis
      by (intro exI [of _ 0]) (simp add: last_reached_def)
  next
    case None
    then obtain s' where rec: "attempt_loop w r proto preq body (Suc i) cs s' = (res, t)"
      and s': "tdCalls s' = tdCalls s @ calls_of w r proto preq body i c" "tdLast s' = (if skipped ?a then tdLast s else Some c)"
      using attempt_loop_turn [OF Cons.prems] by auto
    from Cons.IH [OF rec] obtain k where k: "k \<le> length cs"
      "\<forall>j < k. decides (result_of w r proto preq body (Suc i + j) (cs ! j)) (Suc j = length cs) (cs ! j) = None"
      "if k < length cs
       then decides (result_of w r proto preq body (Suc i + k) (cs ! k)) (Suc k = length cs) (cs ! k) = Some res
       else res = Exhausted"
      "tdCalls t = tdCalls s' @ concat (map (\<lambda>j. calls_of w r proto preq body (Suc i + j) (cs ! j)) [0..<min (Suc k) (length cs)])"
      "tdLast t = last_reached (\<lambda>j. result_of w r proto preq body (Suc i + j) (cs ! j)) cs (min (Suc k) (length cs)) (tdLast s')"
      by blast
    have m: "min (Suc (Suc k)) (length (c # cs)) = Suc (min (Suc k) (length cs))" by simp
    have "decides (result_of w r proto preq body (i + j) ((c # cs) ! j)) (Suc j = length (c # cs)) ((c # cs) ! j) = None"
      if "j < Suc k" for j
      using that k(2) None by (cases j) auto
    moreover have "concat (map (\<lambda>j. calls_of w r proto preq body (i + j) ((c # cs) ! j)) [0..<min (Suc (Suc k)) (length (c # cs))])
        = calls_of w r proto preq body i c
          @ concat (map (\<lambda>j. calls_of w r proto preq body (Suc i + j) (cs ! j)) [0..<min (Suc k) (length cs)])"
      unfolding m upt_Suc_map by (simp add: comp_def)
    moreover have "last_reached (\<lambda>j. result_of w r proto preq body (i + j) ((c # cs) ! j)) (c # cs)
          (min (Suc (Suc k)) (length (c # cs))) (tdLast s)
        = last_reached (\<lambda>j. result_of w r proto preq body (Suc i + j) (cs ! j)) cs (min (Suc k) (length cs)) (tdLast s')"
      unfolding m last_reached_Suc using s'(2) by (simp add: comp_def)
    moreover have "k < length cs \<Longrightarrow> decides (result_of w r proto preq body (Suc (i + k)) (cs ! k)) (Suc k = length cs) (cs ! k) = Some res"
        "\<not> k < length cs \<Longrightarrow> res = Exhausted"
      using k(3) by simp_all
    ultimately show ?thesis
      using k(1,4,5) s'(1) by (intro exI [of _ "Suc k"]) (simp del: upt_Suc min_Suc_Suc)
  qed
qed

section \<open>Before the attempts\<close>

lemma write_error_status [simp]:
  "crStatus (write_error c h e p) = geStatus e" "crPanics (write_error c h e p) \<longleftrightarrow> \<not> header_status (geStatus e)"
  by (simp_all add: write_error_def Write_def no_response_def Let_def)

lemma answer_error_simps [simp]:
  "sdCalls (answer_error w h p e) = []" "sdReports (answer_error w h p e) = []"
  "sdResponse (answer_error w h p e) = write_error (wdRelay w) h e p"
  by (simp_all add: answer_error_def)

text \<open>A request that had an effect beyond its answer went through every check.\<close>

definition admitted :: "world \<Rightarrow> inbound \<Rightarrow> protocol \<Rightarrow> string \<Rightarrow> request \<Rightarrow> bool" where
  "admitted w r proto body preq \<longleftrightarrow> Detect (ibPath r) = Some proto \<and> ibMethod r = ''POST''
     \<and> extractAPIKey (ibHeader r) \<noteq> []
     \<and> read_request_body (svMaxRequestBodyBytes (cfServer (wdConfig w))) (ibBody r) = Inr body
     \<and> ParseRequest body = Inr preq
     \<and> (\<exists>auth. KeyAuth (wdControlPlane w) (wdNet w) (extractAPIKey (ibHeader r)) (rqModel preq) = Inr auth \<and> kaValid auth)"

definition request_header :: "world \<Rightarrow> header" where
  "request_header w = h_set ''X-Request-Id'' (wdRequestID w) []"

definition refused :: "served \<Rightarrow> bool" where
  "refused s \<longleftrightarrow> sdCalls s = [] \<and> sdReports s = [] \<and> crStatus (sdResponse s) \<in> {400..<600} \<and> \<not> crPanics (sdResponse s)"

lemma refused_answer [simp]: "refused (answer_error w h p e) \<longleftrightarrow> geStatus e \<in> {400..<600}"
  by (auto simp: refused_def header_status_def)

lemma refused_updates [simp]: "refused (s\<lparr>sdKeyAuth := k\<rparr>) = refused s" "refused (s\<lparr>sdMetrics := m\<rparr>) = refused s"
  by (simp_all add: refused_def)

lemma own_errors [simp]:
  "geStatus (ErrNotFound m) \<in> {400..<600}" "geStatus (ErrUnauthorized m) \<in> {400..<600}"
  "geStatus (ErrBadRequest m) \<in> {400..<600}" "geStatus (ErrUnavailable m) \<in> {400..<600}"
  "geStatus (ErrBadGateway m) \<in> {400..<600}" "geStatus (FromReject reason m) \<in> {400..<600}"
  by (simp_all add: ErrNotFound_def ErrUnauthorized_def ErrBadRequest_def ErrUnavailable_def ErrBadGateway_def
      FromReject_def Let_def)

lemma read_request_body_status [simp]: "read_request_body n b = Inl e \<Longrightarrow> geStatus e \<in> {400..<600}"
  by (auto simp: read_request_body_def Let_def ErrBadRequest_def split: if_splits option.splits)

lemma authorize_cases:
  assumes "authorize w r h proto apiKey preq body = Some s"
  shows "refused s \<or> (\<exists>s0 auth. KeyAuth (wdControlPlane w) (wdNet w) apiKey (rqModel preq) = Inr auth \<and> kaValid auth
    \<and> route_request w r h proto apiKey preq body = Some s0
    \<and> s = s0\<lparr>sdKeyAuth := key_auth_request (wdControlPlane w) apiKey (rqModel preq) # sdKeyAuth s0\<rparr>)"
proof (cases "KeyAuth (wdControlPlane w) (wdNet w) apiKey (rqModel preq)")
  case (Inl e)
  with assms show ?thesis by (auto simp: authorize_def Let_def simp del: atLeastLessThan_iff)
next
  case (Inr auth)
  with assms show ?thesis
    by (cases "kaValid auth") (auto simp: authorize_def Let_def simp del: atLeastLessThan_iff)
qed

lemma ServeHTTP_cases:
  assumes "ServeHTTP w r = Some s"
  shows "refused s \<or> (\<exists>proto body preq s0. admitted w r proto body preq
    \<and> route_request w r (request_header w) proto (extractAPIKey (ibHeader r)) preq body = Some s0
    \<and> s = s0\<lparr>sdKeyAuth := key_auth_request (wdControlPlane w) (extractAPIKey (ibHeader r)) (rqModel preq) # sdKeyAuth s0\<rparr>)"
proof (cases "Detect (ibPath r)")
  case None
  with assms show ?thesis by (auto simp: ServeHTTP_def simp del: atLeastLessThan_iff)
next
  case (Some proto)
  note det = this
  show ?thesis
  proof (cases "ibMethod r = ''POST'' \<and> extractAPIKey (ibHeader r) \<noteq> []")
    case False
    have "405 \<in> {400..<600 :: int}" by simp
    with assms det False show ?thesis by (auto simp: ServeHTTP_def Let_def simp del: atLeastLessThan_iff split: if_splits)
  next
    case True
    show ?thesis
    proof (cases "read_request_body (svMaxRequestBodyBytes (cfServer (wdConfig w))) (ibBody r)")
      case (Inl e)
      with assms det True show ?thesis by (auto simp: ServeHTTP_def Let_def simp del: atLeastLessThan_iff)
    next
      case (Inr body)
      show ?thesis
      proof (cases "ParseRequest body")
        case (Inl e)
        with assms det True Inr show ?thesis by (auto simp: ServeHTTP_def Let_def simp del: atLeastLessThan_iff)
      next
        case pr: (Inr preq)
        with assms det True Inr have "authorize w r (request_header w) proto (extractAPIKey (ibHeader r)) preq body = Some s"
          by (simp add: ServeHTTP_def Let_def request_header_def)
        from authorize_cases [OF this] det True Inr pr show ?thesis by (auto simp: admitted_def)
      qed
    qed
  qed
qed

lemma limit_attempts_Some: "limit_attempts n xs = Some ys \<Longrightarrow> ys = take (nat n) xs \<and> int (length ys) \<le> n"
  by (auto simp: limit_attempts_def split: if_splits)

lemma limit_attempts_defined: "0 \<le> n \<Longrightarrow> limit_attempts n xs \<noteq> None"
  by (simp add: limit_attempts_def)

lemma route_request_cases:
  assumes "route_request w r h proto apiKey preq body = Some s"
  shows "refused s \<and> Attempts (wdRand w) 0 (wdRouter w) (rqModel preq) \<in> range (\<lambda>k. Some ([], k))
    \<or> (\<exists>cands k. Attempts (wdRand w) 0 (wdRouter w) (rqModel preq) = Some (cands, k) \<and> cands \<noteq> []
        \<and> limit_attempts (svMaxFailoverAttempts (cfServer (wdConfig w))) cands
            = Some (take (nat (svMaxFailoverAttempts (cfServer (wdConfig w)))) cands)
        \<and> s = run_attempts w r h proto apiKey preq body (take (nat (svMaxFailoverAttempts (cfServer (wdConfig w)))) cands))"
proof -
  let ?n = "svMaxFailoverAttempts (cfServer (wdConfig w))"
  obtain cands k where a: "Attempts (wdRand w) 0 (wdRouter w) (rqModel preq) = Some (cands, k)"
    using assms by (auto simp: route_request_def split: option.splits)
  show ?thesis
  proof (cases "cands = []")
    case True
    with assms a show ?thesis by (auto simp: route_request_def simp del: atLeastLessThan_iff)
  next
    case False
    with assms a obtain ys where ys: "limit_attempts ?n cands = Some ys" "s = run_attempts w r h proto apiKey preq body ys"
      by (auto simp: route_request_def)
    with limit_attempts_Some [OF ys(1)] a False show ?thesis by auto
  qed
qed

definition run_result :: "world \<Rightarrow> header \<Rightarrow> protocol \<Rightarrow> loop_result \<Rightarrow> client_response \<Rightarrow> bool" where
  "run_result w h proto res out \<longleftrightarrow>
     (case res of
        Committed c resp tr \<Rightarrow> out = fst (relay (wdRelay w) h resp proto tr)
      | Rejected ge \<Rightarrow> out = write_error (wdRelay w) h ge proto
      | Crashed \<Rightarrow> out = no_response 0 h
      | Exhausted \<Rightarrow> crStatus out \<in> {502, 504})"

lemma exhausted_status: "geStatus (exhausted_error t) \<in> {502, 504}"
  by (auto simp: exhausted_error_def split: option.split bool.split)

lemma run_attempts_loop:
  assumes "attempt_loop w r proto preq body 0 cs no_tried = (res, t)"
  shows "sdCalls (run_attempts w r h proto apiKey preq body cs) = tdCalls t
    \<and> run_result w h proto res (sdResponse (run_attempts w r h proto apiKey preq body cs))"
  using assms exhausted_status [of t]
  by (cases res) (simp_all add: run_attempts_def run_result_def finish_exhausted_def finish_committed_def
      answer_error_def Let_def split_beta)

lemma concat_length_le: "(\<And>x. x \<in> set xs \<Longrightarrow> length (f x) \<le> 1) \<Longrightarrow> length (concat (map f xs)) \<le> length xs"
  by (induction xs) (simp, fastforce)

lemma run_attempts_first:
  fixes w r proto preq body cs
  defines "R \<equiv> \<lambda>j. result_of w r proto preq body j (cs ! j)"
  shows "\<exists>k \<le> length cs.
      (\<forall>j < k. decides (R j) (Suc j = length cs) (cs ! j) = None)
    \<and> sdCalls (run_attempts w r h proto apiKey preq body cs)
        = concat (map (\<lambda>j. calls_of w r proto preq body j (cs ! j)) [0..<min (Suc k) (length cs)])
    \<and> (if k < length cs
       then (\<exists>res. decides (R k) (Suc k = length cs) (cs ! k) = Some res
              \<and> run_result w h proto res (sdResponse (run_attempts w r h proto apiKey preq body cs)))
       else crStatus (sdResponse (run_attempts w r h proto apiKey preq body cs)) \<in> {502, 504})"
proof -
  obtain res t where loop: "attempt_loop w r proto preq body 0 cs no_tried = (res, t)" by fastforce
  from attempt_loop_first [OF this, unfolded add_0] obtain k where k: "k \<le> length cs"
    "\<forall>j < k. decides (R j) (Suc j = length cs) (cs ! j) = None"
    "if k < length cs then decides (R k) (Suc k = length cs) (cs ! k) = Some res else res = Exhausted"
    "tdCalls t = concat (map (\<lambda>j. calls_of w r proto preq body j (cs ! j)) [0..<min (Suc k) (length cs)])"
    by (auto simp: R_def no_tried_def)
  with run_attempts_loop [OF loop, of h apiKey] show ?thesis
    by (intro exI [of _ k]) (cases "k < length cs", simp_all add: run_result_def)
qed

lemma run_attempts_calls: "length (sdCalls (run_attempts w r h proto apiKey preq body cs)) \<le> length cs"
proof -
  obtain k where k: "sdCalls (run_attempts w r h proto apiKey preq body cs)
      = concat (map (\<lambda>j. calls_of w r proto preq body j (cs ! j)) [0..<min (Suc k) (length cs)])"
    using run_attempts_first [of cs w r proto preq body h apiKey] by blast
  have "length (sdCalls (run_attempts w r h proto apiKey preq body cs)) \<le> length [0..<min (Suc k) (length cs)]"
    unfolding k by (rule concat_length_le) (rule calls_of_one)
  then show ?thesis by (simp only: length_upt diff_zero min.bounded_iff)
qed

section \<open>Properties\<close>

text \<open>C1: the gateway fails closed: unless a request was a POST to a known path with an API key and a body
  within the limit that names a model, and the control plane answered that this key may use this
  model, nothing is sent to any provider, nothing is reported, and the client is answered with an
  error; and when something was sent, key-auth was asked exactly once, with the client's key.\<close>

theorem nothing_before_key_auth:
  assumes "ServeHTTP w r = Some s"
  shows "(sdCalls s = [] \<and> sdReports s = [] \<and> crStatus (sdResponse s) \<in> {400..<600} \<and> \<not> crPanics (sdResponse s))
    \<or> (\<exists>proto body preq. admitted w r proto body preq
        \<and> sdKeyAuth s = [key_auth_request (wdControlPlane w) (extractAPIKey (ibHeader r)) (rqModel preq)])"
proof -
  have keys: "sdKeyAuth (run_attempts w r h proto apiKey preq body cs) = []" for h proto apiKey preq body cs
    by (auto simp: run_attempts_def finish_exhausted_def finish_committed_def answer_error_def Let_def split_beta
        split: loop_result.split)
  show ?thesis
  proof (cases "refused s")
    case True
    then show ?thesis by (simp add: refused_def)
  next
    case False
    then obtain proto body preq s0 where s0: "admitted w r proto body preq"
      "route_request w r (request_header w) proto (extractAPIKey (ibHeader r)) preq body = Some s0"
      "s = s0\<lparr>sdKeyAuth := key_auth_request (wdControlPlane w) (extractAPIKey (ibHeader r)) (rqModel preq) # sdKeyAuth s0\<rparr>"
      using ServeHTTP_cases [OF assms] by blast
    with False have "sdKeyAuth s0 = []" using route_request_cases [OF s0(2)] keys by auto
    with s0 show ?thesis by auto
  qed
qed

text \<open>C10: failover is in order and stops at the first answer: of the candidates the router gives, at most
  \<open>max_failover_attempts\<close> are tried, one request each, in the router's order; the first that answers
  with a status other than 429 and 5xx, or answers as the last, is what the client gets; when
  none does the client gets a 502 or 504.\<close>

theorem failover_takes_first_answer:
  assumes "route_request w r h proto apiKey preq body = Some s"
    and "Attempts (wdRand w) 0 (wdRouter w) (rqModel preq) = Some (cands, k0)" and "cands \<noteq> []"
  shows "\<exists>cs k. cs = take (nat (svMaxFailoverAttempts (cfServer (wdConfig w)))) cands \<and> k \<le> length cs
    \<and> int (length (sdCalls s)) \<le> svMaxFailoverAttempts (cfServer (wdConfig w))
    \<and> sdCalls s = concat (map (\<lambda>j. calls_of w r proto preq body j (cs ! j)) [0..<min (Suc k) (length cs)])
    \<and> (\<forall>j < k. decides (result_of w r proto preq body j (cs ! j)) (Suc j = length cs) (cs ! j) = None)
    \<and> (if k < length cs
       then (\<exists>res. decides (result_of w r proto preq body k (cs ! k)) (Suc k = length cs) (cs ! k) = Some res
              \<and> run_result w h proto res (sdResponse s))
       else crStatus (sdResponse s) \<in> {502, 504})"
proof -
  let ?n = "svMaxFailoverAttempts (cfServer (wdConfig w))"
  let ?cs = "take (nat ?n) cands"
  have s: "s = run_attempts w r h proto apiKey preq body ?cs" and lim: "limit_attempts ?n cands = Some ?cs"
    using route_request_cases [OF assms(1)] assms(2,3) by auto
  from run_attempts_first [of ?cs w r proto preq body h apiKey] obtain k where k: "k \<le> length ?cs"
    "\<forall>j < k. decides (result_of w r proto preq body j (?cs ! j)) (Suc j = length ?cs) (?cs ! j) = None"
    "sdCalls s = concat (map (\<lambda>j. calls_of w r proto preq body j (?cs ! j)) [0..<min (Suc k) (length ?cs)])"
    "if k < length ?cs
       then (\<exists>res. decides (result_of w r proto preq body k (?cs ! k)) (Suc k = length ?cs) (?cs ! k) = Some res
              \<and> run_result w h proto res (sdResponse s))
       else crStatus (sdResponse s) \<in> {502, 504}"
    unfolding s by blast
  have "int (length (sdCalls s)) \<le> ?n"
    using limit_attempts_Some [OF lim] run_attempts_calls [of w r h proto apiKey preq body ?cs] unfolding s by linarith
  with k show ?thesis by blast
qed

section \<open>Reports\<close>

lemma ParseUsage_nonneg [simp]: "counters_nonneg (ParseUsage p b)"
  by (simp add: ParseUsage_def)

text \<open>What a relay reports is what the client saw, and it bills only with the provider's own status.\<close>

definition relay_honest :: "upstream_response \<Rightarrow> client_response \<times> relay_result \<Rightarrow> bool" where
  "relay_honest resp x \<longleftrightarrow> rrStatus (snd x) = crStatus (fst x) \<and> counters_nonneg (rrUsage (snd x))
     \<and> (rrUsage (snd x) \<noteq> no_usage \<longrightarrow> crStatus (fst x) = upStatus resp)"

lemma no_response_status [simp]: "crStatus (no_response st h) = st" "crPanics (no_response st h)"
  by (simp_all add: no_response_def)

lemma relay_stream_honest: "relay_honest resp (relay_stream c h resp proto tr)"
  by (simp add: relay_honest_def relay_stream_def stream_result_def new_result_def Let_def split_beta parser_Usage_nonneg)

lemma Translate_Error_status [simp]: "geStatus (Translate_Error st b) = st"
  using Translate_Error_total by blast

lemma relay_json_honest:
  "rrStatus res = upStatus resp \<Longrightarrow> counters_nonneg (rrUsage res) \<Longrightarrow> relay_honest resp (relay_json c h (upStatus resp) b res)"
  by (simp add: relay_honest_def relay_json_def Let_def split_beta)

lemma relay_body_honest: "relay_honest resp (relay_body c h resp proto tr)"
proof (cases "read_limited (Suc maxResponseBody) (upBody resp)")
  case (Inl e)
  then show ?thesis by (simp add: relay_honest_def relay_body_def Let_def new_result_def upstream_failed_def)
next
  case (Inr b)
  show ?thesis
  proof (cases "length b > maxResponseBody")
    case True
    with Inr show ?thesis by (simp add: relay_honest_def relay_body_def Let_def new_result_def upstream_failed_def)
  next
    case small: False
    show ?thesis
    proof (cases tr)
      case None
      with Inr small show ?thesis
        unfolding relay_body_def Let_def by (simp add: relay_json_honest new_result_def)
    next
      case (Some t)
      show ?thesis
      proof (cases "ok2xx (upStatus resp)")
        case False
        with Inr small Some show ?thesis by (simp add: relay_honest_def relay_body_def Let_def new_result_def)
      next
        case True
        with Inr small Some show ?thesis
          by (cases "Translate_Response t (rcEnv c) (rcRand c) b")
            (simp_all add: relay_body_def Let_def relay_json_honest new_result_def relay_honest_def [of _ "(a, b)" for a b]
              upstream_failed_def)
      qed
    qed
  qed
qed

lemma relay_is_honest: "relay_honest resp (relay c h resp proto tr)"
  by (simp add: relay_def Let_def relay_stream_honest relay_body_honest)

lemma classify_honest:
  assumes "relay_honest resp x" and "res = classifyTruncation d g (snd x)"
  shows "counters_nonneg (rrUsage res) \<and> (rrUsage res \<noteq> no_usage \<longrightarrow> rrStatus res = crStatus (fst x) \<and> crStatus (fst x) = upStatus resp)
    \<and> (rrStatus res \<noteq> crStatus (fst x) \<longrightarrow> rrStatus res \<in> {499, 502, 504})"
  using assms by (auto simp: relay_honest_def classifyTruncation_def Let_def StatusClientClosedRequest_def)

definition tokens_nonneg :: "UsageReport \<Rightarrow> bool" where
  "tokens_nonneg u \<longleftrightarrow> 0 \<le> sint (urInputTokens u) \<and> 0 \<le> sint (urOutputTokens u) \<and> 0 \<le> sint (urCacheReadTokens u)
     \<and> 0 \<le> sint (urCacheWriteTokens u) \<and> 0 \<le> sint (urReasoningTokens u)"

definition billed :: "UsageReport \<Rightarrow> bool" where
  "billed u \<longleftrightarrow> urInputTokens u \<noteq> 0 \<or> urOutputTokens u \<noteq> 0 \<or> urCacheReadTokens u \<noteq> 0
     \<or> urCacheWriteTokens u \<noteq> 0 \<or> urReasoningTokens u \<noteq> 0"

text \<open>What is claimed of the report of one request.\<close>

definition report_ok :: "world \<Rightarrow> string \<Rightarrow> string \<Rightarrow> served \<Rightarrow> UsageReport \<Rightarrow> bool" where
  "report_ok w apiKey model s u \<longleftrightarrow> sdReports s = [u] \<and> urRequestID u = wdRequestID w \<and> urAPIKey u = apiKey
     \<and> urModelCode u = model \<and> tokens_nonneg u
     \<and> urTotalTokens u = urInputTokens u + urCacheReadTokens u + urCacheWriteTokens u + urOutputTokens u
     \<and> (billed u \<longrightarrow> urStatusCode u = crStatus (sdResponse s))
     \<and> (urStatusCode u \<noteq> crStatus (sdResponse s) \<longrightarrow> urStatusCode u \<in> {499, 502, 504})"

lemma report_simps [simp]:
  "urRequestID (report w k m p t st u) = wdRequestID w" "urAPIKey (report w k m p t st u) = k"
  "urModelCode (report w k m p t st u) = m" "urStatusCode (report w k m p t st u) = st"
  "tokens_nonneg (report w k m p t st u) = counters_nonneg u"
  "urTotalTokens (report w k m p t st u) = Total u"
  by (simp_all add: report_def tokens_nonneg_def counters_nonneg_def)

lemma report_billed: "billed (report w k m p t st u) \<Longrightarrow> u \<noteq> no_usage"
  by (auto simp: billed_def report_def no_usage_def)

lemma report_total:
  "Total u = urInputTokens (report w k m p t st u) + urCacheReadTokens (report w k m p t st u)
     + urCacheWriteTokens (report w k m p t st u) + urOutputTokens (report w k m p t st u)"
  by (simp add: report_def Total_def)

lemma run_attempts_report:
  "u \<in> set (sdReports (run_attempts w r h proto apiKey preq body cs)) \<Longrightarrow>
   report_ok w apiKey (rqModel preq) (run_attempts w r h proto apiKey preq body cs) u"
proof -
  assume u: "u \<in> set (sdReports (run_attempts w r h proto apiKey preq body cs))"
  obtain res t where loop: "attempt_loop w r proto preq body 0 cs no_tried = (res, t)" by fastforce
  show ?thesis
  proof (cases res)
    case Exhausted
    with u loop show ?thesis
      by (cases "tdLast t") (auto simp: run_attempts_def finish_exhausted_def Let_def report_ok_def report_total
          dest!: report_billed split: option.splits)
  next
    case Crashed
    with u loop show ?thesis by (simp add: run_attempts_def)
  next
    case (Rejected ge)
    with u loop show ?thesis by (simp add: run_attempts_def)
  next
    case (Committed c resp tr)
    let ?x = "relay (wdRelay w) h resp proto tr"
    let ?res = "classifyTruncation (wdDeadline w) (wdGone w) (snd ?x)"
    have s: "run_attempts w r h proto apiKey preq body cs = finish_committed w h proto apiKey (rqModel preq) c resp tr t"
      using loop Committed by (simp add: run_attempts_def)
    have resp: "sdResponse (finish_committed w h proto apiKey (rqModel preq) c resp tr t) = fst ?x"
      by (simp add: finish_committed_def Let_def split_beta)
    have "\<not> crPanics (fst ?x)" using u by (auto simp: s finish_committed_def Let_def split_beta)
    then have rep: "sdReports (finish_committed w h proto apiKey (rqModel preq) c resp tr t)
        = [report w apiKey (rqModel preq) (cProviderModelCode c) (rrTTFT ?res) (rrStatus ?res) (rrUsage ?res)]"
      by (simp add: finish_committed_def Let_def split_beta)
    from classify_honest [OF relay_is_honest [of resp "wdRelay w" h proto tr] refl, of "wdDeadline w" "wdGone w"] u
    show ?thesis unfolding s report_ok_def resp rep
      by (auto simp: report_total dest!: report_billed)
  qed
qed

lemma reported_once:
  assumes "ServeHTTP w r = Some s" and "u \<in> set (sdReports s)"
  shows "\<exists>proto body preq. admitted w r proto body preq
    \<and> report_ok w (extractAPIKey (ibHeader r)) (rqModel preq) s u"
proof -
  have "\<not> refused s" using assms(2) by (auto simp: refused_def)
  then obtain proto body preq s0 where s0: "admitted w r proto body preq"
    "route_request w r (request_header w) proto (extractAPIKey (ibHeader r)) preq body = Some s0"
    "s = s0\<lparr>sdKeyAuth := key_auth_request (wdControlPlane w) (extractAPIKey (ibHeader r)) (rqModel preq) # sdKeyAuth s0\<rparr>"
    using ServeHTTP_cases [OF assms(1)] by blast
  have "report_ok w (extractAPIKey (ibHeader r)) (rqModel preq) s0 u"
    using route_request_cases [OF s0(2)] assms(2) run_attempts_report [of u w r]
    by (auto simp: s0(3) refused_def)
  then have "report_ok w (extractAPIKey (ibHeader r)) (rqModel preq) s u" by (simp add: report_ok_def s0(3))
  with s0(1) show ?thesis by blast
qed

text \<open>C4: a request is reported at most once, under its own id, key and model; no token count of a report is
  negative and the total is the sum of its parts modulo 2^64; tokens are billed only under the status that the client
  saw, and a report whose status differs from the client's says 499, 502 or 504.\<close>

theorem report_is_honest:
  assumes "ServeHTTP w r = Some s" and "u \<in> set (sdReports s)"
  shows "\<exists>proto body preq. admitted w r proto body preq
    \<and> report_ok w (extractAPIKey (ibHeader r)) (rqModel preq) s u"
  by (rule reported_once [OF assms])

section \<open>Every request is answered\<close>

definition routes_fit :: "Routes \<Rightarrow> bool" where
  "routes_fit routes \<longleftrightarrow> (\<forall>code. case route_of routes code of None \<Rightarrow> True | Some ps \<Rightarrow> route_weights_fit ps)"

lemma Attempts_defined: "routes_fit routes \<Longrightarrow> Attempts rnd k (Load routes r0) code \<noteq> None"
  using Attempts_spec [of routes code _ rnd k r0] by (cases "route_of routes code")
    (auto simp: routes_fit_def Load_lookup split: option.splits)

text \<open>The answers from outside have a status that can be passed on.\<close>

definition answers_in_range :: "world \<Rightarrow> bool" where
  "answers_in_range w \<longleftrightarrow> (\<forall>i rq resp. wdUpstream w i rq = Inr resp \<longrightarrow> header_status (upStatus resp))
     \<and> (\<forall>i st m b e. wdSDK w i st m b = SdkError e \<longrightarrow> seStatus e = 0 \<or> header_status (seStatus e))"

lemma request_FromIR_object: "request_FromIR p ir m opts = Inr b \<Longrightarrow> \<not> is_null b"
  by (auto simp: request_FromIR_def anthropicRequest_FromIR_def openAIChatRequest_FromIR_def
      openAIResponsesRequest_FromIR_def openAIResponsesRequest_json_def enc_anthropicReq_def enc_chatReq_def rbind_Inr_iff
      split: if_splits)

lemma upstream_body_object: "upstream_body pl proto preq body c = (ms, Inr b) \<Longrightarrow> \<not> is_null b"
  by (auto simp: upstream_body_def Rewrite_def Let_def Translate_Request_def rbind_Inr_iff
      split: option.splits sum.splits dest: request_FromIR_object)

lemma upstream_body_refuses: "upstream_body pl proto preq body c = (ms, Inl ge) \<Longrightarrow> header_status (geStatus ge)"
  by (auto simp: upstream_body_def ErrBadRequest_def header_status_def split: option.splits sum.splits)

lemma send_answers:
  assumes "answers_in_range w"
  shows "send w i src prov base target tr b = (calls, Inr resp) \<Longrightarrow> header_status (upStatus resp)"
  using assms by (auto simp: send_def answers_in_range_def Let_def split: option.splits sum.splits)

lemma invoke_answers:
  assumes "answers_in_range w" and "\<not> is_null b"
  shows "\<exists>calls a. send_invoke w i src target tr m b st = (calls, Some a)
    \<and> (case a of Inl e \<Rightarrow> \<exists>t. e = ErrTransport t | Inr resp \<Rightarrow> header_status (upStatus resp))"
proof -
  obtain a where a: "Invoke (wdSDK w i) target m b (copyRequestHeaders src [] target tr) st = Some a"
    using assms(2) by (auto simp: Invoke_def adaptInvokeBody_def)
  have "header_status (upStatus resp)" if "a = Inr resp" for resp
  proof -
    from a that obtain x where x: "(case wdSDK w i st m x of
        SdkError e \<Rightarrow> invokeErrorResponse target e
      | SdkBody out n \<Rightarrow> Inr \<lparr>upStatus = 200,
          upHeader = [(''content-type'', ''application/json'')] @ request_id_header n, upBody = whole_body out\<rparr>
      | SdkStream evs fin n \<Rightarrow> Inr \<lparr>upStatus = 200,
          upHeader = [(''content-type'', ''text/event-stream''), (''cache-control'', ''no-cache'')] @ request_id_header n,
          upBody = pumpInvokeStream target evs fin\<rparr>) = Inr resp"
      by (auto simp: Invoke_def rbind_Inr_iff)
    show ?thesis
    proof (cases "wdSDK w i st m x")
      case (SdkError e)
      with x have "upStatus resp = seStatus e" "seStatus e \<noteq> 0"
        by (auto simp: invokeErrorResponse_def Let_def split: if_splits)
      with SdkError assms(1) show ?thesis unfolding answers_in_range_def by metis
    qed (use x in \<open>auto simp: header_status_def\<close>)
  qed
  with a show ?thesis by (auto simp: send_invoke_def Let_def split: sum.split)
qed

text \<open>No attempt panics, and what it may answer with can be sent.\<close>

fun sendable :: "attempt \<Rightarrow> bool" where
  "sendable Panicked \<longleftrightarrow> False"
| "sendable (Refused ge) \<longleftrightarrow> header_status (geStatus ge)"
| "sendable (Responded resp tr) \<longleftrightarrow> header_status (upStatus resp)"
| "sendable _ \<longleftrightarrow> True"

lemma result_sendable:
  assumes "answers_in_range w"
  shows "sendable (result_of w r proto preq body i c)"
proof (cases "plan_candidate w proto c")
  case (Inl e)
  then show ?thesis by (simp add: result_of_def try_candidate_def)
next
  case (Inr pl)
  obtain ms ub where ub: "upstream_body pl proto preq body c = (ms, ub)" by fastforce
  show ?thesis
  proof (cases ub)
    case (Inl ge)
    with Inr ub upstream_body_refuses show ?thesis by (simp add: result_of_def try_candidate_def)
  next
    case b: (Inr b)
    show ?thesis
    proof (cases "plBase pl")
      case None
      have "\<not> is_null b" using ub b upstream_body_object by blast
      from invoke_answers [OF assms this, of i "ibHeader r" "plTarget pl" "plTranslator pl \<noteq> None" "cProviderModelCode c" "rqStream preq"]
      obtain calls a where "send_invoke w i (ibHeader r) (plTarget pl) (plTranslator pl \<noteq> None) (cProviderModelCode c) b
          (rqStream preq) = (calls, Some a)"
        "case a of Inl e \<Rightarrow> \<exists>t. e = ErrTransport t | Inr resp \<Rightarrow> header_status (upStatus resp)" by blast
      with Inr ub b None show ?thesis
        by (auto simp: result_of_def try_candidate_def split: sum.splits option.split)
    next
      case (Some base)
      obtain calls a where "send w i (ibHeader r) (plProvider pl) base (plTarget pl) (plTranslator pl \<noteq> None) b = (calls, a)"
        by fastforce
      with Inr ub b Some send_answers [OF assms] show ?thesis
        by (auto simp: result_of_def try_candidate_def ErrBadGateway_def header_status_def
            split: sum.split send_error.split option.split)
    qed
  qed
qed

lemma relay_sends: "header_status (upStatus resp) \<Longrightarrow> \<not> crPanics (fst (relay c h resp proto tr))"
  by (auto simp: relay_def relay_stream_def stream_result_def relay_body_def relay_json_def upstream_failed_def
      header_status_def Let_def split_beta split: sum.split option.split)

lemma run_attempts_answers:
  assumes "answers_in_range w"
  shows "\<not> crPanics (sdResponse (run_attempts w r h proto apiKey preq body cs))"
proof -
  obtain res t where loop: "attempt_loop w r proto preq body 0 cs no_tried = (res, t)" by fastforce
  note run = run_attempts_def loop
  show ?thesis
  proof (cases "res = Exhausted")
    case True
    then show ?thesis using exhausted_status [of t]
      by (auto simp: run finish_exhausted_def header_status_def Let_def)
  next
    case False
    with attempt_loop_first [OF loop] obtain k where
      "decides (result_of w r proto preq body k (cs ! k)) (Suc k = length cs) (cs ! k) = Some res" by (auto split: if_splits)
    with result_sendable [OF assms, of r proto preq body k "cs ! k"] False show ?thesis
      by (cases "result_of w r proto preq body k (cs ! k)")
        (auto simp: run finish_committed_def relay_sends Let_def split_beta split: if_splits)
  qed
qed

text \<open>C22: with a limit on the attempts that is not negative, route weights that fit, and providers whose statuses can be
  passed on, the handler never panics: every request is answered, and at most \<open>max_failover_attempts\<close> requests are
  sent for it.\<close>

theorem every_request_answered:
  assumes "0 \<le> svMaxFailoverAttempts (cfServer (wdConfig w))"
    and "wdRouter w = Load routes r0" and "routes_fit routes" and "answers_in_range w"
  shows "\<exists>s. ServeHTTP w r = Some s \<and> \<not> crPanics (sdResponse s)
    \<and> int (length (sdCalls s)) \<le> svMaxFailoverAttempts (cfServer (wdConfig w))"
proof -
  let ?n = "svMaxFailoverAttempts (cfServer (wdConfig w))"
  have route: "route_request w r h proto key preq body \<noteq> None" for h proto key preq body
    using Attempts_defined [OF assms(3), of "wdRand w" 0 r0 "rqModel preq"] limit_attempts_defined [OF assms(1)]
    by (auto simp: route_request_def assms(2))
  then have auth: "authorize w r h proto key preq body \<noteq> None" for h proto key preq body
    by (auto simp: authorize_def Let_def split: sum.split)
  then obtain s where s: "ServeHTTP w r = Some s"
    by (fastforce simp: ServeHTTP_def Let_def split: option.split sum.split)
  have "\<not> crPanics (sdResponse s) \<and> int (length (sdCalls s)) \<le> ?n"
  proof (cases "refused s")
    case True
    with assms(1) show ?thesis by (simp add: refused_def)
  next
    case False
    then obtain proto body preq s0 where s0:
      "route_request w r (request_header w) proto (extractAPIKey (ibHeader r)) preq body = Some s0"
      "sdCalls s = sdCalls s0" "sdResponse s = sdResponse s0"
      using ServeHTTP_cases [OF s] by auto
    from route_request_cases [OF s0(1)] show ?thesis
    proof (elim disjE exE conjE)
      assume "refused s0"
      with s0(2,3) assms(1) show ?thesis by (simp add: refused_def)
    next
      fix cands k
      assume *: "s0 = run_attempts w r (request_header w) proto (extractAPIKey (ibHeader r)) preq body (take (nat ?n) cands)"
      from run_attempts_calls [of w r "request_header w" proto "extractAPIKey (ibHeader r)" preq body "take (nat ?n) cands"]
      have "length (sdCalls s) \<le> nat ?n" using * s0(2) by simp
      with run_attempts_answers [OF assms(4)] * s0(3) le_nat_iff [OF assms(1)] show ?thesis by auto
    qed
  qed
  with s show ?thesis by blast
qed

section \<open>A request\<close>

definition valid_answer :: exchange where
  "valid_answer = exchange.Answered 200 [] (Inr (json_text (JObj [(''data'', JObj [(''valid'', JBool True)])])))"

definition sample_provider :: Provider where
  "sample_provider = \<lparr>pvCode = ''a'', pvEndpoints = [(''anthropic'', \<lparr>uScheme = ''https'', uHost = ''h'', uPath = ''/v1''\<rparr>)],
     pvAuth = HeaderAuth ''x-api-key'' ''k'', pvBedrock = False, pvInvoke = False\<rparr>"

text \<open>Two candidates of one priority; the provider answers attempt \<open>i\<close> with status \<open>st i\<close>.\<close>

definition sample_world :: "int \<Rightarrow> (nat \<Rightarrow> int) \<Rightarrow> world" where
  "sample_world n st = \<lparr>wdConfig = applyDefaults (sample_config n), wdControlPlane = New ''https://cp'' ''t'' ''T'',
     wdNet = \<lambda>rq. valid_answer, wdRouter = Load (two_providers 1 1) None, wdRand = \<lambda>k m. 0,
     wdProviders = [(''a'', sample_provider), (''b'', sample_provider)], wdBuildErr = \<lambda>u. None,
     wdSign = \<lambda>i h b. Inr h,
     wdUpstream = \<lambda>i rq. Inr \<lparr>upStatus = st i, upHeader = [(''content-type'', ''application/json'')], upBody = whole_body ''{}''\<rparr>,
     wdSDK = \<lambda>i stream m b. SdkBody [] [], wdCtxErr = \<lambda>i. None, wdIsDeadline = \<lambda>e. False, wdDeadline = False,
     wdGone = False, wdRelay = quiet_ctx, wdRequestID = newRequestID ''123456789012'', wdStartTime = ''now'', wdDuration = 5000000\<rparr>"

definition sample_inbound :: inbound where
  "sample_inbound = \<lparr>ibMethod = ''POST'', ibPath = ''/v1/messages'', ibHeader = [(''authorization'', ''Bearer client-key'')],
     ibBody = whole_body (json_text (jmap [(''model'', JStr ''m'')]))\<rparr>"

lemma valid_key_auth: "\<exists>a. KeyAuth c (\<lambda>rq. valid_answer) k m = Inr a \<and> kaValid a"
proof -
  have "length (json_text (JObj [(''data'', JObj [(''valid'', JBool True)])])) \<le> 2 ^ 20"
    by (simp add: json_text.simps str_text_def esc_char_def)
  then have "postJSON dec_KeyAuthResult valid_answer
      = Inr \<lparr>kaValid = True, kaRejectReason = [], kaMessage = [], kaSubjectCode = [], kaModelCode = []\<rparr>"
    by (simp add: valid_answer_def postJSON_ok decode_envelope_ok dec_apiResult_def dec_KeyAuthResult_def json_dec)
  then show ?thesis by (simp add: KeyAuth_def)
qed

lemma sample_parse: "ParseRequest (json_text (jmap [(''model'', JStr ''m'')]))
    = Inr \<lparr>rqModel = ''m'', rqStream = False, rqFields = [(''model'', JStr ''m'')]\<rparr>"
proof -
  have "unmarshal dec_map (json_text (jmap [(''model'', JStr ''m'')])) = Some [(''model'', JStr ''m'')]"
    using unmarshal_map [of "[(''model'', JStr ''m'')]"] by (simp add: map_ok_def)
  then show ?thesis by (simp add: ParseRequest_def Let_def)
qed

lemma sample_admitted: "admitted (sample_world n st) sample_inbound Anthropic (json_text (jmap [(''model'', JStr ''m'')]))
    \<lparr>rqModel = ''m'', rqStream = False, rqFields = [(''model'', JStr ''m'')]\<rparr>"
proof -
  have "length (json_text (jmap [(''model'', JStr ''m'')])) < 100"
    by (simp add: jmap_def json_text.simps str_text_def esc_char_def)
  moreover have "Detect ''/v1/messages'' = Some Anthropic" by code_simp
  moreover have "extractAPIKey [(''authorization'', ''Bearer client-key'')] = ''client-key''"
    by (simp add: extractAPIKey_def h_get_def h_values_def to_lower_def trim_space_def is_blank_def)
  ultimately show ?thesis
    using valid_key_auth [of "New ''https://cp'' ''t'' ''T''" "''client-key''" "''m''"]
    by (simp add: admitted_def sample_inbound_def sample_world_def sample_parse read_request_body_def whole_body_def
        applyDefaults_def sample_config_def server_defaults_def or_int_def)
qed

definition sample_candidate :: "string \<Rightarrow> Candidate" where
  "sample_candidate code = \<lparr>cProviderCode = code, cProviderModelCode = ''x'', cProviderProtocol = [], cPriority = 0, cWeight = 1\<rparr>"

lemma sample_attempts: "\<exists>k. Attempts (\<lambda>k m. 0) 0 (Load (two_providers 1 1) r) ''m'' = Some ([sample_candidate ''a'', sample_candidate ''b''], k)"
proof -
  have t: "tiers_of (mrProviders (hd (rtModels (two_providers 1 1)))) = [[sample_candidate ''a'', sample_candidate ''b'']]"
    by (simp add: tiers_of_def two_providers_def candidate_def sample_candidate_def add_prio_def Let_def)
  have "weightedOrder (\<lambda>k m. 0) 0 [sample_candidate ''a'', sample_candidate ''b'']
      = Some ([sample_candidate ''a'', sample_candidate ''b''], 2)"
    by (simp add: weightedOrder_def weighted_loop.simps total_weight_def pick_first_def sample_candidate_def remove_nth_def Let_def
        in_i64_def)
  with t show ?thesis by (simp add: Load_lookup route_of_def two_providers_def)
qed

lemma sample_try:
  "\<exists>rq. try_candidate (sample_world n st) sample_inbound Anthropic preq body i (sample_candidate ''a'') = ([SentHTTP rq], [],
     Responded \<lparr>upStatus = st i, upHeader = [(''content-type'', ''application/json'')], upBody = whole_body ''{}''\<rparr> None)"
  "\<exists>rq. try_candidate (sample_world n st) sample_inbound Anthropic preq body i (sample_candidate ''b'') = ([SentHTTP rq], [],
     Responded \<lparr>upStatus = st i, upHeader = [(''content-type'', ''application/json'')], upBody = whole_body ''{}''\<rparr> None)"
  by (simp_all add: try_candidate_def plan_candidate_def target_protocol_def sample_world_def sample_candidate_def
      sample_provider_def Endpoint_def CanInvoke_def Anthropic_def upstream_body_def send_def Authenticate_def
      Authenticate_header_def Let_def)

definition first_fails :: "nat \<Rightarrow> int" where
  "first_fails i = (if i = 0 then 500 else 200)"

lemma sample_route:
  "\<exists>s. route_request (sample_world 3 first_fails) sample_inbound h Anthropic key \<lparr>rqModel = ''m'', rqStream = False, rqFields = fs\<rparr> body = Some s
     \<and> length (sdCalls s) = 2 \<and> length (sdReports s) = 1"
proof -
  let ?w = "sample_world 3 first_fails" and ?rq = "\<lparr>rqModel = ''m'', rqStream = False, rqFields = fs\<rparr>"
  obtain k where a: "Attempts (wdRand ?w) 0 (wdRouter ?w) ''m'' = Some ([sample_candidate ''a'', sample_candidate ''b''], k)"
    using sample_attempts by (auto simp: sample_world_def)
  obtain r1 r2 where t: "try_candidate ?w sample_inbound Anthropic ?rq body 0 (sample_candidate ''a'') = ([SentHTTP r1], [],
      Responded \<lparr>upStatus = 500, upHeader = [(''content-type'', ''application/json'')], upBody = whole_body ''{}''\<rparr> None)"
    "try_candidate ?w sample_inbound Anthropic ?rq body (Suc 0) (sample_candidate ''b'') = ([SentHTTP r2], [],
      Responded \<lparr>upStatus = 200, upHeader = [(''content-type'', ''application/json'')], upBody = whole_body ''{}''\<rparr> None)"
    using sample_try(1) [of 3 first_fails ?rq body 0] sample_try(2) [of 3 first_fails ?rq body "Suc 0"]
    by (auto simp: first_fails_def)
  have "svMaxFailoverAttempts (cfServer (wdConfig ?w)) = 3"
    by (simp add: sample_world_def applyDefaults_def sample_config_def server_defaults_def or_int_def)
  with a t show ?thesis
    by (simp add: route_request_def limit_attempts_def run_attempts_def failover_status_def no_tried_def finish_committed_def
        relay_sends header_status_def Let_def split_beta)
qed

lemma sample_served:
  "\<exists>s. ServeHTTP (sample_world 3 first_fails) sample_inbound = Some s \<and> length (sdCalls s) = 2 \<and> length (sdReports s) = 1"
proof -
  let ?w = "sample_world 3 first_fails"
  let ?body = "json_text (jmap [(''model'', JStr ''m'')])"
  let ?rq = "\<lparr>rqModel = ''m'', rqStream = False, rqFields = [(''model'', JStr ''m'')]\<rparr>"
  have adm: "admitted ?w sample_inbound Anthropic ?body ?rq" by (rule sample_admitted)
  obtain s where "route_request ?w sample_inbound (request_header ?w) Anthropic (extractAPIKey (ibHeader sample_inbound)) ?rq ?body = Some s"
    "length (sdCalls s) = 2" "length (sdReports s) = 1" using sample_route by blast
  with adm show ?thesis by (auto simp: admitted_def ServeHTTP_def authorize_def request_header_def Let_def)
qed

lemma nothing_before_key_auth_witness:
  "\<exists>s proto body preq. ServeHTTP (sample_world 3 first_fails) sample_inbound = Some s \<and> length (sdCalls s) = 2
     \<and> admitted (sample_world 3 first_fails) sample_inbound proto body preq"
proof -
  obtain s where s: "ServeHTTP (sample_world 3 first_fails) sample_inbound = Some s" "length (sdCalls s) = 2"
    using sample_served by blast
  from nothing_before_key_auth [OF s(1)] s show ?thesis by force
qed

lemma failover_takes_first_answer_witness:
  "\<exists>s. route_request (sample_world 3 first_fails) sample_inbound [] Anthropic ''client-key''
       \<lparr>rqModel = ''m'', rqStream = False, rqFields = []\<rparr> [] = Some s \<and> int (length (sdCalls s)) \<le> 3"
proof -
  let ?w = "sample_world 3 first_fails"
  obtain s where s: "route_request ?w sample_inbound [] Anthropic ''client-key'' \<lparr>rqModel = ''m'', rqStream = False, rqFields = []\<rparr> [] = Some s"
    using sample_route by blast
  have n: "svMaxFailoverAttempts (cfServer (wdConfig ?w)) = 3"
    by (simp add: sample_world_def applyDefaults_def sample_config_def server_defaults_def or_int_def)
  obtain k where "Attempts (wdRand ?w) 0 (wdRouter ?w) (rqModel \<lparr>rqModel = ''m'', rqStream = False, rqFields = []\<rparr>)
      = Some ([sample_candidate ''a'', sample_candidate ''b''], k)"
    using sample_attempts by (auto simp: sample_world_def)
  from failover_takes_first_answer [OF s this] s n show ?thesis by auto
qed

lemma report_is_honest_witness:
  "\<exists>s u. ServeHTTP (sample_world 3 first_fails) sample_inbound = Some s \<and> sdReports s = [u] \<and> urAPIKey u = ''client-key'' \<and> tokens_nonneg u"
proof -
  obtain s u where s: "ServeHTTP (sample_world 3 first_fails) sample_inbound = Some s" "sdReports s = [u]"
    using sample_served by (auto simp: length_Suc_conv)
  have "extractAPIKey (ibHeader sample_inbound) = ''client-key''"
    by (simp add: sample_inbound_def extractAPIKey_def h_get_def h_values_def to_lower_def trim_space_def is_blank_def)
  with report_is_honest [OF s(1), of u] s show ?thesis by (auto simp: report_ok_def)
qed

lemma sample_routes_fit: "routes_fit (two_providers 1 1)"
  by (auto simp: routes_fit_def route_of_def two_providers_def route_weights_fit_def candidate_def)

lemma every_request_answered_witness:
  "\<exists>s. ServeHTTP (sample_world 3 first_fails) sample_inbound = Some s \<and> \<not> crPanics (sdResponse s)
     \<and> int (length (sdCalls s)) \<le> 3"
proof -
  have n: "svMaxFailoverAttempts (cfServer (wdConfig (sample_world 3 first_fails))) = 3"
    by (simp add: sample_world_def applyDefaults_def sample_config_def server_defaults_def or_int_def)
  have t: "wdRouter (sample_world 3 first_fails) = Load (two_providers 1 1) None" by (simp add: sample_world_def)
  have "answers_in_range (sample_world 3 first_fails)"
    by (auto simp: answers_in_range_def sample_world_def first_fails_def header_status_def)
  from every_request_answered [OF _ t sample_routes_fit this, of sample_inbound] n show ?thesis by simp
qed

text \<open>The premise of \<open>every_request_answered\<close> on the statuses is needed: net/http's client accepts a status such as 099,
  and its server panics when the relay passes it on: the client gets a broken connection instead of a 502.
\<close>

theorem bad_status_panics:
  "\<exists>s. ServeHTTP (sample_world 1 (\<lambda>i. 99)) sample_inbound = Some s \<and> crPanics (sdResponse s) \<and> length (sdCalls s) = 1
     \<and> sdReports s = []"
proof -
  let ?w = "sample_world 1 (\<lambda>i. 99)"
  let ?body = "json_text (jmap [(''model'', JStr ''m'')])"
  let ?rq = "\<lparr>rqModel = ''m'', rqStream = False, rqFields = [(''model'', JStr ''m'')]\<rparr>"
  let ?resp = "\<lparr>upStatus = 99, upHeader = [(''content-type'', ''application/json'')], upBody = whole_body ''{}''\<rparr>"
  have adm: "admitted ?w sample_inbound Anthropic ?body ?rq" by (rule sample_admitted)
  have n: "svMaxFailoverAttempts (cfServer (wdConfig ?w)) = 1"
    by (simp add: sample_world_def applyDefaults_def sample_config_def server_defaults_def or_int_def)
  obtain k where "Attempts (wdRand ?w) 0 (wdRouter ?w) ''m'' = Some ([sample_candidate ''a'', sample_candidate ''b''], k)"
    using sample_attempts by (auto simp: sample_world_def)
  moreover obtain rq where "try_candidate ?w sample_inbound Anthropic ?rq ?body 0 (sample_candidate ''a'')
      = ([SentHTTP rq], [], Responded ?resp None)"
    using sample_try(1) [of 1 "\<lambda>i. 99" ?rq ?body 0] by blast
  moreover have "crPanics (fst (relay c h ?resp Anthropic None))" for c h
    by (simp add: relay_def relay_body_def relay_json_def is_sse_def h_get_def h_values_def to_lower_def read_limited_def
        whole_body_def maxResponseBody_def ok2xx_def new_result_def header_status_def Let_def)
  ultimately have "\<exists>s. route_request ?w sample_inbound h Anthropic key ?rq ?body = Some s \<and> crPanics (sdResponse s)
      \<and> length (sdCalls s) = 1 \<and> sdReports s = []" for h key
    using n by (simp add: route_request_def limit_attempts_def run_attempts_def failover_status_def no_tried_def
        finish_committed_def Let_def split_beta)
  with adm show ?thesis by (fastforce simp: admitted_def ServeHTTP_def authorize_def Let_def)
qed

text \<open>So is the premise on the limit: validation does not look at \<open>max_failover_attempts\<close>, and a
  negative one, which loads, makes every authorised request for a routed model panic when the
  candidates are sliced.
\<close>

theorem negative_attempts_panic:
  "Load_config https_only (sample_config (- 1)) = Inr (wdConfig (sample_world (- 1) first_fails))
   \<and> ServeHTTP (sample_world (- 1) first_fails) sample_inbound = None"
proof -
  let ?w = "sample_world (- 1) first_fails"
  let ?body = "json_text (jmap [(''model'', JStr ''m'')])"
  let ?rq = "\<lparr>rqModel = ''m'', rqStream = False, rqFields = [(''model'', JStr ''m'')]\<rparr>"
  have adm: "admitted ?w sample_inbound Anthropic ?body ?rq" by (rule sample_admitted)
  have n: "svMaxFailoverAttempts (cfServer (wdConfig ?w)) = - 1"
    by (simp add: sample_world_def applyDefaults_def sample_config_def server_defaults_def or_int_def)
  obtain k where "Attempts (wdRand ?w) 0 (wdRouter ?w) ''m'' = Some ([sample_candidate ''a'', sample_candidate ''b''], k)"
    using sample_attempts by (auto simp: sample_world_def)
  with n have "route_request ?w sample_inbound h Anthropic key ?rq body = None" for h key body
    by (simp add: route_request_def limit_attempts_def)
  with adm sample_config_loads [of "- 1"] show ?thesis
    by (auto simp: admitted_def ServeHTTP_def authorize_def Let_def sample_world_def)
qed

end
