(* ===== verification/MockControlPlane.thy ===== *)
theory MockControlPlane
  imports Metering Router GwErrors Sha256
begin

text \<open>
  \<^verbatim>\<open>cmd/mock-controlplane\<close>: the server side of the control plane, as the repository's own stand-in
  implements it, and what the gateway's client, delivery and poller get from it. A handler maps the server's
  state and a request to the next state and the response; the mutex makes each one atomic. The header
  list of a request is the list of its Header.Set calls, so the last entry of a name counts. Numbers
  of a usage record keep their spelling; the flags and files of main come in as their values.
\<close>

section \<open>The state\<close>

record modelRoute =
  mmCode :: string
  mmProviders :: "ProviderRoute list option"

record server =
  sToken :: string
  sTokenHeader :: string
  sKeys :: "string list"
  sVersion :: string
  sModels :: "modelRoute list option"
  sSeen :: "string list"
  sUsages :: "(string \<times> json) list list"

record mock_response =
  mpStatus :: int
  mpETag :: string
  mpContentType :: string
  mpBody :: string

text \<open>\<open>nil\<close> slices print as null.\<close>

definition slice_json :: "('a \<Rightarrow> json) \<Rightarrow> 'a list option \<Rightarrow> json" where
  "slice_json enc xs = (case xs of None \<Rightarrow> JNull | Some ys \<Rightarrow> JArr (map enc ys))"

definition providerRoute_json :: "ProviderRoute \<Rightarrow> json" where
  "providerRoute_json p = JObj
     ([(''providerCode'', JStr (prProviderCode p)), (''providerModelCode'', JStr (prProviderModelCode p))]
      @ opt_str ''providerProtocol'' (prProviderProtocol p)
      @ [(''priority'', num_int (prPriority p)), (''weight'', num_int (prWeight p))])"

definition modelRoute_json :: "modelRoute \<Rightarrow> json" where
  "modelRoute_json m = JObj [(''modelCode'', JStr (mmCode m)), (''providers'', slice_json providerRoute_json (mmProviders m))]"

definition routes_json :: "string \<Rightarrow> modelRoute list option \<Rightarrow> json" where
  "routes_json version models = JObj [(''version'', JStr version), (''models'', slice_json modelRoute_json models)]"

definition dec_modelRoute :: "modelRoute decoder" where
  "dec_modelRoute j = do {
     fs \<leftarrow> dec_obj j;
     c \<leftarrow> get_str ''modelcode'' fs;
     ps \<leftarrow> get_ptr (dec_arr dec_ProviderRoute) ''providers'' fs;
     Some \<lparr>mmCode = c, mmProviders = ps\<rparr> }"

text \<open>The version of the document is read and then replaced by the digest.\<close>

definition dec_routes :: "modelRoute list option decoder" where
  "dec_routes j = do {
     fs \<leftarrow> dec_obj j;
     v \<leftarrow> get_str ''version'' fs;
     get_ptr (dec_arr dec_modelRoute) ''models'' fs }"

section \<open>Answers\<close>

definition plain_error :: "int \<Rightarrow> string \<Rightarrow> mock_response" where
  "plain_error status msg = \<lparr>mpStatus = status, mpETag = [], mpContentType = ''text/plain; charset=utf-8'', mpBody = msg @ [CHR 10]\<rparr>"

definition apiResult_json :: "json \<Rightarrow> json" where
  "apiResult_json data = jmap [(''code'', JStr ''00000''), (''msg'', JStr ''ok''), (''data'', data)]"

definition apiResult :: "json \<Rightarrow> mock_response" where
  "apiResult data = \<lparr>mpStatus = 200, mpETag = [], mpContentType = ''application/json'',
     mpBody = json_text (apiResult_json data) @ [CHR 10]\<rparr>"

definition maskKey :: "string \<Rightarrow> string" where
  "maskKey s = (if length s \<le> 4 then s else drop (length s - 4) s)"

definition setRoutes :: "modelRoute list option \<Rightarrow> server \<Rightarrow> server" where
  "setRoutes models s =
     s\<lparr>sVersion := hex_sum8 (json_text (slice_json modelRoute_json models)), sModels := models\<rparr>"

definition modelKnown :: "server \<Rightarrow> string \<Rightarrow> bool" where
  "modelKnown s code \<longleftrightarrow> (case sModels s of None \<Rightarrow> False | Some ms \<Rightarrow> (\<exists>m \<in> set ms. mmCode m = code))"

section \<open>Handlers\<close>

definition hq_get :: "string \<Rightarrow> http_request \<Rightarrow> string" where
  "hq_get name r =
     (case rev (filter (\<lambda>p. to_lower (fst p) = to_lower name) (hqHeaders r)) of [] \<Rightarrow> [] | p # ps \<Rightarrow> snd p)"

definition authorized :: "server \<Rightarrow> http_request \<Rightarrow> bool" where
  "authorized s r \<longleftrightarrow> hq_get (sTokenHeader s) r = sToken s"

definition handleRoutes :: "server \<Rightarrow> http_request \<Rightarrow> mock_response" where
  "handleRoutes s r =
     (if \<not> authorized s r then plain_error 401 ''unauthorized''
      else if hq_get ''If-None-Match'' r = sVersion s \<and> sVersion s \<noteq> []
      then \<lparr>mpStatus = 304, mpETag = [], mpContentType = [], mpBody = []\<rparr>
      else \<lparr>mpStatus = 200, mpETag = sVersion s, mpContentType = ''application/json'',
            mpBody = json_text (routes_json (sVersion s) (sModels s)) @ [CHR 10]\<rparr>)"

text \<open>\<open>Decoder.Decode\<close>: the first value of the text, whatever follows it.\<close>

definition decode_first :: "'a decoder \<Rightarrow> string \<Rightarrow> 'a option" where
  "decode_first d s = (case json_value (2 * length s + 2) s of None \<Rightarrow> None | Some (j, rest) \<Rightarrow> d j)"

definition dec_key_auth :: "(string \<times> string) decoder" where
  "dec_key_auth j = do { fs \<leftarrow> dec_obj j; k \<leftarrow> get_str ''apikey'' fs; m \<leftarrow> get_str ''modelcode'' fs; Some (k, m) }"

definition key_auth_verdict :: "server \<Rightarrow> string \<Rightarrow> string \<Rightarrow> (string \<times> json) list" where
  "key_auth_verdict s apiKey model =
     (let reject = (\<lambda>reason msg. [(''valid'', JBool False), (''modelCode'', JStr model),
                                  (''rejectReason'', JStr reason), (''message'', JStr msg)])
      in if apiKey \<notin> set (sKeys s) then reject ''KEY_NOT_FOUND'' ''api key not found''
         else if has_suffix ''-disabled'' apiKey then reject ''KEY_DISABLED'' ''api key disabled''
         else if has_suffix ''-quota0'' apiKey then reject ''QUOTA_EXHAUSTED'' ''monthly quota exhausted''
         else if \<not> modelKnown s model then reject ''MODEL_NO_PROVIDER'' ''model has no active provider''
         else [(''valid'', JBool True), (''modelCode'', JStr model), (''keyCode'', JStr (''key-'' @ maskKey apiKey)),
               (''subjectType'', JStr ''USER''), (''subjectCode'', JStr ''demo.user@example.com''),
               (''remainingQuotaUsd'', JNum ''100'')])"

definition handleKeyAuth :: "server \<Rightarrow> http_request \<Rightarrow> mock_response" where
  "handleKeyAuth s r =
     (if \<not> authorized s r then plain_error 401 ''unauthorized''
      else (case decode_first dec_key_auth (hqBody r) of
              None \<Rightarrow> plain_error 400 ''bad request''
            | Some (apiKey, model) \<Rightarrow> apiResult (jmap (key_auth_verdict s apiKey model))))"

text \<open>A type assertion to string: the empty string when it fails.\<close>

definition any_str :: "string \<Rightarrow> (string \<times> json) list \<Rightarrow> string" where
  "any_str k m = (case map_of m k of Some (JStr s) \<Rightarrow> s | _ \<Rightarrow> [])"

definition usage_result :: "bool \<Rightarrow> bool \<Rightarrow> string \<Rightarrow> mock_response" where
  "usage_result acc dup msg =
     apiResult (jmap [(''accepted'', JBool acc), (''duplicate'', JBool dup), (''message'', JStr msg)])"

definition handleUsage :: "server \<Rightarrow> http_request \<Rightarrow> server \<times> mock_response" where
  "handleUsage s r =
     (if \<not> authorized s r then (s, plain_error 401 ''unauthorized'')
      else (case unmarshal dec_map (take (2 ^ 20) (hqBody r)) of
              None \<Rightarrow> (s, plain_error 400 ''bad request'')
            | Some rec \<Rightarrow>
                (let reqID = any_str ''request_id'' rec; apiKey = any_str ''api_key'' rec
                 in if reqID = [] then (s, usage_result False False ''request_id required'')
                    else if apiKey \<notin> set (sKeys s) then (s, usage_result False False ''unknown api key'')
                    else if reqID \<in> set (sSeen s) then (s, usage_result True True ''duplicate'')
                    else (s\<lparr>sSeen := reqID # sSeen s,
                            sUsages := sUsages s @ [AList.update ''api_key'' (JStr (''...'' @ maskKey apiKey)) rec]\<rparr>,
                          usage_result True False ''ok''))))"

definition handleDebugUsages :: "server \<Rightarrow> http_request \<Rightarrow> server \<times> mock_response" where
  "handleDebugUsages s r =
     (if hqMethod r = ''DELETE''
      then (s\<lparr>sUsages := [], sSeen := []\<rparr>, \<lparr>mpStatus = 204, mpETag = [], mpContentType = [], mpBody = []\<rparr>)
      else (s, \<lparr>mpStatus = 200, mpETag = [], mpContentType = ''application/json'',
                mpBody = json_text (if sUsages s = [] then JNull else JArr (map jmap (sUsages s))) @ [CHR 10]\<rparr>))"

definition handleDebugRoutes :: "server \<Rightarrow> http_request \<Rightarrow> server \<times> mock_response" where
  "handleDebugRoutes s r =
     (if hqMethod r \<noteq> ''PUT'' then (s, plain_error 405 ''PUT a routes JSON document'')
      else (case decode_first dec_routes (hqBody r) of
              None \<Rightarrow> (s, plain_error 400 json_err)
            | Some models \<Rightarrow>
                (let s1 = setRoutes models s
                 in (s1, \<lparr>mpStatus = 200, mpETag = [], mpContentType = ''text/plain; charset=utf-8'',
                          mpBody = ''routes updated, version='' @ sVersion s1 @ [CHR 10]\<rparr>))))"

text \<open>The mux of main; \<open>base\<close> is the URL under which the client reaches the server.\<close>

definition serve :: "string \<Rightarrow> server \<Rightarrow> http_request \<Rightarrow> server \<times> mock_response" where
  "serve base s r =
     (let path = trim_prefix base (hqURL r)
      in if path = ''/admin/healthCheck'' then (s, apiResult (JStr ''ok''))
         else if path = ''/admin/gateway/model-routes'' then (s, handleRoutes s r)
         else if path = ''/admin/gateway/key-auth'' then (s, handleKeyAuth s r)
         else if path = ''/admin/gateway/usage/report'' then handleUsage s r
         else if path = ''/debug/usages'' then handleDebugUsages s r
         else if path = ''/debug/routes'' then handleDebugRoutes s r
         else (s, plain_error 404 ''404 page not found''))"

text \<open>What the client sees of an answer.\<close>

definition exchange_of :: "mock_response \<Rightarrow> exchange" where
  "exchange_of p = Answered (mpStatus p) (mpETag p) (Inr (mpBody p))"

section \<open>Start\<close>

definition one_route :: "string \<Rightarrow> string \<Rightarrow> string \<Rightarrow> modelRoute" where
  "one_route model provider pm = \<lparr>mmCode = model, mmProviders = Some
     [\<lparr>prProviderCode = provider, prProviderModelCode = pm, prPriority = 10, prWeight = 100, prProviderProtocol = []\<rparr>]\<rparr>"

definition defaultRoutes :: "modelRoute list option" where
  "defaultRoutes = Some
     [one_route ''claude-sonnet-5'' ''bedrock'' ''global.anthropic.claude-sonnet-5'',
      one_route ''claude-opus-5'' ''bedrock'' ''global.anthropic.claude-opus-5'',
      one_route ''gpt-5.6-sol'' ''bedrock'' ''global.openai.gpt-5.6-sol'',
      one_route ''gpt-5.6-luna'' ''bedrock'' ''global.openai.gpt-5.6-luna'',
      one_route ''gpt-6-astra'' ''bedrock'' ''global.openai.gpt-6-astra'',
      one_route ''gpt-6-sol'' ''bedrock'' ''global.openai.gpt-6-sol'',
      one_route ''gpt-6-luna'' ''bedrock'' ''global.openai.gpt-6-luna'']"

definition initial_keys :: "string \<Rightarrow> string list" where
  "initial_keys keys =
     (let ks = filter (\<lambda>k. k \<noteq> []) (map trim_space (split_on (CHR '','') keys))
      in if ks = [] then [''sk-demo-key''] else ks)"

definition new_server :: "string \<Rightarrow> string \<Rightarrow> string \<Rightarrow> modelRoute list option \<Rightarrow> server" where
  "new_server token header keys models =
     setRoutes models \<lparr>sToken = (if token = [] then ''mock-token'' else token), sTokenHeader = header,
       sKeys = initial_keys keys, sVersion = [], sModels = None, sSeen = [], sUsages = []\<rparr>"

section \<open>The client's requests, as the server reads them\<close>

definition trusts :: "server \<Rightarrow> client \<Rightarrow> bool" where
  "trusts s c \<longleftrightarrow> clToken c = sToken s \<and> to_lower (clTokenHeader c) = to_lower (sTokenHeader s)"

lemma post_authorized [simp]: "trusts s c \<Longrightarrow> authorized s (post_request c path payload)"
  by (simp add: authorized_def hq_get_def post_request_def trusts_def)

lemma serve_paths [simp]:
  "serve (clBaseURL c) s (key_auth_request c k m) = (s, handleKeyAuth s (key_auth_request c k m))"
  "serve (clBaseURL c) s (report_request c r) = handleUsage s (report_request c r)"
  "serve (clBaseURL c) s (routes_request c etag) = (s, handleRoutes s (routes_request c etag))"
  by (simp_all add: serve_def key_auth_request_def report_request_def post_request_def routes_request_def)

lemma decode_first_text: "json_ok j \<Longrightarrow> decode_first d (json_text j) = d j"
  using json_parse_text [of j] by (auto simp: decode_first_def json_parse_def split: option.splits if_splits)

lemma unmarshal_line: "json_ok j \<Longrightarrow> unmarshal d (json_text j @ [CHR 10]) = d j"
  by (simp add: unmarshal_def)

lemma dec_apiResult_json:
  "dec_apiResult (apiResult_json data) = Some \<lparr>arCode = successCode, arMsg = ''ok'', arData = Some data\<rparr>"
  by (simp add: apiResult_json_def jmap_def dec_apiResult_def json_dec successCode_def)

lemma apiResult_json_ok [simp]: "json_ok (apiResult_json data) = json_ok data"
  by (simp add: apiResult_json_def jmap_def)

lemma post_apiResult:
  assumes "length (mpBody (apiResult data)) \<le> 2 ^ 20" and "json_ok data" and "data \<noteq> JNull"
  shows "postJSON dec (exchange_of (apiResult data))
    = (case dec data of None \<Rightarrow> Inl (Terminal (''decode data: '' @ json_err)) | Some x \<Rightarrow> Inr x)"
  using assms
  by (simp add: postJSON_def exchange_of_def apiResult_def limit_body_def transient_status_def decode_envelope_def
      unmarshal_line dec_apiResult_json)

section \<open>Key authorisation, end to end\<close>

definition mock_net :: "client \<Rightarrow> server \<Rightarrow> http_request \<Rightarrow> exchange" where
  "mock_net c s r = exchange_of (snd (serve (clBaseURL c) s r))"

text \<open>The reason the server has against a key and a model, the first that applies.\<close>

definition objection :: "server \<Rightarrow> string \<Rightarrow> string \<Rightarrow> RejectReason option" where
  "objection s apiKey model =
     (if apiKey \<notin> set (sKeys s) then Some RejectKeyNotFound
      else if has_suffix ''-disabled'' apiKey then Some RejectKeyDisabled
      else if has_suffix ''-quota0'' apiKey then Some RejectQuotaExhausted
      else if \<not> modelKnown s model then Some RejectModelNoProvider
      else None)"

lemma lower_extra [simp]:
  "to_lower ''keyCode'' = ''keycode''" "to_lower ''subjectType'' = ''subjecttype''"
  "to_lower ''remainingQuotaUsd'' = ''remainingquotausd''"
  by code_simp+

lemma num_ok_100 [simp]: "num_ok ''100''"
  by code_simp

lemma verdict_ok: "json_ok (jmap (key_auth_verdict s k m))"
  by (simp add: key_auth_verdict_def jmap_def Let_def)

lemma verdict_decoded:
  "\<exists>a. dec_KeyAuthResult (jmap (key_auth_verdict s k m)) = Some a \<and> kaModelCode a = m
     \<and> kaValid a = (objection s k m = None) \<and> kaRejectReason a = (case objection s k m of None \<Rightarrow> [] | Some x \<Rightarrow> x)"
  by (simp add: key_auth_verdict_def objection_def dec_KeyAuthResult_def jmap_def json_dec Let_def reject_defs)

lemma key_auth_request_decoded:
  "decode_first dec_key_auth (hqBody (key_auth_request c k m)) = Some (k, m)"
  by (simp add: key_auth_request_def post_request_def key_auth_payload_def decode_first_text jmap_def dec_key_auth_def json_dec)

lemma esc_char_length: "length (esc_char c) \<le> 6"
  by (simp add: esc_char_def)

lemma str_text_length: "length (str_text s) \<le> 6 * length s + 2"
proof -
  have "length (concat (map esc_char s)) \<le> 6 * length s"
  proof (induction s)
    case (Cons c s)
    with esc_char_length [of c] show ?case by simp
  qed simp
  then show ?thesis by (simp add: str_text_def)
qed

text \<open>A bound for the length of a printed value, by its parts.\<close>

fun json_cost :: "json \<Rightarrow> nat" where
  "json_cost JNull = 4"
| "json_cost (JBool b) = 5"
| "json_cost (JNum l) = length l"
| "json_cost (JStr s) = 6 * length s + 2"
| "json_cost (JArr xs) = 2 + sum_list (map (\<lambda>x. Suc (json_cost x)) xs)"
| "json_cost (JObj fs) = 2 + sum_list (map (\<lambda>(k, v). 6 * length k + 4 + json_cost v) fs)"

lemma join_length: "length (join '','' (map f xs)) \<le> sum_list (map (\<lambda>x. Suc (length (f x))) xs)"
proof (induction xs)
  case (Cons x xs)
  then show ?case by (cases xs) simp_all
qed simp

lemma sum_list_le: "(\<And>x. x \<in> set xs \<Longrightarrow> f x \<le> g x) \<Longrightarrow> sum_list (map f xs) \<le> (sum_list (map g xs) :: nat)"
  by (rule sum_list_mono)

lemma json_text_length: "length (json_text j) \<le> json_cost j"
proof (induction j)
  case (JArr xs)
  then have "sum_list (map (\<lambda>x. Suc (length (json_text x))) xs) \<le> sum_list (map (\<lambda>x. Suc (json_cost x)) xs)"
    by (intro sum_list_le) simp
  with join_length [of json_text xs] show ?case by (simp add: json_text.simps)
next
  case (JObj fs)
  have "Suc (length (str_text k @ CHR '':'' # json_text v)) \<le> 6 * length k + 4 + json_cost v" if "(k, v) \<in> set fs" for k v
    using JObj that str_text_length [of k] by fastforce
  then have "sum_list (map (\<lambda>x. Suc (length (case x of (k, v) \<Rightarrow> str_text k @ CHR '':'' # json_text v))) fs)
      \<le> sum_list (map (\<lambda>(k, v). 6 * length k + 4 + json_cost v) fs)"
    by (intro sum_list_le) auto
  with join_length [of "\<lambda>(k, v). str_text k @ CHR '':'' # json_text v" fs] show ?case by (simp add: json_text.simps)
qed (use str_text_length in \<open>simp_all add: json_text.simps\<close>)

lemma maskKey_length: "length (maskKey k) \<le> 4"
  by (simp add: maskKey_def)

lemma verdict_length: "length (mpBody (apiResult (jmap (key_auth_verdict s k m)))) \<le> 6 * length m + 4000"
proof -
  have "json_cost (apiResult_json (jmap (key_auth_verdict s k m))) \<le> 6 * length m + 3999"
    using maskKey_length [of k] by (simp add: key_auth_verdict_def apiResult_json_def jmap_def Let_def)
  with json_text_length [of "apiResult_json (jmap (key_auth_verdict s k m))"] show ?thesis by (simp add: apiResult_def)
qed

lemma verdict_not_null: "jmap m \<noteq> JNull"
  by (simp add: jmap_def)

lemma key_auth_decided:
  assumes "trusts s c" and "length m \<le> 100000"
  shows "\<exists>a. KeyAuth c (mock_net c s) k m = Inr a \<and> kaModelCode a = m \<and> kaValid a = (objection s k m = None)
    \<and> kaRejectReason a = (case objection s k m of None \<Rightarrow> [] | Some x \<Rightarrow> x)"
proof -
  obtain a where a: "dec_KeyAuthResult (jmap (key_auth_verdict s k m)) = Some a" "kaModelCode a = m"
    "kaValid a = (objection s k m = None)" "kaRejectReason a = (case objection s k m of None \<Rightarrow> [] | Some x \<Rightarrow> x)"
    using verdict_decoded by blast
  have h: "handleKeyAuth s (key_auth_request c k m) = apiResult (jmap (key_auth_verdict s k m))"
    using assms(1) by (simp add: handleKeyAuth_def key_auth_request_decoded) (simp add: key_auth_request_def)
  have "KeyAuth c (mock_net c s) k m = Inr a"
    using assms(2) verdict_length [of s k m] a(1) post_apiResult [OF _ verdict_ok verdict_not_null, of s k m dec_KeyAuthResult]
    by (simp add: KeyAuth_def mock_net_def h)
  with a show ?thesis by (intro exI [of _ a] conjI)
qed

lemma objection_status: "objection s k m = Some x \<Longrightarrow> geStatus (FromReject x msg) \<in> {401, 404, 429}"
  by (auto simp: objection_def FromReject_def reject_defs Let_def split: if_splits)

text \<open>C15: against this control plane the gateway's key check is exact: with the shared token every check is
  decided, for the model that was asked about, and the key is accepted exactly when it is known, neither
  disabled nor out of quota, and the model has a route, and otherwise rejected for the first of these reasons, which
  the client is told with 401, 429 or 404; with another token no key is ever accepted, and nothing is retried.\<close>

theorem key_auth_end_to_end:
  assumes "to_lower (clTokenHeader c) = to_lower (sTokenHeader s)"
    and "length m \<le> 100000"
  shows "if clToken c = sToken s
    then (\<exists>a. KeyAuth c (mock_net c s) k m = Inr a \<and> kaModelCode a = m
            \<and> (kaValid a \<longleftrightarrow> objection s k m = None)
            \<and> (\<forall>x. objection s k m = Some x \<longrightarrow> kaRejectReason a = x \<and> geStatus (FromReject x (kaMessage a)) \<in> {401, 404, 429}))
    else (\<exists>e. KeyAuth c (mock_net c s) k m = Inl (Terminal e))"
proof (cases "clToken c = sToken s")
  case True
  with assms(1) have t: "trusts s c" by (simp add: trusts_def)
  obtain a where "KeyAuth c (mock_net c s) k m = Inr a" "kaModelCode a = m" "kaValid a = (objection s k m = None)"
    "kaRejectReason a = (case objection s k m of None \<Rightarrow> [] | Some x \<Rightarrow> x)"
    using key_auth_decided [OF t assms(2)] by blast
  moreover have "geStatus (FromReject x msg) \<in> {401, 404, 429}" if "objection s k m = Some x" for x msg
    using that by (rule objection_status)
  ultimately show ?thesis using True by simp
next
  case False
  with assms(1) have "handleKeyAuth s (key_auth_request c k m) = plain_error 401 ''unauthorized''"
    by (simp add: handleKeyAuth_def authorized_def hq_get_def key_auth_request_def post_request_def)
  with False show ?thesis
    by (simp add: KeyAuth_def mock_net_def postJSON_def exchange_of_def plain_error_def limit_body_def
        transient_status_def cp_wrap_def)
qed

definition sample_server :: server where
  "sample_server = \<lparr>sToken = ''t'', sTokenHeader = ''X-HIGRESS-Token'', sKeys = [''k'', ''k-disabled''], sVersion = ''v1'',
     sModels = Some [\<lparr>mmCode = ''m'', mmProviders = None\<rparr>], sSeen = [], sUsages = []\<rparr>"

definition sample_client :: client where
  "sample_client = New ''http://cp/'' ''t'' ''X-HIGRESS-Token''"

lemma key_auth_end_to_end_witness:
  "(\<exists>a. KeyAuth sample_client (mock_net sample_client sample_server) ''k'' ''m'' = Inr a \<and> kaValid a)
    \<and> (\<exists>a. KeyAuth sample_client (mock_net sample_client sample_server) ''k-disabled'' ''m'' = Inr a
         \<and> \<not> kaValid a \<and> kaRejectReason a = RejectKeyDisabled)"
proof -
  have l: "to_lower (clTokenHeader sample_client) = to_lower (sTokenHeader sample_server)"
    "clToken sample_client = sToken sample_server"
    by (simp_all add: sample_client_def sample_server_def New_def)
  have o: "objection sample_server ''k'' ''m'' = None" "objection sample_server ''k-disabled'' ''m'' = Some RejectKeyDisabled"
    by (simp_all add: objection_def sample_server_def has_suffix_def modelKnown_def)
  show ?thesis
    using key_auth_end_to_end [OF l(1), of "''m''" "''k''"] key_auth_end_to_end [OF l(1), of "''m''" "''k-disabled''"] l(2) o
    by auto
qed

section \<open>Usage reports are recorded once\<close>

text \<open>
  A store of posted requests whose answers may get lost: what a request stores, it stores once. The
  fate of an attempt is to be lost on its way, to be handled with the answer lost, or to be answered.
\<close>

datatype fate = Lost | AnswerLost | Answered_back

primrec attempts :: "('s \<Rightarrow> 's) \<Rightarrow> (nat \<Rightarrow> fate) \<Rightarrow> 's \<Rightarrow> nat \<Rightarrow> 's" where
  "attempts post f s 0 = s"
| "attempts post f s (Suc k) = (if f k = Lost then attempts post f s k else post (attempts post f s k))"

locale idempotent_store =
  fixes post :: "'s \<Rightarrow> 's" and stored :: "'s \<Rightarrow> bool"
  assumes post_stored: "stored (post s)"
    and post_again: "stored s \<Longrightarrow> post s = s"
begin

lemma attempts_once:
  "attempts post f s k = (if \<exists>i < k. f i \<noteq> Lost then post s else s)"
proof (induction k)
  case (Suc k)
  then show ?case by (auto simp: less_Suc_eq post_again post_stored)
qed simp

end

text \<open>The record of a report, as the server keeps it.\<close>

definition usage_entry :: "UsageReport \<Rightarrow> (string \<times> json) list" where
  "usage_entry r = (case enc_UsageReport r of
     JObj fs \<Rightarrow> AList.update ''api_key'' (JStr (''...'' @ maskKey (urAPIKey r))) fs | _ \<Rightarrow> [])"

definition take_report :: "UsageReport \<Rightarrow> server \<Rightarrow> server" where
  "take_report r s =
     (if urRequestID r \<in> set (sSeen s) then s
      else s\<lparr>sSeen := urRequestID r # sSeen s, sUsages := sUsages s @ [usage_entry r]\<rparr>)"

definition seen_report :: "UsageReport \<Rightarrow> server \<Rightarrow> bool" where
  "seen_report r s \<longleftrightarrow> urRequestID r \<in> set (sSeen s)"

interpretation usages: idempotent_store "take_report r" "seen_report r" for r
  by unfold_locales (simp_all add: take_report_def seen_report_def)

definition report_fits :: "server \<Rightarrow> UsageReport \<Rightarrow> bool" where
  "report_fits s r \<longleftrightarrow> urRequestID r \<noteq> [] \<and> urAPIKey r \<in> set (sKeys s)
     \<and> length (json_text (enc_UsageReport r)) \<le> 2 ^ 20"

lemma report_parsed:
  assumes "length (json_text (enc_UsageReport r)) \<le> 2 ^ 20"
  shows "\<exists>fs. unmarshal dec_map (take (2 ^ 20) (hqBody (report_request c r))) = Some fs
    \<and> any_str ''request_id'' fs = urRequestID r \<and> any_str ''api_key'' fs = urAPIKey r
    \<and> AList.update ''api_key'' (JStr (''...'' @ maskKey (urAPIKey r))) fs = usage_entry r"
proof -
  have "json_ok (enc_UsageReport r)" by (simp add: enc_UsageReport_def)
  then have "unmarshal dec_map (take (2 ^ 20) (hqBody (report_request c r))) = dec_map (enc_UsageReport r)"
    using assms by (simp add: report_request_def post_request_def)
  then show ?thesis
    by (simp add: enc_UsageReport_def dec_map_def usage_entry_def any_str_def)
qed

lemma handle_report:
  assumes "trusts s c" and "report_fits s r"
  shows "handleUsage s (report_request c r) =
    (take_report r s, if seen_report r s then usage_result True True ''duplicate'' else usage_result True False ''ok'')"
proof -
  obtain fs where fs: "unmarshal dec_map (take (2 ^ 20) (hqBody (report_request c r))) = Some fs"
    "any_str ''request_id'' fs = urRequestID r" "any_str ''api_key'' fs = urAPIKey r"
    "AList.update ''api_key'' (JStr (''...'' @ maskKey (urAPIKey r))) fs = usage_entry r"
    using report_parsed assms(2) report_fits_def by blast
  moreover have "authorized s (report_request c r)" using assms(1) by (simp add: report_request_def)
  ultimately show ?thesis
    using assms(2) by (simp add: handleUsage_def report_fits_def take_report_def seen_report_def)
qed

lemma usage_result_read:
  assumes "length msg \<le> 1000"
  shows "postJSON dec_ReportResult (exchange_of (usage_result a d msg))
    = Inr \<lparr>rrAccepted = a, rrDuplicate = d, rrMessage = msg\<rparr>"
proof -
  let ?d = "jmap [(''accepted'', JBool a), (''duplicate'', JBool d), (''message'', JStr msg)]"
  have "json_cost (apiResult_json ?d) \<le> 8000"
    using assms by (simp add: apiResult_json_def jmap_def)
  then have "length (mpBody (apiResult ?d)) \<le> 2 ^ 20"
    using json_text_length [of "apiResult_json ?d"] by (simp add: apiResult_def)
  moreover have "json_ok ?d" by (simp add: jmap_def)
  moreover have "dec_ReportResult ?d = Some \<lparr>rrAccepted = a, rrDuplicate = d, rrMessage = msg\<rparr>"
    by (simp add: jmap_def dec_ReportResult_def json_dec)
  ultimately show ?thesis by (simp add: usage_result_def post_apiResult verdict_not_null)
qed

text \<open>The server before attempt \<open>k\<close>, and the network that carries out the fates.\<close>

definition mock_run :: "client \<Rightarrow> server \<Rightarrow> (nat \<Rightarrow> fate) \<Rightarrow> http_request \<Rightarrow> nat \<Rightarrow> server" where
  "mock_run c s f rq k = attempts (\<lambda>s. fst (serve (clBaseURL c) s rq)) f s k"

definition lossy_net :: "client \<Rightarrow> server \<Rightarrow> (nat \<Rightarrow> fate) \<Rightarrow> nat \<Rightarrow> http_request \<Rightarrow> exchange" where
  "lossy_net c s f k rq =
     (if f k = Answered_back then mock_net c (mock_run c s f rq k) rq else DoFailed ''timeout'')"

lemma take_report_keeps [simp]:
  "trusts (take_report r s) c = trusts s c" "report_fits (take_report r s) r' = report_fits s r'"
  by (simp_all add: take_report_def trusts_def report_fits_def)

lemma mock_run_eq:
  assumes "trusts s c" and "report_fits s r"
  shows "mock_run c s f (report_request c r) k = (if \<exists>i < k. f i \<noteq> Lost then take_report r s else s)"
proof -
  have "mock_run c s f (report_request c r) k = attempts (take_report r) f s k
      \<and> trusts (attempts (take_report r) f s k) c \<and> report_fits (attempts (take_report r) f s k) r"
    using assms by (induction k) (simp_all add: mock_run_def handle_report)
  then show ?thesis by (simp add: usages.attempts_once)
qed

lemma lossy_report:
  assumes "trusts s c" and "report_fits s r" and "\<not> seen_report r s"
  shows "ReportUsage c (lossy_net c s f k) r =
    (if f k \<noteq> Answered_back then Inl (Retryable ''usage-report: timeout'')
     else if \<exists>i < k. f i \<noteq> Lost then Inr \<lparr>rrAccepted = True, rrDuplicate = True, rrMessage = ''duplicate''\<rparr>
     else Inr \<lparr>rrAccepted = True, rrDuplicate = False, rrMessage = ''ok''\<rparr>)"
  using assms usages.post_stored [of r s]
  by (auto simp add: ReportUsage_def lossy_net_def postJSON_def [of _ "DoFailed _"] cp_wrap_def mock_net_def mock_run_eq
      handle_report usage_result_read)

lemma recorded_once:
  assumes "deliver c (lossy_net c s f) maxRetries r = (out, sleeps)"
    and "trusts s c" and "report_fits s r" and "urRequestID r \<notin> set (sSeen s)"
  shows "sUsages (mock_run c s f (report_request c r) (Suc (length sleeps)))
      = sUsages s @ (if \<exists>k \<le> length sleeps. f k \<noteq> Lost then [usage_entry r] else [])
    \<and> (f (length sleeps) = Answered_back \<longrightarrow>
         out = (if \<exists>k < length sleeps. f k = AnswerLost then Delivered_duplicate else Delivered_ok))
    \<and> (f (length sleeps) \<noteq> Answered_back \<longrightarrow> out = Delivered_dropped \<and> maxRetries \<le> int (length sleeps))
    \<and> map_of (usage_entry r) ''api_key'' = Some (JStr (''...'' @ maskKey (urAPIKey r)))"
proof -
  let ?n = "length sleeps"
  have new: "\<not> seen_report r s" using assms(4) by (simp add: seen_report_def)
  note rep = lossy_report [OF assms(2,3) new]
  from deliver_loop_spec [OF assms(1) [unfolded deliver_def]]
  have k: "\<forall>k < ?n. f k \<noteq> Answered_back" and out: "out = counted (ReportUsage c (lossy_net c s f ?n) r)"
    and stop: "f ?n \<noteq> Answered_back \<longrightarrow> maxRetries \<le> int ?n"
    by (auto simp: rep retryable_def split: if_splits)
  have "f i \<noteq> Lost \<longleftrightarrow> f i = AnswerLost" if "i < ?n" for i using k that by (cases "f i") auto
  then have "(\<exists>i < ?n. f i \<noteq> Lost) \<longleftrightarrow> (\<exists>i < ?n. f i = AnswerLost)" by blast
  moreover have "map_of (usage_entry r) ''api_key'' = Some (JStr (''...'' @ maskKey (urAPIKey r)))"
    by (simp add: usage_entry_def enc_UsageReport_def update_conv')
  moreover have "sUsages (mock_run c s f (report_request c r) (Suc ?n))
      = sUsages s @ (if \<exists>k \<le> ?n. f k \<noteq> Lost then [usage_entry r] else [])"
    using assms(4) by (simp add: mock_run_eq [OF assms(2,3)] take_report_def less_Suc_eq_le)
  ultimately show ?thesis using out stop by (auto simp add: rep counted_def)
qed

text \<open>C14: the delivery of a usage report through a network that loses requests and answers leaves at most one record
  of it, and exactly one when any attempt reached the server; the metric says ok or duplicate exactly when the
  last attempt was answered, duplicate being the case that an earlier answer was lost; and dropped only when every
  allowed attempt went unanswered. The record does not hold the customer's key.\<close>

theorem usage_recorded_once:
  assumes "deliver c (lossy_net c s f) maxRetries r = (out, sleeps)"
    and "trusts s c" and "report_fits s r" and "urRequestID r \<notin> set (sSeen s)"
  shows "sUsages (mock_run c s f (report_request c r) (Suc (length sleeps)))
      = sUsages s @ (if \<exists>k \<le> length sleeps. f k \<noteq> Lost then [usage_entry r] else [])
    \<and> (f (length sleeps) = Answered_back \<longrightarrow>
         out = (if \<exists>k < length sleeps. f k = AnswerLost then Delivered_duplicate else Delivered_ok))
    \<and> (f (length sleeps) \<noteq> Answered_back \<longrightarrow> out = Delivered_dropped \<and> maxRetries \<le> int (length sleeps))
    \<and> map_of (usage_entry r) ''api_key'' = Some (JStr (''...'' @ maskKey (urAPIKey r)))"
  by (rule recorded_once [OF assms])

lemma usage_recorded_once_witness:
  "deliver sample_client (lossy_net sample_client sample_server (\<lambda>k. if k = 0 then AnswerLost else Answered_back)) 2 sample_report
     = (Delivered_duplicate, [200])
   \<and> sUsages (mock_run sample_client sample_server (\<lambda>k. if k = 0 then AnswerLost else Answered_back)
        (report_request sample_client sample_report) 2) = [usage_entry sample_report]"
proof -
  let ?f = "\<lambda>k :: nat. if k = 0 then AnswerLost else Answered_back"
  have "json_cost (enc_UsageReport sample_report) \<le> 10000"
    by (simp add: enc_UsageReport_def sample_report_def num64_def num_int_def i64_text_def int_text_def nat_text.simps)
  then have fits: "report_fits sample_server sample_report" "trusts sample_server sample_client"
    "urRequestID sample_report \<notin> set (sSeen sample_server)"
    using json_text_length [of "enc_UsageReport sample_report"]
    by (simp_all add: report_fits_def sample_server_def sample_report_def trusts_def sample_client_def New_def)
  then have d: "deliver sample_client (lossy_net sample_client sample_server ?f) 2 sample_report = (Delivered_duplicate, [200])"
    by (simp add: deliver_def deliver_loop.simps lossy_report seen_report_def)
  from usage_recorded_once [OF d fits(2,1,3)] d show ?thesis
    by (simp add: numeral_2_eq_2) (auto simp: sample_server_def)
qed

section \<open>Published route tables reach the router\<close>

definition models_of :: "modelRoute list option \<Rightarrow> ModelRoute list" where
  "models_of ms = (case ms of None \<Rightarrow> []
     | Some xs \<Rightarrow> map (\<lambda>m. \<lparr>mrModelCode = mmCode m,
                            mrProviders = (case mmProviders m of None \<Rightarrow> [] | Some ps \<Rightarrow> ps)\<rparr>) xs)"

definition models_text :: "modelRoute list option \<Rightarrow> string" where
  "models_text ms = json_text (slice_json modelRoute_json ms)"

definition table_of :: "modelRoute list option \<Rightarrow> Routes" where
  "table_of ms = \<lparr>rtVersion = hex_sum8 (models_text ms), rtModels = models_of ms\<rparr>"

definition publishable :: "modelRoute list option \<Rightarrow> bool" where
  "publishable ms \<longleftrightarrow> models_of ms \<noteq> [] \<and> ints_in_range (table_of ms)
     \<and> length (json_text (routes_json (hex_sum8 (models_text ms)) ms)) < 64 * 2 ^ 20"

lemma hex_sum8_not_empty [simp]: "hex_sum8 s \<noteq> []"
  using hex_sum_length(2) [of s] by (metis list.size(3) zero_neq_numeral)

lemma dec_providerRoute:
  "in_i64 (prPriority p) \<Longrightarrow> in_i64 (prWeight p) \<Longrightarrow> dec_ProviderRoute (providerRoute_json p) = Some p"
  by (simp add: providerRoute_json_def dec_ProviderRoute_def json_dec opt_str_def)

lemma dec_model:
  assumes "\<forall>p \<in> set (case mmProviders m of None \<Rightarrow> [] | Some ps \<Rightarrow> ps). in_i64 (prPriority p) \<and> in_i64 (prWeight p)"
  shows "dec_ModelRoute (modelRoute_json m)
    = Some \<lparr>mrModelCode = mmCode m, mrProviders = (case mmProviders m of None \<Rightarrow> [] | Some ps \<Rightarrow> ps)\<rparr>"
  using assms
  by (cases "mmProviders m")
    (simp_all add: modelRoute_json_def dec_ModelRoute_def json_dec slice_json_def dec_providerRoute)

lemma dec_models:
  assumes "ints_in_range (table_of ms)"
  shows "(if slice_json modelRoute_json ms = JNull then Some [] else dec_arr dec_ModelRoute (slice_json modelRoute_json ms))
    = Some (models_of ms)"
proof (cases ms)
  case (Some xs)
  have "those (map (\<lambda>m. dec_ModelRoute (modelRoute_json m)) xs)
      = Some (map (\<lambda>m. \<lparr>mrModelCode = mmCode m, mrProviders = (case mmProviders m of None \<Rightarrow> [] | Some ps \<Rightarrow> ps)\<rparr>) xs)"
    using assms Some by (intro those_map_Some dec_model) (auto simp: ints_in_range_def table_of_def models_of_def)
  then show ?thesis using Some by (simp add: slice_json_def models_of_def comp_def)
qed (simp add: slice_json_def models_of_def)

lemma slice_json_ok: "json_ok (slice_json modelRoute_json ms)"
  by (auto simp: slice_json_def modelRoute_json_def providerRoute_json_def opt_str_def split: option.split)

lemma same_text_same_table:
  assumes "models_text a = models_text b" and "publishable a" and "publishable b"
  shows "table_of a = table_of b"
proof -
  have "Some (slice_json modelRoute_json a) = Some (slice_json modelRoute_json b)"
    unfolding json_parse_text [OF slice_json_ok, symmetric] assms(1) [unfolded models_text_def] ..
  then have e: "slice_json modelRoute_json a = slice_json modelRoute_json b" by (rule option.inject [THEN iffD1])
  have "ints_in_range (table_of a)" "ints_in_range (table_of b)" using assms by (simp_all only: publishable_def)
  from dec_models [OF this(1)] dec_models [OF this(2)] have "Some (models_of a) = Some (models_of b)"
    unfolding e by (rule trans [OF sym])
  then show ?thesis using assms(1) by (simp only: table_of_def option.inject)
qed

lemma header_names [simp]:
  "to_lower ''If-None-Match'' = ''if-none-match''" "to_lower ''Accept'' = ''accept''"
  by code_simp+

lemma routes_get_etag:
  assumes "to_lower (clTokenHeader c) \<noteq> ''if-none-match''"
  shows "hq_get ''If-None-Match'' (routes_request c etag) = etag"
  using assms by (simp add: hq_get_def routes_request_def)

lemma routes_authorized: "trusts s c \<Longrightarrow> to_lower (clTokenHeader c) \<noteq> ''if-none-match'' \<Longrightarrow> authorized s (routes_request c etag)"
  by (simp add: authorized_def hq_get_def routes_request_def trusts_def)

lemma fetch_published:
  assumes "publishable ms" and "old \<noteq> hex_sum8 (models_text ms)"
    and "trusts s c" and "to_lower (clTokenHeader c) \<noteq> ''if-none-match''"
  shows "FetchRoutes (mock_net c (setRoutes ms s) (routes_request c old)) old
    = Inr (table_of ms, hex_sum8 (models_text ms))"
proof -
  have t: "trusts (setRoutes ms s) c" using assms(3) by (simp add: trusts_def setRoutes_def)
  have j: "json_ok (routes_json (hex_sum8 (models_text ms)) ms)" by (simp add: routes_json_def slice_json_ok)
  have w: "dec_routes_wire (routes_json (hex_sum8 (models_text ms)) ms)
      = Some (hex_sum8 (models_text ms), Some (slice_json modelRoute_json ms))"
    by (simp add: routes_json_def dec_routes_wire_def json_dec)
  have l: "limit_body (64 * 2 ^ 20) (Inr (json_text (routes_json (hex_sum8 (models_text ms)) ms) @ [CHR 10]))
      = Inr (json_text (routes_json (hex_sum8 (models_text ms)) ms) @ [CHR 10])"
    using assms(1) by (simp only: publishable_def limit_body_def sum.case) (intro arg_cong [of _ _ Inr] take_all; simp)
  show ?thesis
    using assms(1,2) dec_models [of ms] routes_authorized [OF t assms(4)]
    by (simp add: mock_net_def handleRoutes_def routes_get_etag [OF assms(4)] exchange_of_def FetchRoutes_def l [simplified]
        setRoutes_def models_text_def [symmetric] publishable_def unmarshal_line [OF j] w table_of_def del: dec_arr.simps)
qed

text \<open>A table is published, then the poller polls once.\<close>

definition publish_and_poll :: "client \<Rightarrow> modelRoute list option \<Rightarrow> server \<times> poller \<Rightarrow> server \<times> poller" where
  "publish_and_poll c ms sp =
     (let s = setRoutes ms (fst sp); p = snd sp
      in (s, snd (Sync (mock_net c s (routes_request c (poEtag p))) p)))"

lemma publish_step:
  assumes "publishable ms" and "trusts s c" and "to_lower (clTokenHeader c) \<noteq> ''if-none-match''"
    and "poEtag p = hex_sum8 (models_text ms) \<longrightarrow> poRouter p = Load (table_of ms) None"
  shows "\<exists>p'. publish_and_poll c ms (s, p) = (setRoutes ms s, p')
    \<and> poEtag p' = hex_sum8 (models_text ms) \<and> poRouter p' = Load (table_of ms) None"
proof (cases "poEtag p = hex_sum8 (models_text ms)")
  case True
  have t: "trusts (setRoutes ms s) c" using assms(2) by (simp add: trusts_def setRoutes_def)
  have "FetchRoutes (mock_net c (setRoutes ms s) (routes_request c (poEtag p))) (poEtag p) = Inl NotModified"
    using assms(1) True routes_authorized [OF t assms(3)]
    by (simp add: mock_net_def handleRoutes_def routes_get_etag [OF assms(3)] exchange_of_def FetchRoutes_def setRoutes_def
        models_text_def [symmetric] publishable_def)
  with True assms(4) show ?thesis by (simp add: publish_and_poll_def Sync_def Let_def)
next
  case False
  with assms(1) show ?thesis
    by (simp add: publish_and_poll_def Sync_def Let_def fetch_published [OF assms(1) False assms(2,3)])
      (simp add: publishable_def table_of_def Load_def)
qed

text \<open>After any tables have been published and polled, the ETag the poller holds is that of a table it has loaded.\<close>

lemma publish_run:
  assumes "\<forall>m \<in> set ts. publishable m" and "inj_on hex_sum8 (models_text ` set ts)"
    and "trusts s c" and "to_lower (clTokenHeader c) \<noteq> ''if-none-match''"
  shows "\<exists>s' p. fold (publish_and_poll c) ts (s, \<lparr>poRouter = None, poEtag = [], poRejected = 0\<rparr>) = (s', p) \<and> trusts s' c
      \<and> (poEtag p = [] \<or> (\<exists>m \<in> set ts. poEtag p = hex_sum8 (models_text m) \<and> poRouter p = Load (table_of m) None))
      \<and> (ts \<noteq> [] \<longrightarrow> poRouter p = Load (table_of (last ts)) None)"
  using assms(1,2)
proof (induction ts rule: rev_induct)
  case (snoc m ts)
  have inj: "inj_on hex_sum8 (models_text ` set ts)" using snoc.prems(2) by (rule inj_on_subset) auto
  with snoc obtain s' p where sp:
    "fold (publish_and_poll c) ts (s, \<lparr>poRouter = None, poEtag = [], poRejected = 0\<rparr>) = (s', p)" "trusts s' c"
    "poEtag p = [] \<or> (\<exists>m \<in> set ts. poEtag p = hex_sum8 (models_text m) \<and> poRouter p = Load (table_of m) None)" by auto
  have m: "publishable m" using snoc.prems by auto
  have "poEtag p = hex_sum8 (models_text m) \<longrightarrow> poRouter p = Load (table_of m) None"
  proof
    assume e: "poEtag p = hex_sum8 (models_text m)"
    then obtain m' where m': "m' \<in> set ts" "hex_sum8 (models_text m') = hex_sum8 (models_text m)"
      "poRouter p = Load (table_of m') None" using sp(3) by auto
    then have "models_text m' = models_text m"
      by (intro inj_onD [OF snoc.prems(2) m'(2)] imageI) auto
    then show "poRouter p = Load (table_of m) None"
      using m m' snoc.prems(1) same_text_same_table [of m' m] by auto
  qed
  from publish_step [OF m sp(2) assms(4) this] sp show ?case by (auto simp: trusts_def setRoutes_def)
qed (use assms(3) in simp)

text \<open>C25: route tables published one after the other, each polled once, always end with the router serving exactly
  the last of them, provided the digest tells different tables apart: a changed table is never mistaken for an
  unchanged one, and an unchanged one costs a 304.\<close>

theorem poller_follows_publisher:
  assumes "\<forall>m \<in> set (tables @ [ms]). publishable m" and "inj_on hex_sum8 (models_text ` set (tables @ [ms]))"
    and "trusts s c" and "to_lower (clTokenHeader c) \<noteq> ''if-none-match''"
  shows "poRouter (snd (fold (publish_and_poll c) (tables @ [ms]) (s, \<lparr>poRouter = None, poEtag = [], poRejected = 0\<rparr>)))
    = Load (table_of ms) None"
  using publish_run [OF assms] by auto

definition table_a :: "modelRoute list option" where
  "table_a = Some [\<lparr>mmCode = ''m'', mmProviders = Some
     [\<lparr>prProviderCode = ''p'', prProviderModelCode = ''pm'', prPriority = 1, prWeight = 2, prProviderProtocol = []\<rparr>]\<rparr>]"

lemma sample_table: "publishable table_a"
proof -
  have "json_cost (routes_json (hex_sum8 (models_text table_a)) table_a) \<le> 20000"
    by (simp add: routes_json_def table_a_def slice_json_def modelRoute_json_def providerRoute_json_def
          opt_str_def num_int_def int_text_def nat_text.simps)
  with json_text_length [of "routes_json (hex_sum8 (models_text table_a)) table_a"]
  have "length (json_text (routes_json (hex_sum8 (models_text table_a)) table_a)) < 64 * 2 ^ 20" by simp
  then show ?thesis
    by (simp add: publishable_def models_of_def ints_in_range_def table_of_def) (simp add: table_a_def in_i64_def)
qed

lemma poller_follows_publisher_witness:
  "Models (poRouter (snd (fold (publish_and_poll sample_client) ([table_a, table_a] @ [table_a])
     (sample_server, \<lparr>poRouter = None, poEtag = [], poRejected = 0\<rparr>)))) = [''m'']"
proof -
  have "trusts sample_server sample_client" "to_lower (clTokenHeader sample_client) \<noteq> ''if-none-match''"
    by (simp_all add: trusts_def sample_client_def sample_server_def New_def to_lower_lit lower_char_bits)
  moreover have "inj_on hex_sum8 (models_text ` set ([table_a, table_a] @ [table_a]))" by simp
  ultimately have "poRouter (snd (fold (publish_and_poll sample_client) ([table_a, table_a] @ [table_a])
     (sample_server, \<lparr>poRouter = None, poEtag = [], poRejected = 0\<rparr>))) = Load (table_of table_a) None"
    by (intro poller_follows_publisher) (simp_all add: sample_table)
  then show ?thesis by (simp only:) (simp add: table_a_def table_of_def models_of_def Load_def Models_def)
qed

text \<open>The built-in table can be published.\<close>

lemma defaultRoutes_publishable: "publishable defaultRoutes"
proof -
  have "json_cost (routes_json (hex_sum8 (models_text defaultRoutes)) defaultRoutes) \<le> 20000"
    by (simp add: routes_json_def defaultRoutes_def one_route_def slice_json_def modelRoute_json_def providerRoute_json_def
          opt_str_def num_int_def int_text_def nat_text.simps)
  with json_text_length [of "routes_json (hex_sum8 (models_text defaultRoutes)) defaultRoutes"]
  have "length (json_text (routes_json (hex_sum8 (models_text defaultRoutes)) defaultRoutes)) < 64 * 2 ^ 20" by simp
  then show ?thesis
    by (simp add: publishable_def models_of_def ints_in_range_def table_of_def)
      (simp add: defaultRoutes_def one_route_def in_i64_def)
qed

end
