(* ===== verification/EndToEnd.thy ===== *)
theory EndToEnd
  imports HandlerProps MockControlPlane
begin

text \<open>
  Properties of the whole: where the requests of a client go and what they carry, and how the usage
  that the handler reports ends up at the control plane that authorised it.
\<close>

section \<open>Requests stay on their route\<close>

lemma weighted_loop_subset: "weighted_loop rnd k cs = Some (out, k') \<Longrightarrow> set out \<subseteq> set cs"
proof (induction rnd k cs arbitrary: out k' rule: weighted_loop.induct)
  case (1 rnd k cs)
  show ?case
  proof (cases "cs = []")
    case True
    with 1(2) show ?thesis by (simp add: weighted_loop.simps)
  next
    case False
    let ?i = "pick_first (rnd k (total_weight cs)) cs"
    from 1(2) False obtain o1 where o1: "\<not> total_weight cs \<le> 0" "out = cs ! ?i # o1"
      "weighted_loop rnd (Suc k) (remove_nth ?i cs) = Some (o1, k')"
      by (subst (asm) weighted_loop.simps) (auto simp: Let_def split: if_splits)
    have "set (remove_nth ?i cs) \<subseteq> set cs" by (auto simp: remove_nth_def dest: in_set_takeD in_set_dropD)
    with 1(1) [OF False refl o1(1) refl o1(3)] o1(2) False show ?thesis by auto
  qed
qed

lemma all_tiers_subset: "all_tiers rnd k ts = Some (out, k') \<Longrightarrow> set out \<subseteq> set (concat ts)"
proof (induction ts arbitrary: k out k')
  case (Cons t ts)
  have "weightedOrder rnd k t = Some (o1, k1) \<Longrightarrow> set o1 \<subseteq> set t" for o1 k1
    using weighted_loop_subset [of rnd k t o1 k1] by (cases t) (auto simp: weightedOrder_def split: if_splits)
  with Cons show ?case by (fastforce split: option.splits)
qed simp

text \<open>Whatever the weights, the candidates of a model are entries of its route.\<close>

lemma Attempts_on_route:
  assumes "Attempts rnd k (Load routes r0) code = Some (cands, k')" and "c \<in> set cands"
  shows "\<exists>ps. route_of routes code = Some ps \<and> c \<in> candidate ` set ps"
proof -
  obtain ps where ps: "route_of routes code = Some ps" "all_tiers rnd k (tiers_of ps) = Some (cands, k')"
    using assms by (auto simp: Load_lookup split: option.splits)
  have "set (concat (tiers_of ps)) = candidate ` set ps"
    using mset_eq_setD [OF mset_tiers [of ps]] by simp
  with all_tiers_subset [OF ps(2)] assms(2) ps(1) show ?thesis by blast
qed

text \<open>The names of the header fields that a request has before the provider's credentials are added.\<close>

definition gateway_fields :: "string list" where
  "gateway_fields = [''user-agent'', ''content-type''] @ forwardRequestHeaders"

lemma upstream_headers_fields: "fst ` set (upstream_headers src target tr) \<subseteq> set gateway_fields"
proof -
  have "to_lower ''User-Agent'' = ''user-agent''" "to_lower ''Content-Type'' = ''content-type''"
    "to_lower ''anthropic-version'' = ''anthropic-version''"
    by code_simp+
  then show ?thesis
    by (auto simp: upstream_headers_def copyRequestHeaders_def h_set_def h_del_def forwards_def gateway_fields_def
        forwardRequestHeaders_def Let_def)
qed

text \<open>
  What is sent for a candidate: a request for the path of its protocol at the provider's endpoint, with only
  the gateway's own fields and the provider's credentials, or an invocation of the candidate's model.
\<close>

definition sent_for :: "world \<Rightarrow> protocol \<Rightarrow> Candidate \<Rightarrow> Provider \<Rightarrow> upstream_call \<Rightarrow> bool" where
  "sent_for w proto c prov call \<longleftrightarrow> (\<exists>target. target_protocol proto c = Inr target
     \<and> (case call of
          SentHTTP rq \<Rightarrow> (\<exists>base h i. Endpoint prov target = Some base \<and> uqURL rq = upstream_url base target
            \<and> fst ` set h \<subseteq> set gateway_fields
            \<and> Authenticate (wdSign w i) prov h (uqBody rq) = Inr (uqHeader rq))
        | SentInvoke stream m b \<Rightarrow> CanInvoke prov target \<and> m = cProviderModelCode c))"

lemma send_on_route:
  assumes "call \<in> set (fst (send w i src prov base target tr body))" and "Endpoint prov target = Some base"
    and "target_protocol proto c = Inr target"
  shows "sent_for w proto c prov call"
proof -
  from assms(1) obtain h where "Authenticate (wdSign w i) prov (upstream_headers src target tr) body = Inr h"
    "call = SentHTTP \<lparr>uqURL = upstream_url base target, uqHeader = h, uqBody = body\<rparr>"
    by (auto simp: send_def Let_def split: option.splits sum.splits)
  with assms(2,3) upstream_headers_fields [of src target tr] show ?thesis
    unfolding sent_for_def by (intro exI [of _ target]) (auto intro: exI [of _ i])
qed

lemma invoke_on_route:
  "call \<in> set (fst (send_invoke w i src target tr (cProviderModelCode c) body st)) \<Longrightarrow> CanInvoke prov target \<Longrightarrow>
   target_protocol proto c = Inr target \<Longrightarrow> sent_for w proto c prov call"
  by (auto simp: send_invoke_def sent_for_def Let_def split: option.splits sum.splits)

lemma plan_on_route:
  "plan_candidate w proto c = Inr pl \<Longrightarrow> map_of (wdProviders w) (cProviderCode c) = Some (plProvider pl)
    \<and> target_protocol proto c = Inr (plTarget pl) \<and> plBase pl = Endpoint (plProvider pl) (plTarget pl)
    \<and> (plBase pl = None \<longrightarrow> CanInvoke (plProvider pl) (plTarget pl))"
  by (auto simp: plan_candidate_def rbind_Inr_iff Let_def split: option.splits if_splits)

lemma calls_on_route:
  assumes "call \<in> set (calls_of w r proto preq body i c)"
  shows "\<exists>prov. map_of (wdProviders w) (cProviderCode c) = Some prov \<and> sent_for w proto c prov call"
proof (cases "plan_candidate w proto c")
  case (Inl e)
  with assms show ?thesis by (simp add: calls_of_eq)
next
  case (Inr pl)
  note p = plan_on_route [OF Inr]
  show ?thesis
  proof (cases "plBase pl")
    case None
    with assms Inr have "\<exists>b. call \<in> set (fst (send_invoke w i (ibHeader r) (plTarget pl) (plTranslator pl \<noteq> None)
        (cProviderModelCode c) b (rqStream preq)))"
      by (auto simp: calls_of_eq split: sum.splits)
    with p None invoke_on_route show ?thesis by blast
  next
    case (Some base)
    with assms Inr have "\<exists>b. call \<in> set (fst (send w i (ibHeader r) (plProvider pl) base (plTarget pl)
        (plTranslator pl \<noteq> None) b))"
      by (auto simp: calls_of_eq split: sum.splits)
    with p Some send_on_route show ?thesis by metis
  qed
qed

lemma run_on_route:
  assumes "call \<in> set (sdCalls (run_attempts w r h proto apiKey preq body cs))"
  shows "\<exists>c \<in> set cs. \<exists>prov. map_of (wdProviders w) (cProviderCode c) = Some prov \<and> sent_for w proto c prov call"
proof -
  obtain k where "sdCalls (run_attempts w r h proto apiKey preq body cs)
      = concat (map (\<lambda>j. calls_of w r proto preq body j (cs ! j)) [0..<min (Suc k) (length cs)])"
    using run_attempts_first [of cs w r proto preq body h apiKey] by blast
  with assms obtain j where "j < length cs" "call \<in> set (calls_of w r proto preq body j (cs ! j))" by auto
  with calls_on_route nth_mem show ?thesis by metis
qed

text \<open>C2: nothing leaves the route: every request that the gateway sends for a client was authorised for the model it
  names, goes to a configured provider that the route table lists for this very model, at this provider's own
  endpoint for the protocol and with the path of the protocol (or invokes the listed model), and carries besides the
  provider's credentials only fields of the gateway's own list, so never the client's API key.\<close>

theorem requests_stay_on_route:
  assumes "ServeHTTP w r = Some sv" and "call \<in> set (sdCalls sv)" and "wdRouter w = Load routes r0"
  shows "\<exists>proto body preq ps p prov. admitted w r proto body preq
    \<and> route_of routes (rqModel preq) = Some ps \<and> p \<in> set ps
    \<and> map_of (wdProviders w) (prProviderCode p) = Some prov \<and> sent_for w proto (candidate p) prov call"
proof -
  let ?n = "svMaxFailoverAttempts (cfServer (wdConfig w))"
  have "\<not> refused sv" using assms(2) by (auto simp: refused_def)
  then obtain proto body preq s0 where s0: "admitted w r proto body preq"
    "route_request w r (request_header w) proto (extractAPIKey (ibHeader r)) preq body = Some s0" "sdCalls sv = sdCalls s0"
    using ServeHTTP_cases [OF assms(1)] by auto
  have "\<not> refused s0" using assms(2) s0(3) by (auto simp: refused_def)
  then obtain cands k where c: "Attempts (wdRand w) 0 (wdRouter w) (rqModel preq) = Some (cands, k)"
    "s0 = run_attempts w r (request_header w) proto (extractAPIKey (ibHeader r)) preq body (take (nat ?n) cands)"
    using route_request_cases [OF s0(2)] by blast
  with assms(2) s0(3) obtain c prov where p: "c \<in> set cands" "map_of (wdProviders w) (cProviderCode c) = Some prov"
    "sent_for w proto c prov call" using run_on_route by (metis in_set_takeD)
  obtain ps p where "route_of routes (rqModel preq) = Some ps" "p \<in> set ps" "c = candidate p"
    using Attempts_on_route [OF c(1) [unfolded assms(3)] p(1)] by blast
  moreover have "cProviderCode (candidate p) = prProviderCode p" by (simp add: candidate_def)
  ultimately show ?thesis using s0(1) p by metis
qed

lemma requests_stay_on_route_witness:
  "\<exists>sv proto (preq :: request) call. ServeHTTP (sample_world 3 first_fails) sample_inbound = Some sv \<and> hd (sdCalls sv) = call
     \<and> (\<exists>ps p. route_of (two_providers 1 1) (rqModel preq) = Some ps \<and> p \<in> set ps
         \<and> sent_for (sample_world 3 first_fails) proto (candidate p) sample_provider call)"
proof -
  obtain sv where sv: "ServeHTTP (sample_world 3 first_fails) sample_inbound = Some sv" "length (sdCalls sv) = 2"
    using sample_served by blast
  then have m: "hd (sdCalls sv) \<in> set (sdCalls sv)" by (cases "sdCalls sv") auto
  have t: "wdRouter (sample_world 3 first_fails) = Load (two_providers 1 1) None" by (simp add: sample_world_def)
  from requests_stay_on_route [OF sv(1) m t] obtain proto ps p prov and preq :: request where r: "route_of (two_providers 1 1) (rqModel preq) = Some ps" "p \<in> set ps"
    "map_of (wdProviders (sample_world 3 first_fails)) (prProviderCode p) = Some prov"
    "sent_for (sample_world 3 first_fails) proto (candidate p) prov (hd (sdCalls sv))" by blast
  have "prov = sample_provider" using r(3) by (simp add: sample_world_def split: if_splits)
  with sv(1) r show ?thesis by blast
qed

section \<open>Usage ends up at the control plane\<close>

text \<open>What no request changes in the control plane: its tokens and its keys.\<close>

definition same_access :: "server \<Rightarrow> server \<Rightarrow> bool" where
  "same_access s s' \<longleftrightarrow> sToken s' = sToken s \<and> sTokenHeader s' = sTokenHeader s \<and> sKeys s' = sKeys s"

lemma serve_access: "same_access s (fst (serve base s rq))"
  by (simp add: same_access_def serve_def handleUsage_def handleDebugUsages_def handleDebugRoutes_def setRoutes_def Let_def
      split: option.split)

definition server_after :: "string \<Rightarrow> http_request list \<Rightarrow> server \<Rightarrow> server" where
  "server_after base rqs s = fold (\<lambda>rq s. fst (serve base s rq)) rqs s"

lemma server_after_access: "same_access s (server_after base rqs s)"
proof (induction rqs rule: rev_induct)
  case (snoc rq rqs)
  then show ?case using serve_access [of "server_after base rqs s" base rq]
    by (simp add: server_after_def same_access_def)
qed (simp add: server_after_def same_access_def)

lemma newRequestID_not_empty: "newRequestID bs \<noteq> []"
  by (simp add: newRequestID_def)

text \<open>What the entry of a report says.\<close>

lemma usage_entry_fields:
  "map_of (usage_entry u) ''request_id'' = Some (JStr (urRequestID u))"
  "map_of (usage_entry u) ''model_code'' = Some (JStr (urModelCode u))"
  "map_of (usage_entry u) ''status_code'' = Some (num_int (urStatusCode u))"
  "map_of (usage_entry u) ''api_key'' = Some (JStr (''...'' @ drop (length (urAPIKey u) - 4) (urAPIKey u)))"
  by (simp_all add: usage_entry_def enc_UsageReport_def update_conv' maskKey_def)

text \<open>A key that was accepted for a request is one for which the control plane takes the report of the request.\<close>

lemma authorised_report_fits:
  assumes "ServeHTTP w r = Some sv" and "u \<in> set (sdReports sv)" and "wdNet w = mock_net (wdControlPlane w) s"
    and "trusts s (wdControlPlane w)" and "wdRequestID w = newRequestID bs"
    and "length (urModelCode u) \<le> 100000" and "length (json_text (enc_UsageReport u)) \<le> 2 ^ 20"
  shows "objection s (urAPIKey u) (urModelCode u) = None \<and> urRequestID u = wdRequestID w \<and> report_fits s u"
proof -
  obtain proto body preq where a: "admitted w r proto body preq"
    and u: "report_ok w (extractAPIKey (ibHeader r)) (rqModel preq) sv u"
    using reported_once [OF assms(1,2)] by blast
  have ids: "urAPIKey u = extractAPIKey (ibHeader r)" "urModelCode u = rqModel preq" "urRequestID u = wdRequestID w"
    using u by (simp_all add: report_ok_def)
  obtain auth where auth: "KeyAuth (wdControlPlane w) (mock_net (wdControlPlane w) s) (urAPIKey u) (urModelCode u) = Inr auth"
    "kaValid auth"
    using a assms(3) ids by (auto simp: admitted_def)
  with key_auth_decided [OF assms(4,6), of "urAPIKey u"] have o: "objection s (urAPIKey u) (urModelCode u) = None" by auto
  then have "urAPIKey u \<in> set (sKeys s)" by (auto simp: objection_def split: if_splits)
  with o ids assms(5,7) newRequestID_not_empty [of bs] show ?thesis by (simp add: report_fits_def)
qed

text \<open>C5: a request that reached a provider is accounted for: the report that the gateway makes of it is one the
  control plane takes, since the key in it is one it accepted, whatever requests the control plane served in between;
  delivered with retries through a network that loses requests and answers it is recorded exactly once if any attempt
  arrived, with the request's id, the model that was authorised and the reported status, and of the key with its last
  four bytes, which are the whole key when it has no more.\<close>

theorem usage_is_accounted_for:
  assumes "ServeHTTP w r = Some sv" and "u \<in> set (sdReports sv)"
    and "wdNet w = mock_net (wdControlPlane w) s" and "trusts s (wdControlPlane w)"
    and "s' = server_after base rqs s" and "wdRequestID w \<notin> set (sSeen s')" and "wdRequestID w = newRequestID bs"
    and "length (urModelCode u) \<le> 100000" and "length (json_text (enc_UsageReport u)) \<le> 2 ^ 20"
    and "deliver (wdControlPlane w) (lossy_net (wdControlPlane w) s' f) maxRetries u = (out, sleeps)"
  shows "objection s (urAPIKey u) (urModelCode u) = None
    \<and> sUsages (mock_run (wdControlPlane w) s' f (report_request (wdControlPlane w) u) (Suc (length sleeps)))
       = sUsages s' @ (if \<exists>k \<le> length sleeps. f k \<noteq> Lost then [usage_entry u] else [])
    \<and> map_of (usage_entry u) ''request_id'' = Some (JStr (wdRequestID w))
    \<and> map_of (usage_entry u) ''model_code'' = Some (JStr (urModelCode u))
    \<and> map_of (usage_entry u) ''status_code'' = Some (num_int (urStatusCode u))
    \<and> map_of (usage_entry u) ''api_key'' = Some (JStr (''...'' @ drop (length (urAPIKey u) - 4) (urAPIKey u)))"
proof -
  note fits = authorised_report_fits [OF assms(1-4,7-9)]
  have s': "trusts s' (wdControlPlane w)" "report_fits s' u"
    using server_after_access [of s base rqs] assms(4) fits by (auto simp: assms(5) same_access_def trusts_def report_fits_def)
  have new: "urRequestID u \<notin> set (sSeen s')" using assms(6) fits by simp
  from recorded_once [OF assms(10) s' new] fits show ?thesis by (simp add: usage_entry_fields)
qed

text \<open>A gateway whose providers cannot be reached, with the repository's control plane.\<close>

definition gateway_server :: server where
  "gateway_server = sample_server\<lparr>sKeys := [''client-key'']\<rparr>"

definition refusing_world :: world where
  "refusing_world = (sample_world 3 first_fails)\<lparr>wdControlPlane := sample_client,
     wdNet := mock_net sample_client gateway_server, wdUpstream := \<lambda>i rq. Inl ''refused''\<rparr>"

lemma refusing_try:
  "\<exists>rq. try_candidate refusing_world sample_inbound Anthropic preq body i (sample_candidate ''a'')
     = ([SentHTTP rq], [Failovers ''a'' ''transport''], Failed ''refused'' False)"
  "\<exists>rq. try_candidate refusing_world sample_inbound Anthropic preq body i (sample_candidate ''b'')
     = ([SentHTTP rq], [Failovers ''b'' ''transport''], Failed ''refused'' False)"
  by (simp_all add: refusing_world_def try_candidate_def plan_candidate_def target_protocol_def sample_world_def
      sample_candidate_def sample_provider_def Endpoint_def CanInvoke_def Anthropic_def upstream_body_def send_def
      Authenticate_def Authenticate_header_def Let_def)

definition refused_report :: UsageReport where
  "refused_report = report refusing_world ''client-key'' ''m'' ''x'' 0 502 no_usage"

lemma refused_fields:
  "urRequestID refused_report = wdRequestID refusing_world" "urAPIKey refused_report = ''client-key''"
  "urModelCode refused_report = ''m''" "urProviderModelCode refused_report = ''x''" "urStartTime refused_report = ''now''"
  "urDuration refused_report = 5" "urTTFT refused_report = 0" "urStatusCode refused_report = 502"
  "urInputTokens refused_report = 0" "urOutputTokens refused_report = 0" "urTotalTokens refused_report = 0"
  "urCacheReadTokens refused_report = 0" "urCacheWriteTokens refused_report = 0" "urReasoningTokens refused_report = 0"
  by (simp_all add: refused_report_def report_def no_usage_def Total_def Milliseconds_def i64_of_def) (simp add: refusing_world_def sample_world_def)+

lemma refusing_route:
  "\<exists>s. route_request refusing_world sample_inbound h Anthropic ''client-key'' \<lparr>rqModel = ''m'', rqStream = False, rqFields = fs\<rparr> body = Some s
     \<and> sdReports s = [refused_report]"
proof -
  let ?rq = "\<lparr>rqModel = ''m'', rqStream = False, rqFields = fs\<rparr>"
  obtain k where a: "Attempts (wdRand refusing_world) 0 (wdRouter refusing_world) ''m''
      = Some ([sample_candidate ''a'', sample_candidate ''b''], k)"
    using sample_attempts by (auto simp: refusing_world_def sample_world_def)
  obtain r1 r2 where t: "try_candidate refusing_world sample_inbound Anthropic ?rq body 0 (sample_candidate ''a'')
      = ([SentHTTP r1], [Failovers ''a'' ''transport''], Failed ''refused'' False)"
    "try_candidate refusing_world sample_inbound Anthropic ?rq body (Suc 0) (sample_candidate ''b'')
      = ([SentHTTP r2], [Failovers ''b'' ''transport''], Failed ''refused'' False)"
    using refusing_try by metis
  have "svMaxFailoverAttempts (cfServer (wdConfig refusing_world)) = 3"
    by (simp add: refusing_world_def sample_world_def applyDefaults_def sample_config_def server_defaults_def or_int_def)
  with a t show ?thesis
    by (simp add: route_request_def limit_attempts_def run_attempts_def no_tried_def finish_exhausted_def exhausted_error_def
        refused_report_def Let_def) (simp add: sample_candidate_def)
qed

lemma refusing_served: "\<exists>sv. ServeHTTP refusing_world sample_inbound = Some sv \<and> sdReports sv = [refused_report]"
proof -
  let ?body = "json_text (jmap [(''model'', JStr ''m'')])"
  let ?rq = "\<lparr>rqModel = ''m'', rqStream = False, rqFields = [(''model'', JStr ''m'')]\<rparr>"
  have adm: "admitted (sample_world 3 first_fails) sample_inbound Anthropic ?body ?rq" by (rule sample_admitted)
  have key: "extractAPIKey (ibHeader sample_inbound) = ''client-key''"
    by (simp add: sample_inbound_def extractAPIKey_def h_get_def h_values_def to_lower_def trim_space_def is_blank_def)
  have "trusts gateway_server sample_client"
    by (simp add: trusts_def gateway_server_def sample_server_def sample_client_def New_def)
  moreover have "objection gateway_server ''client-key'' ''m'' = None"
    by (simp add: objection_def gateway_server_def sample_server_def has_suffix_def modelKnown_def)
  ultimately obtain auth where auth: "KeyAuth sample_client (mock_net sample_client gateway_server) ''client-key'' ''m'' = Inr auth"
    "kaValid auth" using key_auth_decided [of gateway_server sample_client "''m''" "''client-key''"] by auto
  obtain s where s: "route_request refusing_world sample_inbound (request_header refusing_world) Anthropic ''client-key'' ?rq ?body = Some s"
    "sdReports s = [refused_report]" using refusing_route by blast
  have cfg: "wdConfig refusing_world = wdConfig (sample_world 3 first_fails)"
    "wdControlPlane refusing_world = sample_client" "wdNet refusing_world = mock_net sample_client gateway_server"
    by (simp_all add: refusing_world_def)
  from adm s auth show ?thesis
    by (auto simp: admitted_def ServeHTTP_def authorize_def request_header_def cfg key Let_def)
qed

lemma usage_is_accounted_for_witness:
  "\<exists>u. sUsages (mock_run sample_client gateway_server (\<lambda>k. if k = 0 then AnswerLost else Answered_back)
      (report_request sample_client u) 2) = [usage_entry u] \<and> map_of (usage_entry u) ''status_code'' = Some (num_int 502)
     \<and> map_of (usage_entry u) ''api_key'' = Some (JStr ''...-key'')"
proof -
  let ?f = "\<lambda>k :: nat. if k = 0 then AnswerLost else Answered_back"
  obtain sv where sv: "ServeHTTP refusing_world sample_inbound = Some sv" "refused_report \<in> set (sdReports sv)"
    using refusing_served by auto
  have w: "wdNet refusing_world = mock_net (wdControlPlane refusing_world) gateway_server" "wdControlPlane refusing_world = sample_client"
    "trusts gateway_server (wdControlPlane refusing_world)" "wdRequestID refusing_world = newRequestID ''123456789012''"
    by (simp_all add: refusing_world_def trusts_def gateway_server_def sample_server_def sample_client_def New_def sample_world_def)
  have n: "wdRequestID refusing_world \<notin> set (sSeen gateway_server)" by (simp add: gateway_server_def sample_server_def)
  have fields: "urModelCode refused_report = ''m''" "urRequestID refused_report = wdRequestID refusing_world"
    "urStatusCode refused_report = 502" by (simp_all add: refused_report_def)
  have "length (wdRequestID refusing_world) = 28"
    by (simp add: refusing_world_def sample_world_def newRequestID_def hex_encode_def)
  with refused_fields have "json_cost (enc_UsageReport refused_report) \<le> 10000"
    by (simp add: enc_UsageReport_def num64_def num_int_def i64_text_def int_text_def nat_text.simps)
  then have len: "length (json_text (enc_UsageReport refused_report)) \<le> 2 ^ 20"
    using json_text_length [of "enc_UsageReport refused_report"] by simp
  have after: "gateway_server = server_after [] [] gateway_server" by (simp add: server_after_def)
  have fits: "report_fits gateway_server refused_report" and new: "\<not> seen_report refused_report gateway_server"
    using authorised_report_fits [OF sv w(1,3,4) _ len] n fields by (simp_all add: seen_report_def)
  have d: "deliver (wdControlPlane refusing_world) (lossy_net (wdControlPlane refusing_world) gateway_server ?f) 2 refused_report
      = (Delivered_duplicate, [200])"
    using lossy_report [OF w(3) fits new] by (simp add: deliver_def deliver_loop.simps)
  have "sUsages (mock_run (wdControlPlane refusing_world) gateway_server ?f
      (report_request (wdControlPlane refusing_world) refused_report) (Suc (length [200 :: nat]))) = [usage_entry refused_report]
     \<and> map_of (usage_entry refused_report) ''status_code'' = Some (num_int (urStatusCode refused_report))
     \<and> map_of (usage_entry refused_report) ''api_key'' = Some (JStr (''...'' @ drop (length (urAPIKey refused_report) - 4) (urAPIKey refused_report)))"
    using usage_is_accounted_for [OF sv w(1,3) after n w(4) _ len d] fields
    by (auto simp: gateway_server_def sample_server_def)
  then show ?thesis using w(2) fields refused_fields(2) by (auto simp: numeral_2_eq_2)
qed

end
