(* ===== verification/Spec2Isabelle.thy ===== *)
theory Spec2Isabelle
  imports Metering Gateway RecordProxy SigV4 StreamTypes RequestProps EndToEnd
begin

text \<open>
  Verification of the LLM gateway.

  \<^bold>\<open>The program.\<close> The gateway (\<^verbatim>\<open>src/cmd/gateway\<close>, \<^verbatim>\<open>src/internal\<close>) is an HTTP server between clients that speak one of
  three protocols (Anthropic Messages, OpenAI Chat Completions, OpenAI Responses) and model providers. A request is read
  and authorised by the control plane (\<^verbatim>\<open>controlplane.Client.KeyAuth\<close>), routed by the table that the poller keeps fresh
  (\<^verbatim>\<open>router\<close>), translated when the provider speaks another protocol (\<^verbatim>\<open>protocol/translate\<close>), sent to one provider after
  the other until one answers (\<^verbatim>\<open>proxy.Handler.ServeHTTP\<close>), and the answer is relayed, streamed or whole, while its token
  usage is parsed from the bytes that pass. One usage report per request is queued (\<^verbatim>\<open>metering.Queue\<close>) and delivered to
  the control plane with retries. Besides the gateway the repository has a stand-in for the control plane
  (\<^verbatim>\<open>src/cmd/mock-controlplane\<close>) and a proxy that records traffic (\<^verbatim>\<open>src/tools/recordproxy\<close>); both are modelled.

  \<^bold>\<open>The theories\<close>, each importing those it uses:

  \<^item> Prelude: int64 as a word, results, and the functions of Go's strings, bytes and strconv that the code calls.
  \<^item> Json: encoding/json as far as it is used (values, printer, parser, field lookup of Unmarshal, Marshal of maps).
  \<^item> Sha256: crypto/sha256 and encoding/hex.
  \<^item> Protocol: \<^verbatim>\<open>internal/protocol\<close> (Detect, ParseRequest, Rewrite, the usage parsers of the three protocols).
  \<^item> GwErrors: \<^verbatim>\<open>internal/protocol/errors.go\<close>. ControlPlane: \<^verbatim>\<open>internal/controlplane/client.go\<close>.
  \<^item> Router: \<^verbatim>\<open>internal/router/router.go\<close>, snapshot, weighted order and poller. Metering: \<^verbatim>\<open>internal/metering/queue.go\<close>.
  \<^item> IR: \<^verbatim>\<open>translate/ir.go\<close> and \<^verbatim>\<open>ids.go\<close>, with the interfaces of stream encoders and decoders as locales.
  \<^item> ReqAnthropic, ReqChat, ReqResponses: the request codecs (\<^verbatim>\<open>translate/anthropic.go\<close>, \<^verbatim>\<open>openai_chat.go\<close>,
    \<^verbatim>\<open>openai_responses.go\<close>). Responses: the codecs of complete responses (\<^verbatim>\<open>response.go\<close> and the rest of
    \<^verbatim>\<open>openai_responses.go\<close>); ResponseProps has what they keep, RequestProps what a request for Responses keeps.
  \<^item> StreamAnthropic, StreamChat, StreamResponses: \<^verbatim>\<open>translate/stream_*.go\<close>, decoders and encoders as state machines.
  \<^item> Translator: \<^verbatim>\<open>translate/translate.go\<close>. StreamTypes: the types of what a translated stream sends.
  \<^item> Config: \<^verbatim>\<open>internal/config\<close>. Secrets: \<^verbatim>\<open>internal/secrets\<close>. Provider and SigV4: \<^verbatim>\<open>internal/provider\<close>.
  \<^item> Relay and RelayProps: \<^verbatim>\<open>proxy/handler.go\<close> from relay on. Handler and HandlerProps: ServeHTTP, the attempt loop, send,
    ModelsHandler.
  \<^item> Gateway: \<^verbatim>\<open>cmd/gateway/main.go\<close>, start, mux and shutdown.
  \<^item> MockControlPlane: \<^verbatim>\<open>cmd/mock-controlplane\<close>; RecordProxy: \<^verbatim>\<open>tools/recordproxy\<close>.
  \<^item> EndToEnd: what holds of the parts together.
\<close>

text \<open>
  \<^bold>\<open>How code is modelled.\<close> A struct is a record with the fields that are read, a tagged struct a datatype, an int64 a word
  of 64 bits and an int an integer with the wrap-around (\<open>wrap64\<close>) written out where a value from outside can make it overflow:
  the sum of weights, the index of a streamed tool call. A Go string is its list of
  bytes, with invalid UTF-8 and the spelling of escapes forgotten; a RawMessage is the JSON value it holds, \<open>None\<close> when
  empty; a float64 keeps its literal. A map that is marshalled prints its keys sorted; a map that is ranged over is a list
  in the order of the iteration. Durations are integers of nanoseconds.

  An error is the \<open>Inl\<close> of a sum with its text. A panic is \<open>None\<close> (\<open>Attempts\<close>, \<open>ServeHTTP\<close> before the first attempt,
  \<open>adaptInvokeBody\<close> and \<open>Invoke\<close> for a null body) or a value of its own: \<open>hrPanics\<close> and \<open>crPanics\<close> when WriteHeader is
  called with a status outside 100 to 999 (an upstream's or the SDK's), and the exit of a process that cannot start. Every operation of a component with state is a function from the state to the state; the queue
  and its workers, the poller and the shutdown of the process are step relations with one step per atomic action, so that
  the properties hold for every interleaving. The store of the control plane is one record, as its mutex makes each handler
  atomic.

  What is outside the repository is an argument: the network, the clock, random bytes, url.Parse, the AWS SDK and its
  signature, Secrets Manager, the contexts of requests. The record \<open>world\<close> (theory Handler) has those of a request,
  \<open>env\<close> (theory IR) those of the codecs, \<open>relay_ctx\<close> (theory Relay) those of a relay, the client connection
  that takes a write, a part of it or nothing among them. A body is the list of its reads with the error at its end; the bodies of
  net/http and the pump's pipe never return an empty read, so the scanner's ErrNoProgress (a hundred empty reads in a
  row) cannot occur and is not modelled. Header names are in lower case.
  Logs are not kept; metrics of the handler are the list of what is counted.

  \<^bold>\<open>Bounds and fuel.\<close> The JSON parser runs on fuel \<open>2 * length s + 2\<close>: \<open>json_fuel\<close> proves that more fuel changes no
  result, and \<open>json_parse_text\<close> that it reads back every printed value. The scanner's limit of a line is
  16 MiB, that of a body 64 MiB and that of an answer of the control plane 1 MiB (64 MiB for the routes), as in the code; a
  queue size that no channel can have (\<open>max_queue\<close>) makes the start panic.
  The loop that waits for the first routes has no fuel: it is a partial function and \<open>initial_routes_terminates\<close>
  proves that it returns within 22 polls. The delivery of a report recurses on the retries that are left. The order of the weighted choice
  terminates as the list gets shorter. The workers of the queue are finitely many after shutdown by a measure.
\<close>

text \<open>
  \<^bold>\<open>What is proved\<close>, by groups:

  \<^item> Admission: nothing is sent or reported before the key is accepted (\<open>nothing_before_key_auth\<close>), requests stay on their
    route and carry no client credentials (\<open>requests_stay_on_route\<close>), failover is in order and bounded
    (\<open>failover_takes_first_answer\<close>), every request is answered (\<open>every_request_answered\<close>).
  \<^item> Relay: independence of the chunking, in-band errors, the exact condition under which a pass-through stream is billed, and
    the exact events a translated one is metered by.
  \<^item> Translation: the encoders implement the contracts of their clients (locale \<open>stream_encoder\<close> with interpretations
    \<open>anthropic_out\<close>, \<open>responses_out\<close> and \<open>typed_out\<close>), the Chat decoder the contract of the IR (\<open>stream_decoder\<close>,
    \<open>chat_in\<close>); a translated stream is complete and well typed, a translated response keeps its answer, and requests
    survive their codecs.
  \<^item> Metering: the usage parsers (locale \<open>stream_usage\<close>, interpretation \<open>parser\<close>), the queue's invariant and termination,
    the delivery's attempts, and that a report is recorded once by a control plane that loses answers (locale
    \<open>idempotent_store\<close>, interpretation \<open>usages\<close>); \<open>usage_is_accounted_for\<close> composes the handler, the delivery and
    the control plane.
  \<^item> Routing: the attempts are a permutation, the draws follow the weights, the poller never blanks out a table (locale
    \<open>route_store\<close>, interpretation \<open>table\<close>) and follows the publisher.
  \<^item> Process: a configuration that is served is valid with its secrets resolved, the start terminates, and the shutdown
    bills every request that was answered.
  \<^item> Tools: recordings stay in their directory without credentials, and bodies are made acceptable to Bedrock.

  Plain theorems beside these show behaviour that deviates from comments or intent, each at a concrete input:
  \<open>late_enqueue_strands_report\<close>, \<open>Attempts_overflow_panics\<close>, \<open>anthropic_decoder_forwards_overlap\<close>, \<open>negative_index_overlaps\<close>,
  \<open>inband_error_is_billed\<close>, \<open>read_error_leaves_message_open\<close>, \<open>bad_status_panics\<close>, \<open>largest_index_closes_twice\<close> and
  \<open>negative_attempts_panic\<close>. The premises of the properties say what excludes them: weights that fit, tool indices
  that are not negative and below the largest integer, statuses of three digits, a limit that is not negative.

  \<^bold>\<open>Not modelled.\<close> \<^verbatim>\<open>internal/observability\<close> constructs the logger and registers collectors; \<^verbatim>\<open>tools/netprobe\<close> and
  \<^verbatim>\<open>tools/stsprobe\<close> print what the network answers. \<^verbatim>\<open>proxy.New\<close> and \<^verbatim>\<open>newBedrockInvoker\<close> only build a transport and a
  client of the SDK. Reading and expanding the configuration file and parsing YAML come before Config; the timing of
  contexts is an argument; the pump's goroutine and an early close of its pipe are not modelled, so a body is what a
  reader gets who reads all of it. Decoding a routes file of the stand-in into its built-in table, which reuses the
  table's elements, is left out: the table comes in decoded.
\<close>

end
